theory Spec2Isabelle
  imports Complex_Main
begin

section \<open>Synthetic star background of PIPE (\<^verbatim>\<open>pipe/syntstar.py\<close>)\<close>

text \<open>
  A shallow embedding of the functions of \<^verbatim>\<open>pipe/syntstar.py\<close>. NumPy's
  \<^verbatim>\<open>float64\<close> values are read as real numbers, so every statement below is one of
  exact real arithmetic; Python's \<^verbatim>\<open>int\<close> is \<^typ>\<open>int\<close>. A one-dimensional
  array is a list. Exceptions are values of \<open>py_error\<close>, and a function that can raise
  returns \<open>py_error + 'a\<close> with \<open>Inl\<close> for the exception.
\<close>

subsection \<open>Python and NumPy primitives\<close>

datatype py_error =
    IndexError
  | KeyError string
  | ValueError
  | OverflowError
  | Exception string
  | FitError string

text \<open>\<^verbatim>\<open>int(v)\<close> on a float truncates toward zero.\<close>

definition py_int :: "real \<Rightarrow> int" where
  "py_int v = (if 0 \<le> v then \<lfloor>v\<rfloor> else \<lceil>v\<rceil>)"

definition deg2rad :: "real \<Rightarrow> real" where
  "deg2rad d = d * (pi / 180)"

text \<open>
  A binary operation on two one-dimensional arrays broadcasts: equal lengths pair up,
  a length of one is stretched, anything else raises \<^verbatim>\<open>ValueError\<close>.
\<close>

definition np_binop :: "(real \<Rightarrow> real \<Rightarrow> real) \<Rightarrow> real list \<Rightarrow> real list \<Rightarrow> py_error + real list" where
  "np_binop f xs ys =
     (if length xs = length ys then Inr (map2 f xs ys)
      else if length xs = 1 then Inr (map (f (hd xs)) ys)
      else if length ys = 1 then Inr (map (\<lambda>x. f x (hd ys)) xs)
      else Inl ValueError)"

text \<open>
  \<^verbatim>\<open>np.linspace(a, b, num)\<close>: \<open>num\<close> samples \<open>a + k * step\<close> with
  \<open>step = (b - a) / (num - 1)\<close>; a single sample is \<open>a\<close>; a negative \<open>num\<close> raises.
\<close>

definition linspace :: "real \<Rightarrow> real \<Rightarrow> int \<Rightarrow> py_error + real list" where
  "linspace a b num =
     (if num < 0 then Inl ValueError
      else if num = 1 then Inr [a]
      else Inr (map (\<lambda>k. a + real k * ((b - a) / real_of_int (num - 1))) [0..<nat num]))"

subsection \<open>Geometry\<close>

text \<open>
  \<^verbatim>\<open>rotate_position(x, y, rolldeg)\<close> is one NumPy expression used at three shapes:
  scalars, two coordinate arrays with one angle (\<open>rotate_position_arr\<close>), and one
  position with an array of angles (\<open>rotate_position_angles\<close>, the call of
  \<^verbatim>\<open>image_cat\<close>).
\<close>

definition rotate_position :: "real \<Rightarrow> real \<Rightarrow> real \<Rightarrow> real \<times> real" where
  "rotate_position x y rolldeg =
     (let rollrad = deg2rad rolldeg;
          cosa = cos rollrad;
          sina = sin rollrad;
          xroll = x * cosa + y * sina;
          yroll = - x * sina + y * cosa
      in (xroll, yroll))"

definition derotate_position :: "real \<Rightarrow> real \<Rightarrow> real \<Rightarrow> real \<times> real" where
  "derotate_position xroll yroll rolldegs = rotate_position xroll yroll (- rolldegs)"

definition rotate_position_arr :: "real list \<Rightarrow> real list \<Rightarrow> real \<Rightarrow> py_error + (real list \<times> real list)" where
  "rotate_position_arr x y rolldeg =
     (let rollrad = deg2rad rolldeg;
          cosa = cos rollrad;
          sina = sin rollrad
      in case np_binop (+) (map (\<lambda>v. v * cosa) x) (map (\<lambda>v. v * sina) y) of
           Inl e \<Rightarrow> Inl e
         | Inr xroll \<Rightarrow>
             (case np_binop (+) (map (\<lambda>v. - v * sina) x) (map (\<lambda>v. v * cosa) y) of
                Inl e \<Rightarrow> Inl e
              | Inr yroll \<Rightarrow> Inr (xroll, yroll)))"

definition derotate_position_arr :: "real list \<Rightarrow> real list \<Rightarrow> real \<Rightarrow> py_error + (real list \<times> real list)" where
  "derotate_position_arr xroll yroll rolldegs = rotate_position_arr xroll yroll (- rolldegs)"

definition rotate_position_angles :: "real \<Rightarrow> real \<Rightarrow> real list \<Rightarrow> real list \<times> real list" where
  "rotate_position_angles x y rolldeg =
     (map (\<lambda>a. fst (rotate_position x y a)) rolldeg,
      map (\<lambda>a. snd (rotate_position x y a)) rolldeg)"

subsection \<open>Windowing\<close>

definition find_inds :: "int \<Rightarrow> int \<Rightarrow> int \<Rightarrow> int \<times> int \<times> int \<times> int" where
  "find_inds x_len x radius =
     (if x < - radius \<or> x > x_len + radius then (0, 0, 0, 0)
      else
        let (i0, j0) = (if x > radius then (x - radius, 0) else (0, radius - x));
            (i1, j1) = (if x + radius < x_len then (x + radius + 1, 2 * radius + 1)
                        else (x_len, radius - x + x_len))
        in (i0, i1, j0, j1))"

definition find_area_inds :: "real \<Rightarrow> real \<Rightarrow> nat \<times> nat \<Rightarrow> int \<Rightarrow> (int \<times> int \<times> int \<times> int) option" where
  "find_area_inds x y shape radius =
     (let i = py_int x;
          i0 = i - radius
      in if i0 \<ge> int (snd shape) then None
         else
           let i1 = i + radius
           in if i1 \<le> 0 then None
              else
                let i0' = max i0 0;
                    i1' = min i1 (int (snd shape));
                    j = py_int y;
                    j0 = j - radius
                in if j0 \<ge> int (fst shape) then None
                   else
                     let j1 = j + radius
                     in if j1 \<le> 0 then None
                        else
                          let j0' = max j0 0;
                              j1' = min j1 (int (fst shape))
                          in Some (i0', i1', j0', j1'))"

subsection \<open>Adaptive radius\<close>

definition psf_radii :: "real \<Rightarrow> int" where
  "psf_radii fscales =
     (let radii = 25 + 75 * (fscales - 1 / 10000) / (1 / 10 - 1 / 10000)
      in \<lceil>min (max radii 25) 100\<rceil>)"

text \<open>The specification's \<open>clamp(v, lo, hi)\<close>, used to state the formula of the radius.\<close>

definition clamp :: "int \<Rightarrow> int \<Rightarrow> int \<Rightarrow> int" where
  "clamp v lo hi = min (max v lo) hi"

subsection \<open>Exceptions and indexing\<close>

text \<open>Sequencing of steps that can raise: the first exception ends the computation.\<close>

definition bind_exc :: "py_error + 'a \<Rightarrow> ('a \<Rightarrow> py_error + 'b) \<Rightarrow> py_error + 'b" where
  "bind_exc m f = (case m of Inl e \<Rightarrow> Inl e | Inr v \<Rightarrow> f v)"

text \<open>\<^verbatim>\<open>xs[n]\<close> for a non-negative index; out of range raises \<^verbatim>\<open>IndexError\<close>.\<close>

definition nth_exc :: "'a list \<Rightarrow> nat \<Rightarrow> py_error + 'a" where
  "nth_exc xs n = (if n < length xs then Inr (xs ! n) else Inl IndexError)"

text \<open>
  \<^verbatim>\<open>xs[sel]\<close> with a boolean array \<open>sel\<close>: the entries where \<open>sel\<close> holds, in
  order; a mask of another length raises \<^verbatim>\<open>IndexError\<close>.
\<close>

definition np_select :: "bool list \<Rightarrow> 'a list \<Rightarrow> py_error + 'a list" where
  "np_select sel xs =
     (if length sel = length xs then Inr (map snd (filter fst (zip sel xs)))
      else Inl IndexError)"

text \<open>
  \<^verbatim>\<open>np.searchsorted(a, v)\<close> (side \<open>left\<close>) is a binary search; on a sorted array
  it is the number of entries below \<open>v\<close>.
\<close>

function bisect_left :: "real list \<Rightarrow> real \<Rightarrow> nat \<Rightarrow> nat \<Rightarrow> nat" where
  "bisect_left a v lo hi =
     (if lo < hi then
        (let mid = lo + (hi - lo) div 2
         in if a ! mid < v then bisect_left a v (mid + 1) hi
            else bisect_left a v lo mid)
      else lo)"
  by pat_completeness auto
termination
  by (relation "measure (\<lambda>(a, v, lo, hi). hi - lo)") auto

definition searchsorted :: "real list \<Rightarrow> real \<Rightarrow> nat" where
  "searchsorted a v = bisect_left a v 0 (length a)"

subsection \<open>Catalogue ingestion\<close>

text \<open>
  The FITS table of the catalogue file: its named columns, in order. The numbers of every
  column, the identifiers included, are carried as reals. \<open>table_ok\<close> says that all
  columns have the table's number of rows, as columns of one FITS table do.
\<close>

type_synonym fits_table = "(string \<times> real list) list"

definition column_names :: "fits_table \<Rightarrow> string list" where
  "column_names cat = map fst cat"

text \<open>
  \<^verbatim>\<open>cat[name]\<close> on the table data goes through \<^verbatim>\<open>astropy.io.fits\<close>, which looks
  the name up in two steps: the first column whose name is the key (without its trailing
  whitespace) exactly; failing that, the one column whose name is the key when both are
  put in lower case and stripped of trailing whitespace. No such column, or more than
  one, raises \<^verbatim>\<open>KeyError\<close>. \<open>py_lower\<close> and \<open>py_rstrip\<close> are \<^verbatim>\<open>str.lower\<close> and
  \<^verbatim>\<open>str.rstrip\<close> on the characters a \<^typ>\<open>char\<close> holds (code points below 256).
\<close>

definition py_lower_char :: "char \<Rightarrow> char" where
  "py_lower_char c =
     (let n = (of_char c :: nat)
      in if (65 \<le> n \<and> n \<le> 90) \<or> (192 \<le> n \<and> n \<le> 222 \<and> n \<noteq> 215) then char_of (n + 32) else c)"

definition py_lower :: "string \<Rightarrow> string" where
  "py_lower s = map py_lower_char s"

definition py_isspace :: "char \<Rightarrow> bool" where
  "py_isspace c =
     (let n = (of_char c :: nat)
      in (9 \<le> n \<and> n \<le> 13) \<or> (28 \<le> n \<and> n \<le> 32) \<or> n = 133 \<or> n = 160)"

definition py_rstrip :: "string \<Rightarrow> string" where
  "py_rstrip s = rev (dropWhile py_isspace (rev s))"

definition column :: "fits_table \<Rightarrow> string \<Rightarrow> py_error + real list" where
  "column cat name =
     (case map_of cat (py_rstrip name) of
        Some c \<Rightarrow> Inr c
      | None \<Rightarrow>
          (case filter (\<lambda>(n, c). py_rstrip (py_lower n) = py_rstrip (py_lower name)) cat of
             [(n, c)] \<Rightarrow> Inr c
           | _ \<Rightarrow> Inl (KeyError name)))"

definition table_len :: "fits_table \<Rightarrow> nat" where
  "table_len cat = (case cat of [] \<Rightarrow> 0 | (name, c) # rest \<Rightarrow> length c)"

definition table_ok :: "fits_table \<Rightarrow> bool" where
  "table_ok cat = list_all (\<lambda>(name, c). length c = table_len cat) cat"

text \<open>
  The flux scale of the first \<open>N\<close> rows from the magnitude column \<open>name\<close>:
  \<^verbatim>\<open>10**(-0.4*(cat[name][:N] - cat[name][0]))\<close>.
\<close>

definition mag_fscale :: "fits_table \<Rightarrow> string \<Rightarrow> nat \<Rightarrow> py_error + real list" where
  "mag_fscale cat name N =
     bind_exc (column cat name) (\<lambda>mag.
     bind_exc (nth_exc mag 0) (\<lambda>mag0.
       Inr (map (\<lambda>m. 10 powr (- 0.4 * (m - mag0))) (take N mag))))"

text \<open>
  \<^verbatim>\<open>star_bg.read_starcat\<close>, with the pixel scale of \<^verbatim>\<open>self\<close> as first argument.
  A pixel scale of zero gives infinite or undefined offsets in NumPy and is outside the
  model; the flux scales do not depend on it.
\<close>

definition read_starcat ::
  "real \<Rightarrow> fits_table \<Rightarrow> real option \<Rightarrow> real \<Rightarrow>
   py_error + (real list \<times> real list \<times> real list \<times> real list \<times> real list)" where
  "read_starcat pxl_scl cat maxrad fscalemin =
     bind_exc (case maxrad of
                 None \<Rightarrow> Inr (table_len cat)
               | Some m \<Rightarrow> bind_exc (column cat ''distance'') (\<lambda>d. Inr (searchsorted d m))) (\<lambda>N.
     bind_exc (if ''MAG_CHEOPS'' \<in> set (column_names cat) then mag_fscale cat ''MAG_CHEOPS'' N
               else if ''MAG_GAIA'' \<in> set (column_names cat) then mag_fscale cat ''MAG_GAIA'' N
               else Inl (Exception ''[read_starcat] Error: magnitude column not defined'')) (\<lambda>fscale.
     bind_exc (column cat ''RA'') (\<lambda>ra.
     bind_exc (nth_exc ra 0) (\<lambda>ra0.
     bind_exc (column cat ''DEC'') (\<lambda>dec.
     bind_exc (nth_exc dec 0) (\<lambda>dec0.
       let dx = map (\<lambda>v. (ra0 - v) * cos (deg2rad dec0) * 3600 / pxl_scl) (take N ra);
           dy = map (\<lambda>v. (v - dec0) * 3600 / pxl_scl) (take N dec)
       in
     bind_exc (column cat ''T_EFF'') (\<lambda>teff_col.
     bind_exc (column cat ''ID'') (\<lambda>id_col.
       let Teff = take N teff_col;
           gaiaID = take N id_col;
           sel = map (\<lambda>f. f > fscalemin) fscale
       in
     bind_exc (np_select sel dx) (\<lambda>dx_sel.
     bind_exc (np_select sel dy) (\<lambda>dy_sel.
     bind_exc (np_select sel fscale) (\<lambda>fscale_sel.
     bind_exc (np_select sel Teff) (\<lambda>Teff_sel.
     bind_exc (np_select sel gaiaID) (\<lambda>gaiaID_sel.
       Inr (dx_sel, dy_sel, fscale_sel, Teff_sel, gaiaID_sel))))))))))))))"

text \<open>The third component of the result, the flux scales.\<close>

definition starcat_fscale :: "real list \<times> real list \<times> real list \<times> real list \<times> real list \<Rightarrow> real list" where
  "starcat_fscale r = (case r of (dx, dy, fscale, Teff, gaiaID) \<Rightarrow> fscale)"

text \<open>The number \<open>N\<close> of rows read: all of them, or those before \<open>maxrad\<close>.\<close>

definition catalog_N :: "fits_table \<Rightarrow> real option \<Rightarrow> py_error + nat" where
  "catalog_N cat maxrad =
     (case maxrad of
        None \<Rightarrow> Inr (table_len cat)
      | Some m \<Rightarrow> bind_exc (column cat ''distance'') (\<lambda>d. Inr (searchsorted d m)))"

subsection \<open>Arrays, PSF models and catalogues\<close>

text \<open>
  A two-dimensional NumPy array: its shape and its entries by row and column. An array
  that NumPy would hold as one-dimensional with \<open>n\<close> entries is the \<open>1 \<times> n\<close> array.
\<close>

record 'a array2 =
  nrows :: nat
  ncols :: nat
  cell :: "nat \<Rightarrow> nat \<Rightarrow> 'a"

text \<open>
  A PSF model of \<^verbatim>\<open>pipe/psf_model.py\<close> is used through its call
  \<^verbatim>\<open>psf_mod(x, y, grid=..., circular=...)\<close> and its attribute \<^verbatim>\<open>norm\<close> only, and
  is a parameter here: any function from two coordinate arrays and the two optional
  keywords (\<open>None\<close> when the keyword is not passed) to an array.
\<close>

record psf_model =
  pm_call :: "real list \<Rightarrow> real list \<Rightarrow> bool option \<Rightarrow> bool option \<Rightarrow> real array2"
  pm_norm :: real

text \<open>The fields of \<^verbatim>\<open>star_bg\<close> that the methods below read.\<close>

record star_bg =
  sb_xpos :: "real list"
  sb_ypos :: "real list"
  sb_fscale :: "real list"
  sb_catsize :: nat
  sb_psf_ids :: "nat list"
  sb_psfs :: "psf_model list"

text \<open>
  \<^verbatim>\<open>WorkCat\<close>; \<open>wc_coeff\<close> holds \<open>None\<close> for a star without fitted
  coefficients.
\<close>

record WorkCat =
  wc_catsize :: nat
  wc_x :: "real list"
  wc_y :: "real list"
  wc_fscale :: "real list"
  wc_dxs :: "real list list"
  wc_dys :: "real list list"
  wc_coeff :: "real list option list"

definition WorkCat_init ::
  "real list \<Rightarrow> real list \<Rightarrow> real list \<Rightarrow> real list list \<Rightarrow> real list list \<Rightarrow> WorkCat" where
  "WorkCat_init x y fscale dxs dys =
     \<lparr>wc_catsize = length x, wc_x = x, wc_y = y, wc_fscale = fscale,
      wc_dxs = dxs, wc_dys = dys, wc_coeff = replicate (length x) None\<rparr>"

subsection \<open>Working catalogue\<close>

definition rotate_cat :: "star_bg \<Rightarrow> real \<Rightarrow> real option \<Rightarrow> py_error + (real list \<times> real list)" where
  "rotate_cat self rolldeg maxrad =
     (case maxrad of
        Some m \<Rightarrow>
          bind_exc (np_binop (+) (map (\<lambda>v. v\<^sup>2) (sb_xpos self)) (map (\<lambda>v. v\<^sup>2) (sb_ypos self))) (\<lambda>r2.
            let Nmax = searchsorted r2 (m\<^sup>2)
            in rotate_position_arr (take Nmax (sb_xpos self)) (take Nmax (sb_ypos self)) rolldeg)
      | None \<Rightarrow> rotate_position_arr (sb_xpos self) (sb_ypos self) rolldeg)"

text \<open>
  The sample count \<^verbatim>\<open>N = 2*int(num_res[n])+1\<close> of a star at distance \<open>r\<close>, with
  \<^verbatim>\<open>num_res = 0.5*np.deg2rad(blurdeg)*r/resolution\<close>. With \<open>resolution = 0\<close> NumPy
  divides to an infinity or a NaN, and \<^verbatim>\<open>int\<close> raises \<^verbatim>\<open>OverflowError\<close> or
  \<^verbatim>\<open>ValueError\<close>.
\<close>

definition blur_samples :: "real \<Rightarrow> real \<Rightarrow> real \<Rightarrow> py_error + int" where
  "blur_samples blurdeg resolution r =
     (let numer = 0.5 * deg2rad blurdeg * r
      in if resolution = 0 then (if numer = 0 then Inl ValueError else Inl OverflowError)
         else Inr (2 * py_int (numer / resolution) + 1))"

text \<open>The body of the loop of \<^verbatim>\<open>image_cat\<close> for a star at rotated position \<open>(xn, yn)\<close>.\<close>

definition image_cat_offsets :: "real \<Rightarrow> real \<Rightarrow> real \<Rightarrow> real \<Rightarrow> py_error + (real list \<times> real list)" where
  "image_cat_offsets blurdeg resolution xn yn =
     bind_exc (blur_samples blurdeg resolution (sqrt (xn\<^sup>2 + yn\<^sup>2))) (\<lambda>N.
       if N > 2 then
         bind_exc (linspace (- 1) 1 N) (\<lambda>ls.
           let angles_deg = map (\<lambda>v. 0.5 * blurdeg * v) ls;
               (rx, ry) = rotate_position_angles xn yn angles_deg
           in Inr (map (\<lambda>v. v - xn) rx, map (\<lambda>v. v - yn) ry))
       else Inr ([0], [0]))"

text \<open>
  The loop over the stars, collecting \<^verbatim>\<open>dxs\<close> and \<^verbatim>\<open>dys\<close> in catalogue order.
  The rotated coordinate arrays have one length, so the loop runs over their pairs.
\<close>

fun image_cat_loop :: "real \<Rightarrow> real \<Rightarrow> (real \<times> real) list \<Rightarrow> py_error + (real list list \<times> real list list)" where
  "image_cat_loop blurdeg resolution [] = Inr ([], [])"
| "image_cat_loop blurdeg resolution ((xn, yn) # rest) =
     bind_exc (image_cat_offsets blurdeg resolution xn yn) (\<lambda>(dx, dy).
     bind_exc (image_cat_loop blurdeg resolution rest) (\<lambda>(dxs, dys).
       Inr (dx # dxs, dy # dys)))"

definition image_cat ::
  "star_bg \<Rightarrow> real \<Rightarrow> real \<Rightarrow> real \<Rightarrow> real \<Rightarrow> real option \<Rightarrow> real \<Rightarrow> py_error + WorkCat" where
  "image_cat self x0 y0 rolldeg blurdeg maxrad resolution =
     bind_exc (rotate_cat self rolldeg maxrad) (\<lambda>(x, y).
       let Nstars = length x;
           fscale = take Nstars (sb_fscale self)
       in bind_exc (image_cat_loop blurdeg resolution (zip x y)) (\<lambda>(dxs, dys).
            Inr (WorkCat_init (map (\<lambda>v. v + x0) x) (map (\<lambda>v. v + y0) y) fscale dxs dys)))"

text \<open>
  The specification's sub-angles: \<open>N\<close> evenly spaced angles from \<open>-blurdeg/2\<close> to
  \<open>+blurdeg/2\<close>.
\<close>

definition blur_angles :: "real \<Rightarrow> int \<Rightarrow> real list" where
  "blur_angles blurdeg N =
     map (\<lambda>k. (blurdeg / 2) * (- 1 + real k * (2 / real_of_int (N - 1)))) [0..<nat N]"

subsection \<open>Array arithmetic\<close>

definition shape2 :: "'a array2 \<Rightarrow> nat \<times> nat" where
  "shape2 a = (nrows a, ncols a)"

definition zeros :: "nat \<times> nat \<Rightarrow> real array2" where
  "zeros shape = \<lparr>nrows = fst shape, ncols = snd shape, cell = \<lambda>j i. 0\<rparr>"

text \<open>
  NumPy broadcasting of an operand onto a target shape: each dimension of the operand is
  the target's or is 1, and a dimension of 1 is read at index 0. An in-place operation
  \<^verbatim>\<open>a += b\<close> broadcasts \<open>b\<close> onto \<open>a\<close> and raises \<^verbatim>\<open>ValueError\<close> when it cannot.
\<close>

definition bidx :: "nat \<Rightarrow> nat \<Rightarrow> nat" where
  "bidx d k = (if d = 1 then 0 else k)"

definition broadcastable :: "nat \<times> nat \<Rightarrow> nat \<times> nat \<Rightarrow> bool" where
  "broadcastable src dst \<longleftrightarrow>
     (fst src = fst dst \<or> fst src = 1) \<and> (snd src = snd dst \<or> snd src = 1)"

definition iop :: "(real \<Rightarrow> real \<Rightarrow> real) \<Rightarrow> real array2 \<Rightarrow> real array2 \<Rightarrow> py_error + real array2" where
  "iop f a b =
     (if broadcastable (shape2 b) (shape2 a)
      then Inr (a\<lparr>cell := \<lambda>j i. f (cell a j i) (cell b (bidx (nrows b) j) (bidx (ncols b) i))\<rparr>)
      else Inl ValueError)"

definition iadd :: "real array2 \<Rightarrow> real array2 \<Rightarrow> py_error + real array2" where
  "iadd a b = iop (+) a b"

definition isub :: "real array2 \<Rightarrow> real array2 \<Rightarrow> py_error + real array2" where
  "isub a b = iop (-) a b"

text \<open>\<^verbatim>\<open>c * a\<close> and \<^verbatim>\<open>a / c\<close> for a scalar \<open>c\<close>.\<close>

definition scale :: "real \<Rightarrow> real array2 \<Rightarrow> real array2" where
  "scale c a = a\<lparr>cell := \<lambda>j i. c * cell a j i\<rparr>"

definition divide_by :: "real array2 \<Rightarrow> real \<Rightarrow> real array2" where
  "divide_by a c = a\<lparr>cell := \<lambda>j i. cell a j i / c\<rparr>"

subsection \<open>MultiPSF\<close>

record MultiPSF =
  mp_psf_mod :: psf_model
  mp_dxs :: "real list"
  mp_dys :: "real list"
  mp_norm :: real

definition MultiPSF_init :: "psf_model \<Rightarrow> real list \<Rightarrow> real list \<Rightarrow> MultiPSF" where
  "MultiPSF_init psf_mod dxs dys =
     \<lparr>mp_psf_mod = psf_mod, mp_dxs = dxs, mp_dys = dys, mp_norm = pm_norm psf_mod\<rparr>"

text \<open>
  \<^verbatim>\<open>MultiPSF.__call__\<close>: the first evaluation, the loop over \<^verbatim>\<open>range(1, N)\<close> adding
  the others in place, and the division by \<open>N\<close>.
\<close>

fun MultiPSF_loop ::
  "MultiPSF \<Rightarrow> real list \<Rightarrow> real list \<Rightarrow> bool \<Rightarrow> bool \<Rightarrow> real array2 \<Rightarrow> nat list \<Rightarrow> py_error + real array2" where
  "MultiPSF_loop self x y grid circular ret [] = Inr ret"
| "MultiPSF_loop self x y grid circular ret (n # ns) =
     bind_exc (nth_exc (mp_dxs self) n) (\<lambda>dx.
     bind_exc (nth_exc (mp_dys self) n) (\<lambda>dy.
     bind_exc (iadd ret (pm_call (mp_psf_mod self) (map (\<lambda>v. v - dx) x) (map (\<lambda>v. v - dy) y)
                           (Some grid) (Some circular))) (\<lambda>ret'.
       MultiPSF_loop self x y grid circular ret' ns)))"

definition MultiPSF_call ::
  "MultiPSF \<Rightarrow> real list \<Rightarrow> real list \<Rightarrow> bool \<Rightarrow> bool \<Rightarrow> py_error + real array2" where
  "MultiPSF_call self x y grid circular =
     bind_exc (nth_exc (mp_dxs self) 0) (\<lambda>dx0.
     bind_exc (nth_exc (mp_dys self) 0) (\<lambda>dy0.
       let ret = pm_call (mp_psf_mod self) (map (\<lambda>v. v - dx0) x) (map (\<lambda>v. v - dy0) y)
                   (Some grid) (Some circular);
           N = length (mp_dxs self)
       in bind_exc (MultiPSF_loop self x y grid circular ret [1..<N]) (\<lambda>ret.
            Inr (divide_by ret (real N)))))"

text \<open>The evaluation of the PSF model at the \<open>n\<close>-th offset, \<open>psf_model(x - dx\<^sub>n, y - dy\<^sub>n)\<close>.\<close>

definition psf_sample :: "psf_model \<Rightarrow> real list \<Rightarrow> real list \<Rightarrow> real list \<Rightarrow> real list \<Rightarrow> bool \<Rightarrow> bool \<Rightarrow> nat \<Rightarrow> real array2" where
  "psf_sample psf_mod dxs dys x y grid circular n =
     pm_call psf_mod (map (\<lambda>v. v - dxs ! n) x) (map (\<lambda>v. v - dys ! n) y) (Some grid) (Some circular)"

subsection \<open>Loops, slices and reductions\<close>

text \<open>A \<^verbatim>\<open>for\<close> loop whose body can raise: the first exception ends the loop.\<close>

fun fold_exc :: "('s \<Rightarrow> 'a \<Rightarrow> py_error + 's) \<Rightarrow> 's \<Rightarrow> 'a list \<Rightarrow> py_error + 's" where
  "fold_exc f s [] = Inr s"
| "fold_exc f s (x # xs) = bind_exc (f s x) (\<lambda>s'. fold_exc f s' xs)"

text \<open>
  Python's slice \<^verbatim>\<open>a[lo:hi]\<close> on an axis of length \<open>n\<close>: a negative bound counts
  from the end, both are clipped to \<open>[0, n]\<close>, and the slice is empty when the stop is
  not after the start. \<open>slice2\<close> is \<^verbatim>\<open>a[r0:r1, c0:c1]\<close> and \<open>slice_iadd\<close> is
  \<^verbatim>\<open>a[r0:r1, c0:c1] += b\<close>, which broadcasts \<open>b\<close> onto the sliced region.
\<close>

definition slice_bounds :: "nat \<Rightarrow> int \<Rightarrow> int \<Rightarrow> nat \<times> nat" where
  "slice_bounds n lo hi =
     (let norm = (\<lambda>k. if k < 0 then max 0 (k + int n) else min k (int n));
          s = nat (norm lo);
          e = nat (norm hi)
      in (s, max s e))"

definition py_slice :: "'a list \<Rightarrow> int \<Rightarrow> int \<Rightarrow> 'a list" where
  "py_slice xs lo hi = (let (s, e) = slice_bounds (length xs) lo hi in take (e - s) (drop s xs))"

definition slice2 :: "'a array2 \<Rightarrow> int \<times> int \<Rightarrow> int \<times> int \<Rightarrow> 'a array2" where
  "slice2 a rows cols =
     (let (r0, r1) = slice_bounds (nrows a) (fst rows) (snd rows);
          (c0, c1) = slice_bounds (ncols a) (fst cols) (snd cols)
      in \<lparr>nrows = r1 - r0, ncols = c1 - c0, cell = \<lambda>j i. cell a (r0 + j) (c0 + i)\<rparr>)"

definition slice_iadd ::
  "real array2 \<Rightarrow> int \<times> int \<Rightarrow> int \<times> int \<Rightarrow> real array2 \<Rightarrow> py_error + real array2" where
  "slice_iadd a rows cols b =
     (let (r0, r1) = slice_bounds (nrows a) (fst rows) (snd rows);
          (c0, c1) = slice_bounds (ncols a) (fst cols) (snd cols)
      in if broadcastable (shape2 b) (r1 - r0, c1 - c0)
         then Inr (a\<lparr>cell := \<lambda>j i.
                if r0 \<le> j \<and> j < r1 \<and> c0 \<le> i \<and> i < c1
                then cell a j i + cell b (bidx (nrows b) (j - r0)) (bidx (ncols b) (i - c0))
                else cell a j i\<rparr>)
         else Inl ValueError)"

text \<open>A binary operation on two arrays, broadcasting either onto the other.\<close>

definition bdim :: "nat \<Rightarrow> nat \<Rightarrow> nat option" where
  "bdim m n = (if m = n then Some m else if m = 1 then Some n else if n = 1 then Some m else None)"

definition binop2 ::
  "(real \<Rightarrow> real \<Rightarrow> real) \<Rightarrow> real array2 \<Rightarrow> real array2 \<Rightarrow> py_error + real array2" where
  "binop2 f a b =
     (case (bdim (nrows a) (nrows b), bdim (ncols a) (ncols b)) of
        (Some r, Some c) \<Rightarrow>
          Inr \<lparr>nrows = r, ncols = c,
               cell = \<lambda>j i. f (cell a (bidx (nrows a) j) (bidx (ncols a) i))
                              (cell b (bidx (nrows b) j) (bidx (ncols b) i))\<rparr>
      | _ \<Rightarrow> Inl ValueError)"

text \<open>
  A boolean array added to a float array counts \<^verbatim>\<open>True\<close> as 1; \<open>gt_scalar\<close> is
  \<^verbatim>\<open>a > c\<close> and \<open>eq_zero\<close> is \<^verbatim>\<open>a == 0\<close>.
\<close>

definition as_real :: "bool array2 \<Rightarrow> real array2" where
  "as_real m = \<lparr>nrows = nrows m, ncols = ncols m, cell = \<lambda>j i. of_bool (cell m j i)\<rparr>"

definition gt_scalar :: "real array2 \<Rightarrow> real \<Rightarrow> bool array2" where
  "gt_scalar a c = \<lparr>nrows = nrows a, ncols = ncols a, cell = \<lambda>j i. cell a j i > c\<rparr>"

definition eq_zero :: "real array2 \<Rightarrow> bool array2" where
  "eq_zero a = \<lparr>nrows = nrows a, ncols = ncols a, cell = \<lambda>j i. cell a j i = 0\<rparr>"

text \<open>
  The entries in row-major order; \<^verbatim>\<open>np.max\<close> raises on an empty array;
  \<open>mask_select\<close> is \<^verbatim>\<open>a[m]\<close> for a boolean array \<open>m\<close> of the shape of \<open>a\<close>.
\<close>

definition flatten :: "'a array2 \<Rightarrow> 'a list" where
  "flatten a = concat (map (\<lambda>j. map (\<lambda>i. cell a j i) [0..<ncols a]) [0..<nrows a])"

definition np_max :: "real array2 \<Rightarrow> py_error + real" where
  "np_max a = (case flatten a of [] \<Rightarrow> Inl ValueError | v # vs \<Rightarrow> Inr (fold max vs v))"

definition np_sum :: "real array2 \<Rightarrow> real" where
  "np_sum a = sum_list (flatten a)"

definition mask_select :: "'a array2 \<Rightarrow> bool array2 \<Rightarrow> py_error + 'a list" where
  "mask_select a m =
     (if shape2 m = shape2 a
      then Inr (concat (map (\<lambda>j. map (\<lambda>i. cell a j i) (filter (\<lambda>i. cell m j i) [0..<ncols a]))
                         [0..<nrows a]))
      else Inl IndexError)"

subsection \<open>Footprints\<close>

text \<open>
  The radius of a footprint is an integer here, as every caller in the module passes one
  (an adaptive radius or an integer default).
\<close>

definition psf_image ::
  "real \<Rightarrow> real \<Rightarrow> real list \<Rightarrow> real list \<Rightarrow> psf_model \<Rightarrow> int \<Rightarrow> py_error + real array2" where
  "psf_image x0f y0f dxs dys psf_mod radius =
     bind_exc (linspace (real_of_int (- radius)) (real_of_int radius) (2 * radius + 1)) (\<lambda>v.
       let psf = MultiPSF_init psf_mod dxs dys
       in MultiPSF_call psf (map (\<lambda>t. t - x0f) v) (map (\<lambda>t. t - y0f) v) True True)"

fun psf_fit_loop ::
  "MultiPSF \<Rightarrow> real list \<Rightarrow> real list \<Rightarrow> real list \<Rightarrow> real list \<Rightarrow> real array2 \<Rightarrow> nat list \<Rightarrow>
   py_error + real array2" where
  "psf_fit_loop psf_smear v kf kx ky ret [] = Inr ret"
| "psf_fit_loop psf_smear v kf kx ky ret (n # ns) =
     bind_exc (nth_exc kf n) (\<lambda>kfn.
     bind_exc (nth_exc kx n) (\<lambda>kxn.
     bind_exc (nth_exc ky n) (\<lambda>kyn.
     bind_exc (MultiPSF_call psf_smear (map (\<lambda>t. t - kxn) v) (map (\<lambda>t. t - kyn) v) True False) (\<lambda>term.
     bind_exc (iadd ret (scale kfn term)) (\<lambda>ret'.
       psf_fit_loop psf_smear v kf kx ky ret' ns)))))"

definition psf_fit_image ::
  "real list \<Rightarrow> real list \<Rightarrow> real list \<Rightarrow> real list \<Rightarrow> real list \<Rightarrow> psf_model \<Rightarrow> int \<Rightarrow>
   py_error + real array2" where
  "psf_fit_image kf kx ky dxs dys psf_mod radius =
     bind_exc (linspace (real_of_int (- radius)) (real_of_int radius) (2 * radius + 1)) (\<lambda>v.
       let psf_smear = MultiPSF_init psf_mod dxs dys
       in
     bind_exc (nth_exc kf 0) (\<lambda>kf0.
     bind_exc (nth_exc kx 0) (\<lambda>kx0.
     bind_exc (nth_exc ky 0) (\<lambda>ky0.
     bind_exc (MultiPSF_call psf_smear (map (\<lambda>t. t - kx0) v) (map (\<lambda>t. t - ky0) v) True False) (\<lambda>first.
     bind_exc (psf_fit_loop psf_smear v kf kx ky (scale kf0 first) [1..<length kf]) (\<lambda>ret.
       let disc = \<lparr>nrows = nat (2 * radius + 1), ncols = nat (2 * radius + 1),
                   cell = \<lambda>a b. (int a - radius)\<^sup>2 + (int b - radius)\<^sup>2 \<le> radius\<^sup>2\<rparr>
       in binop2 (*) (as_real disc) ret))))))"

text \<open>
  The footprint of \<^verbatim>\<open>add_star\<close> and \<^verbatim>\<open>add_psf_mask\<close>, which choose between
  \<^verbatim>\<open>psf_image\<close> and \<^verbatim>\<open>psf_fit_image\<close> by the same test on \<^verbatim>\<open>kmat\<close>.
\<close>

definition star_frame_of ::
  "real \<Rightarrow> real \<Rightarrow> real list \<Rightarrow> real list \<Rightarrow> psf_model \<Rightarrow>
   (real list \<times> real list \<times> real list) option \<Rightarrow> int \<Rightarrow> py_error + real array2" where
  "star_frame_of x0f y0f dxs dys psf_mod kmat radius =
     (case kmat of
        None \<Rightarrow> psf_image x0f y0f dxs dys psf_mod radius
      | Some (kf, kx, ky) \<Rightarrow>
          psf_fit_image kf (map (\<lambda>k. x0f + k) kx) (map (\<lambda>k. y0f + k) ky) dxs dys psf_mod radius)"

definition add_star ::
  "real array2 \<Rightarrow> real \<Rightarrow> real \<Rightarrow> real \<Rightarrow> real list \<Rightarrow> real list \<Rightarrow> psf_model \<Rightarrow>
   (real list \<times> real list \<times> real list) option \<Rightarrow> int \<Rightarrow> py_error + real array2" where
  "add_star frame flux x0 y0 dxs dys psf_mod kmat radius =
     (let x0i = py_int x0; y0i = py_int y0;
          x0f = x0 - real_of_int x0i; y0f = y0 - real_of_int y0i;
          (xi0, xi1, xj0, xj1) = find_inds (int (ncols frame)) x0i radius;
          (yi0, yi1, yj0, yj1) = find_inds (int (nrows frame)) y0i radius
      in bind_exc (star_frame_of x0f y0f dxs dys psf_mod kmat radius) (\<lambda>star_frame.
           slice_iadd frame (yi0, yi1) (xi0, xi1)
             (scale flux (slice2 star_frame (yj0, yj1) (xj0, xj1)))))"

definition add_psf_mask ::
  "real array2 \<Rightarrow> real \<Rightarrow> real \<Rightarrow> real list \<Rightarrow> real list \<Rightarrow> psf_model \<Rightarrow>
   (real list \<times> real list \<times> real list) option \<Rightarrow> int \<Rightarrow> real \<Rightarrow> py_error + real array2" where
  "add_psf_mask frame x0 y0 dxs dys psf_mod kmat radius level =
     (let x0i = py_int x0; y0i = py_int y0;
          x0f = x0 - real_of_int x0i; y0f = y0 - real_of_int y0i;
          (xi0, xi1, xj0, xj1) = find_inds (int (ncols frame)) x0i radius;
          (yi0, yi1, yj0, yj1) = find_inds (int (nrows frame)) y0i radius
      in bind_exc (star_frame_of x0f y0f dxs dys psf_mod kmat radius) (\<lambda>star_frame.
         bind_exc (np_max star_frame) (\<lambda>peak.
           slice_iadd frame (yi0, yi1) (xi0, xi1)
             (as_real (gt_scalar (slice2 star_frame (yj0, yj1) (xj0, xj1)) (level * peak))))))"

definition add_circle :: "real array2 \<Rightarrow> real \<Rightarrow> real \<Rightarrow> real \<Rightarrow> py_error + real array2" where
  "add_circle frame x0 y0 radius =
     (let im_rad = py_int (radius + 1);
          x0i = py_int x0; y0i = py_int y0;
          x0f = x0 - real_of_int x0i; y0f = y0 - real_of_int y0i;
          (xi0, xi1, xj0, xj1) = find_inds (int (ncols frame)) x0i im_rad;
          (yi0, yi1, yj0, yj1) = find_inds (int (nrows frame)) y0i im_rad
      in bind_exc (linspace (real_of_int (- im_rad)) (real_of_int im_rad) (2 * im_rad + 1)) (\<lambda>v.
           let circ_frame = \<lparr>nrows = length v, ncols = length v,
                             cell = \<lambda>j i. (v ! i - x0f)\<^sup>2 + (v ! j - y0f)\<^sup>2 \<le> radius\<^sup>2\<rparr>
           in slice_iadd frame (yi0, yi1) (xi0, xi1)
                (as_real (slice2 circ_frame (yj0, yj1) (xj0, xj1)))))"

subsection \<open>Frames and masks\<close>

text \<open>
  The choice of \<^verbatim>\<open>kmat\<close> for star \<open>n\<close>: the fitted coefficients with the kernel
  offsets when both are there. The offsets \<^verbatim>\<open>kx\<close> and \<^verbatim>\<open>ky\<close> are passed together
  or not at all.
\<close>

definition star_kmat ::
  "WorkCat \<Rightarrow> nat \<Rightarrow> (real list \<times> real list) option \<Rightarrow>
   py_error + (real list \<times> real list \<times> real list) option" where
  "star_kmat work_cat n kxy =
     (case kxy of
        None \<Rightarrow> Inr None
      | Some (kx, ky) \<Rightarrow>
          bind_exc (nth_exc (wc_coeff work_cat) n) (\<lambda>co.
            case co of None \<Rightarrow> Inr None | Some cf \<Rightarrow> Inr (Some (cf, kx, ky))))"

definition make_bg_circ_mask ::
  "nat \<times> nat \<Rightarrow> WorkCat \<Rightarrow> nat list \<Rightarrow> real \<Rightarrow> py_error + bool array2" where
  "make_bg_circ_mask shape work_cat skip radius =
     bind_exc (fold_exc (\<lambda>frame n.
                  if n \<in> set skip then Inr frame
                  else bind_exc (nth_exc (wc_x work_cat) n) (\<lambda>xn.
                       bind_exc (nth_exc (wc_y work_cat) n) (\<lambda>yn.
                         add_circle frame xn yn radius)))
                (zeros shape) [0..<wc_catsize work_cat]) (\<lambda>frame.
       Inr (eq_zero frame))"

definition psf_mask_step ::
  "WorkCat \<Rightarrow> nat list \<Rightarrow> psf_model list \<Rightarrow> nat list \<Rightarrow> (real list \<times> real list) option \<Rightarrow>
   int \<Rightarrow> real \<Rightarrow> real array2 \<Rightarrow> nat \<Rightarrow> py_error + real array2" where
  "psf_mask_step work_cat psf_ids psfs skip kxy radius level frame n =
     (if n \<in> set skip then Inr frame
      else bind_exc (star_kmat work_cat n kxy) (\<lambda>kmat.
           bind_exc (nth_exc (wc_x work_cat) n) (\<lambda>xn.
           bind_exc (nth_exc (wc_y work_cat) n) (\<lambda>yn.
           bind_exc (nth_exc (wc_dxs work_cat) n) (\<lambda>dxs.
           bind_exc (nth_exc (wc_dys work_cat) n) (\<lambda>dys.
           bind_exc (nth_exc psf_ids n) (\<lambda>pid.
           bind_exc (nth_exc psfs pid) (\<lambda>psf_mod.
             add_psf_mask frame xn yn dxs dys psf_mod kmat radius level))))))))"

definition make_bg_psf_mask ::
  "nat \<times> nat \<Rightarrow> WorkCat \<Rightarrow> nat list \<Rightarrow> psf_model list \<Rightarrow> nat list \<Rightarrow>
   (real list \<times> real list) option \<Rightarrow> int \<Rightarrow> real \<Rightarrow> py_error + bool array2" where
  "make_bg_psf_mask shape work_cat psf_ids psfs skip kxy radius level =
     bind_exc (fold_exc (psf_mask_step work_cat psf_ids psfs skip kxy radius level)
                (zeros shape) [0..<wc_catsize work_cat]) (\<lambda>frame.
       Inr (eq_zero frame))"

definition make_single_star_frame ::
  "nat \<times> nat \<Rightarrow> WorkCat \<Rightarrow> psf_model \<Rightarrow> nat \<Rightarrow> (real list \<times> real list) option \<Rightarrow>
   py_error + real array2" where
  "make_single_star_frame shape work_cat psf_mod star_id kxy =
     bind_exc (nth_exc (wc_fscale work_cat) star_id) (\<lambda>fs.
       let radius = psf_radii fs;
           frame = zeros shape
       in
     bind_exc (star_kmat work_cat star_id kxy) (\<lambda>kmat.
     bind_exc (nth_exc (wc_x work_cat) star_id) (\<lambda>xn.
     bind_exc (nth_exc (wc_y work_cat) star_id) (\<lambda>yn.
     bind_exc (nth_exc (wc_dxs work_cat) star_id) (\<lambda>dxs.
     bind_exc (nth_exc (wc_dys work_cat) star_id) (\<lambda>dys.
       add_star frame fs xn yn dxs dys psf_mod kmat radius))))))"

subsection \<open>Image of the background stars\<close>

text \<open>
  \<^verbatim>\<open>star_bg.image\<close>. \<open>image_step\<close> is the body of the loop over the stars: the two
  \<^verbatim>\<open>continue\<close> tests, then \<open>image_render\<close>, the rest of the body from the adaptive
  radius on. The PSF model is called without keywords. Its result is held as a
  two-dimensional array, so the reshaping of a one-dimensional result changes nothing
  here; the assignment through the boolean mask raises when the result has not the shape
  of the mesh of \<^verbatim>\<open>ddx\<close> and \<^verbatim>\<open>ddy\<close>.
\<close>

definition image_render ::
  "star_bg \<Rightarrow> real \<Rightarrow> real \<Rightarrow> real list \<Rightarrow> real list \<Rightarrow> nat \<times> nat \<Rightarrow> real array2 \<Rightarrow> nat \<Rightarrow>
   py_error + real array2" where
  "image_render self x0 y0 dx dy shape ret_img n =
     (let xcoo = map (\<lambda>k. real k - x0) [0..<snd shape];
          ycoo = map (\<lambda>k. real k - y0) [0..<fst shape];
          fs = sb_fscale self ! n;
          psf_rad = psf_radii fs
      in case find_area_inds (x0 + dx ! n) (y0 + dy ! n) shape psf_rad of
           None \<Rightarrow> Inr ret_img
         | Some (i0, i1, j0, j1) \<Rightarrow>
             let ddx = map (\<lambda>v. v - dx ! n) (py_slice xcoo i0 i1);
                 ddy = map (\<lambda>v. v - dy ! n) (py_slice ycoo j0 j1)
             in
             bind_exc (nth_exc (sb_psf_ids self) n) (\<lambda>pid.
             bind_exc (nth_exc (sb_psfs self) pid) (\<lambda>psf_fun.
               let psf_mat = pm_call psf_fun ddx ddy None None
               in if shape2 psf_mat \<noteq> (length ddy, length ddx) then Inl IndexError
                  else
                    let psf_mat' = psf_mat\<lparr>cell := \<lambda>j i.
                          if (ddx ! i)\<^sup>2 + (ddy ! j)\<^sup>2 > (real_of_int psf_rad)\<^sup>2 then 0
                          else cell psf_mat j i\<rparr>
                    in slice_iadd ret_img (j0, j1) (i0, i1) (scale fs psf_mat'))))"

definition image_step ::
  "star_bg \<Rightarrow> real \<Rightarrow> real \<Rightarrow> real list \<Rightarrow> real list \<Rightarrow> nat \<times> nat \<Rightarrow> nat list \<Rightarrow> real \<Rightarrow>
   real array2 \<Rightarrow> nat \<Rightarrow> py_error + real array2" where
  "image_step self x0 y0 dx dy shape skip limflux ret_img n =
     (if n \<in> set skip then Inr ret_img
      else bind_exc (nth_exc (sb_fscale self) n) (\<lambda>fs.
             if fs < limflux then Inr ret_img
             else bind_exc (nth_exc dx n) (\<lambda>dxn.
                  bind_exc (nth_exc dy n) (\<lambda>dyn.
                    image_render self x0 y0 dx dy shape ret_img n))))"

definition image ::
  "star_bg \<Rightarrow> real \<Rightarrow> real \<Rightarrow> real \<Rightarrow> nat \<times> nat \<Rightarrow> nat list \<Rightarrow> real \<Rightarrow> nat option \<Rightarrow>
   py_error + real array2" where
  "image self x0 y0 rolldeg shape skip limflux single_id =
     bind_exc (rotate_cat self rolldeg None) (\<lambda>(dx, dy).
       let ret_img = zeros shape;
           id_range = (case single_id of None \<Rightarrow> [0..<sb_catsize self] | Some k \<Rightarrow> [k])
       in fold_exc (image_step self x0 y0 dx dy shape skip limflux) ret_img id_range)"

text \<open>
  The specification's stars that contribute: not skipped, not below the flux floor, and
  with a footprint that overlaps the frame.
\<close>

definition image_contributes ::
  "star_bg \<Rightarrow> real \<Rightarrow> real \<Rightarrow> real list \<Rightarrow> real list \<Rightarrow> nat \<times> nat \<Rightarrow> nat list \<Rightarrow> real \<Rightarrow> nat \<Rightarrow> bool" where
  "image_contributes self x0 y0 dx dy shape skip limflux n \<longleftrightarrow>
     n \<notin> set skip \<and> \<not> sb_fscale self ! n < limflux \<and>
     find_area_inds (x0 + dx ! n) (y0 + dy ! n) shape (psf_radii (sb_fscale self ! n)) \<noteq> None"

text \<open>The arrays of a catalogue have one entry per star, as \<^verbatim>\<open>__init__\<close> builds them.\<close>

definition star_bg_ok :: "star_bg \<Rightarrow> bool" where
  "star_bg_ok self \<longleftrightarrow>
     length (sb_xpos self) = sb_catsize self \<and> length (sb_ypos self) = sb_catsize self \<and>
     length (sb_fscale self) = sb_catsize self"

text \<open>
  The scaled footprint of star \<open>n\<close> at the pixel of row \<open>j\<close> and column \<open>i\<close>, in the
  words of the specification. The window of the star is the square of half-side
  \<^verbatim>\<open>psf_rad\<close> around the truncated position of the star, clipped to the frame; \<open>x\<close>
  and \<open>y\<close> are the offsets of the pixels of the window from the star. Inside the window
  and within \<^verbatim>\<open>psf_rad\<close> of the star the footprint is the flux scale times the PSF
  model sampled at the offsets; elsewhere it is zero.
\<close>

definition image_footprint ::
  "star_bg \<Rightarrow> real \<Rightarrow> real \<Rightarrow> real list \<Rightarrow> real list \<Rightarrow> nat \<times> nat \<Rightarrow> nat \<Rightarrow> nat \<Rightarrow> nat \<Rightarrow> real" where
  "image_footprint self x0 y0 dx dy shape n j i =
     (let fs = sb_fscale self ! n;
          r = psf_radii fs;
          i0 = max (py_int (x0 + dx ! n) - r) 0;
          i1 = min (py_int (x0 + dx ! n) + r) (int (snd shape));
          j0 = max (py_int (y0 + dy ! n) - r) 0;
          j1 = min (py_int (y0 + dy ! n) + r) (int (fst shape))
      in if i0 \<le> int i \<and> int i < i1 \<and> j0 \<le> int j \<and> int j < j1 \<and>
            (real i - x0 - dx ! n)\<^sup>2 + (real j - y0 - dy ! n)\<^sup>2 \<le> (real_of_int r)\<^sup>2
         then fs * cell (pm_call (sb_psfs self ! (sb_psf_ids self ! n))
                           (map (\<lambda>k. real k - x0 - dx ! n) [nat i0..<nat i1])
                           (map (\<lambda>k. real k - y0 - dy ! n) [nat j0..<nat j1]) None None)
                        (j - nat j0) (i - nat i0)
         else 0)"

subsection \<open>Refinement of the background model\<close>

text \<open>
  The fitting routine \<^verbatim>\<open>psf.fit\<close> is a parameter: a function from the arguments of
  its call to an exception or to the fitted image and the kernel matrix, the two results
  that \<^verbatim>\<open>refine_bg_model\<close> uses.
\<close>

record fit_args =
  fit_psfs :: "MultiPSF list"
  fit_frame :: "real array2"
  fit_noise :: "real array2"
  fit_mask :: "bool array2"
  fit_xc :: real
  fit_yc :: real
  fit_fitrad :: int
  fit_defrad :: int
  fit_krn_scl :: real
  fit_krn_rad :: int
  fit_bg_fit :: int

type_synonym psf_fit = "fit_args \<Rightarrow> py_error + (real array2 \<times> real array2)"

text \<open>
  \<^verbatim>\<open>refine_bg_model\<close> updates the model buffer and the working catalogue in place.
  The embedding passes both as a state and returns the state together with the exception
  that ended the call, if any: what the caller holds after the call or the exception.
\<close>

record refine_state =
  rs_model :: "real array2"
  rs_work_cat :: WorkCat


text \<open>
  The body of the loop in three parts: \<open>refine_render\<close> picks the PSF model and renders
  the star's current contribution; \<open>refine_fit_args\<close> evaluates the residual and the
  arguments of the fit; \<open>refine_star\<close> is the whole body. Where NumPy would divide by
  zero and go on with an infinity or a NaN, the real numbers of the embedding have no
  such value; statements about the quotients assume non-zero divisors.
\<close>

definition refine_render ::
  "psf_model list \<Rightarrow> nat list \<Rightarrow> nat \<times> nat \<Rightarrow> WorkCat \<Rightarrow> real list \<Rightarrow> real list \<Rightarrow> nat \<Rightarrow>
   py_error + (psf_model \<times> real array2)" where
  "refine_render psfs psf_ids shape work_cat kx ky star_id =
     bind_exc (nth_exc psf_ids star_id) (\<lambda>pid.
     bind_exc (nth_exc psfs pid) (\<lambda>psf_mod.
     bind_exc (make_single_star_frame shape work_cat psf_mod star_id (Some (kx, ky))) (\<lambda>star_img.
       Inr (psf_mod, star_img))))"

definition refine_fit_args ::
  "real array2 \<Rightarrow> real array2 \<Rightarrow> bool array2 \<Rightarrow> real \<Rightarrow> int \<Rightarrow> WorkCat \<Rightarrow> psf_model \<Rightarrow>
   real array2 \<Rightarrow> nat \<Rightarrow> py_error + fit_args" where
  "refine_fit_args data_frame noise valid_mask krn_scl krn_rad work_cat psf_mod model star_id =
     bind_exc (binop2 (-) data_frame model) (\<lambda>fit_fr.
     bind_exc (nth_exc (wc_dxs work_cat) star_id) (\<lambda>dxs.
     bind_exc (nth_exc (wc_dys work_cat) star_id) (\<lambda>dys.
       let psf_smear = MultiPSF_init psf_mod dxs dys
       in
     bind_exc (nth_exc (wc_fscale work_cat) star_id) (\<lambda>fs.
       let psf_rad = psf_radii fs
       in
     bind_exc (nth_exc (wc_x work_cat) star_id) (\<lambda>xs.
     bind_exc (nth_exc (wc_y work_cat) star_id) (\<lambda>ys.
       let dist = sqrt ((xs - 0.5 * real (ncols data_frame))\<^sup>2
                        + (ys - 0.5 * real (nrows data_frame))\<^sup>2);
           fitrad = (if dist > 0.5 * real (min (nrows data_frame) (ncols data_frame))
                     then psf_rad else 25)
       in Inr \<lparr>fit_psfs = [psf_smear], fit_frame = fit_fr, fit_noise = noise, fit_mask = valid_mask,
                fit_xc = xs, fit_yc = ys, fit_fitrad = fitrad, fit_defrad = psf_rad,
                fit_krn_scl = krn_scl, fit_krn_rad = krn_rad, fit_bg_fit = - 1\<rparr>))))))"

definition refine_star ::
  "psf_fit \<Rightarrow> real array2 \<Rightarrow> real array2 \<Rightarrow> bool array2 \<Rightarrow> real \<Rightarrow> nat list \<Rightarrow> psf_model list \<Rightarrow>
   real \<Rightarrow> int \<Rightarrow> bool array2 \<Rightarrow> real list \<Rightarrow> real list \<Rightarrow> refine_state \<Rightarrow> nat \<Rightarrow>
   refine_state \<times> py_error option" where
  "refine_star fit data_frame noise valid_mask psf_norm psf_ids psfs krn_scl krn_rad selk kx ky s star_id =
     (case refine_render psfs psf_ids (shape2 data_frame) (rs_work_cat s) kx ky star_id of
        Inl e \<Rightarrow> (s, Some e)
      | Inr (psf_mod, star_img) \<Rightarrow>
          (case isub (rs_model s) (scale psf_norm star_img) of
             Inl e \<Rightarrow> (s, Some e)
           | Inr model1 \<Rightarrow>
               let s1 = s\<lparr>rs_model := model1\<rparr>
               in (case bind_exc (refine_fit_args data_frame noise valid_mask krn_scl krn_rad
                                    (rs_work_cat s) psf_mod model1 star_id) fit of
                     Inl e \<Rightarrow> (s1, Some e)
                   | Inr (fitstar_img, kmat) \<Rightarrow>
                       (case iadd model1 fitstar_img of
                          Inl e \<Rightarrow> (s1, Some e)
                        | Inr model2 \<Rightarrow>
                            let wc = rs_work_cat s;
                                knorm = np_sum kmat;
                                fs = wc_fscale wc ! star_id;
                                wc1 = wc\<lparr>wc_fscale :=
                                        (wc_fscale wc)[star_id := fs * (knorm / (psf_norm * fs))]\<rparr>;
                                s2 = \<lparr>rs_model = model2, rs_work_cat = wc1\<rparr>
                            in (case mask_select kmat selk of
                                  Inl e \<Rightarrow> (s2, Some e)
                                | Inr kv \<Rightarrow>
                                    if star_id < length (wc_coeff wc1)
                                    then (s2\<lparr>rs_work_cat := wc1\<lparr>wc_coeff :=
                                              (wc_coeff wc1)[star_id := Some (map (\<lambda>v. v / knorm) kv)]\<rparr>\<rparr>,
                                          None)
                                    else (s2, Some IndexError))))))"



subsection \<open>Footprints of the masks\<close>

text \<open>
  What one star marks in a mask, in the words of the specification: the pixels that
  \<^verbatim>\<open>add_circle\<close> renders for it on an empty frame of the mask's shape, and the pixels
  where its rendered PSF footprint exceeds \<open>level\<close> times that footprint's peak, which is
  what one step of \<^verbatim>\<open>make_bg_psf_mask\<close> adds to an empty frame.
\<close>

definition circle_footprint :: "nat \<times> nat \<Rightarrow> real \<Rightarrow> real \<Rightarrow> real \<Rightarrow> nat \<Rightarrow> nat \<Rightarrow> bool" where
  "circle_footprint shape x0 y0 radius j i =
     (case add_circle (zeros shape) x0 y0 radius of
        Inr f \<Rightarrow> cell f j i \<noteq> 0
      | Inl e \<Rightarrow> False)"

definition psf_mask_footprint ::
  "nat \<times> nat \<Rightarrow> WorkCat \<Rightarrow> nat list \<Rightarrow> psf_model list \<Rightarrow> (real list \<times> real list) option \<Rightarrow>
   int \<Rightarrow> real \<Rightarrow> nat \<Rightarrow> nat \<Rightarrow> nat \<Rightarrow> bool" where
  "psf_mask_footprint shape work_cat psf_ids psfs kxy radius level n j i =
     (case psf_mask_step work_cat psf_ids psfs [] kxy radius level (zeros shape) n of
        Inr f \<Rightarrow> cell f j i \<noteq> 0
      | Inl e \<Rightarrow> False)"

section \<open>Properties\<close>

subsection \<open>Windowing\<close>

lemma find_inds_left_outside:
  "x + radius < 0 \<Longrightarrow> find_inds x_len x radius = (0, 0, 0, 0)"
  by (simp add: find_inds_def)

lemma find_inds_right_outside:
  "x - radius > x_len \<Longrightarrow> find_inds x_len x radius = (0, 0, 0, 0)"
  by (simp add: find_inds_def)

lemma find_inds_right_edge:
  assumes "0 < x_len" and "0 \<le> radius"
  shows "find_inds x_len (x_len + radius) radius = (x_len, x_len, 0, 0)"
  using assms by (simp add: find_inds_def)

lemma find_inds_inside:
  assumes "0 \<le> x - radius" and "x + radius < x_len" and "0 \<le> radius"
  shows "find_inds x_len x radius = (x - radius, x + radius + 1, 0, 2 * radius + 1)"
proof -
  have "\<not> (x < - radius \<or> x > x_len + radius)"
    using assms by linarith
  moreover have "(if x > radius then (x - radius, 0) else (0, radius - x)) = (x - radius, 0)"
    using assms by auto
  ultimately show ?thesis
    using assms(2) by (simp add: find_inds_def)
qed

text \<open>
  C3. \<^verbatim>\<open>find_inds\<close> is to return the all-zero tuple whenever the window
  \<open>[x - radius, x + radius]\<close> lies entirely outside \<open>[0, axis_len)\<close>. With
  \<open>axis_len = 10\<close>, \<open>x = 15\<close> and \<open>radius = 5\<close> the window is \<open>[10, 20]\<close>,
  which has no index in common with \<open>[0, 10)\<close>, and the code returns
  \<open>(10, 10, 0, 0)\<close>: the test on the right is \<open>x > x_len + radius\<close> where the one
  on the left is \<open>x < -radius\<close>.
\<close>

theorem find_inds_touching_right:
  "find_inds 10 15 5 = (10, 10, 0, 0)"
  by (simp add: find_inds_def)

subsection \<open>Adaptive radius\<close>

lemma psf_radii_mono_aux:
  assumes "f1 \<le> f2"
  shows "psf_radii f1 \<le> psf_radii f2"
proof -
  have "25 + 75 * (f1 - 1 / 10000) / (1 / 10 - 1 / 10000)
        \<le> 25 + 75 * (f2 - 1 / 10000) / (1 / 10 - 1 / 10000)"
    using assms by (simp add: divide_right_mono)
  then have "min (max (25 + 75 * (f1 - 1 / 10000) / (1 / 10 - 1 / 10000)) 25) 100
        \<le> min (max (25 + 75 * (f2 - 1 / 10000) / (1 / 10 - 1 / 10000)) 25) (100::real)"
    by linarith
  then show ?thesis
    unfolding psf_radii_def Let_def by (rule ceiling_mono)
qed

lemma ceiling_clamp:
  "\<lceil>min (max r 25) (100::real)\<rceil> = min (max \<lceil>r\<rceil> 25) 100"
proof -
  have a: "\<lceil>max r 25\<rceil> = max \<lceil>r\<rceil> 25"
    unfolding max_def by (auto simp: ceiling_le_iff le_ceiling_iff)
  have "\<lceil>min (max r 25) (100::real)\<rceil> = min \<lceil>max r 25\<rceil> 100"
    unfolding min_def by (auto simp: ceiling_le_iff le_ceiling_iff)
  with a show ?thesis by simp
qed

text \<open>
  C6. The adaptive radius is \<open>clamp(ceil(25 + 75 (f - 1e-4) / (1e-1 - 1e-4)), 25, 100)\<close>;
  it lies in \<open>[25, 100]\<close> and is monotonic non-decreasing in the flux scale.
\<close>

theorem psf_radii_clamp_range_mono:
  "psf_radii f = clamp \<lceil>25 + 75 * (f - 1 / 10000) / (1 / 10 - 1 / 10000)\<rceil> 25 100
   \<and> 25 \<le> psf_radii f \<and> psf_radii f \<le> 100
   \<and> (f1 \<le> f2 \<longrightarrow> psf_radii f1 \<le> psf_radii f2)"
proof -
  have eq: "psf_radii f = clamp \<lceil>25 + 75 * (f - 1 / 10000) / (1 / 10 - 1 / 10000)\<rceil> 25 100"
    unfolding psf_radii_def clamp_def Let_def by (rule ceiling_clamp)
  have rng: "25 \<le> psf_radii f \<and> psf_radii f \<le> 100"
    unfolding eq clamp_def by simp
  from eq rng psf_radii_mono_aux show ?thesis by blast
qed

theorem psf_radii_clamp_range_mono_witness:
  "psf_radii (1 / 50) = clamp \<lceil>25 + 75 * (1 / 50 - 1 / 10000) / (1 / 10 - 1 / 10000 :: real)\<rceil> 25 100
   \<and> 25 \<le> psf_radii (1 / 50) \<and> psf_radii (1 / 50) \<le> 100
   \<and> (1 / 1000 :: real) \<le> 1 / 50 \<and> psf_radii (1 / 1000) \<le> psf_radii (1 / 50)"
  using psf_radii_clamp_range_mono [where f = "1 / 50" and ?f1.0 = "1 / 1000" and ?f2.0 = "1 / 50"]
  by simp

subsection \<open>Geometry\<close>

lemma rotate_back:
  fixes x y c s :: real
  assumes "c\<^sup>2 + s\<^sup>2 = 1"
  shows "(x * c + y * s) * c + (- x * s + y * c) * (- s) = x"
    and "- (x * c + y * s) * (- s) + (- x * s + y * c) * c = y"
proof -
  have "(x * c + y * s) * c + (- x * s + y * c) * (- s) = x * (c\<^sup>2 + s\<^sup>2)"
    by (simp add: algebra_simps power2_eq_square)
  then show "(x * c + y * s) * c + (- x * s + y * c) * (- s) = x"
    using assms by simp
  have "- (x * c + y * s) * (- s) + (- x * s + y * c) * c = y * (c\<^sup>2 + s\<^sup>2)"
    by (simp add: algebra_simps power2_eq_square)
  then show "- (x * c + y * s) * (- s) + (- x * s + y * c) * c = y"
    using assms by simp
qed

lemma derotate_rotate_scalar:
  "(case rotate_position x y th of (xr, yr) \<Rightarrow> derotate_position xr yr th) = (x, y)"
proof -
  define c where "c = cos (deg2rad th)"
  define s where "s = sin (deg2rad th)"
  have cs: "c\<^sup>2 + s\<^sup>2 = 1"
    by (simp add: c_def s_def)
  have neg: "deg2rad (- th) = - deg2rad th"
    by (simp add: deg2rad_def)
  have "(case rotate_position x y th of (xr, yr) \<Rightarrow> derotate_position xr yr th)
        = ((x * c + y * s) * c + (- x * s + y * c) * (- s),
           - (x * c + y * s) * (- s) + (- x * s + y * c) * c)"
    unfolding rotate_position_def derotate_position_def Let_def neg c_def s_def
    by (simp only: cos_minus sin_minus prod.case)
  then show ?thesis
    using rotate_back [OF cs, of x y] by (simp only:)
qed

lemma rotate_position_arr_eq:
  assumes "length xs = length ys"
  shows "rotate_position_arr xs ys th =
           Inr (map (\<lambda>(x, y). fst (rotate_position x y th)) (zip xs ys),
                map (\<lambda>(x, y). snd (rotate_position x y th)) (zip xs ys))"
  using assms
  by (simp add: rotate_position_arr_def np_binop_def rotate_position_def Let_def
      zip_map_map case_prod_unfold)

lemma derotate_rotate_arr:
  assumes "length xs = length ys"
  shows "(case rotate_position_arr xs ys th of Inl e \<Rightarrow> Inl e
          | Inr (xr, yr) \<Rightarrow> derotate_position_arr xr yr th) = Inr (xs, ys)"
proof -
  let ?xr = "map (\<lambda>(x, y). fst (rotate_position x y th)) (zip xs ys)"
  let ?yr = "map (\<lambda>(x, y). snd (rotate_position x y th)) (zip xs ys)"
  have len: "length ?xr = length ?yr" by simp
  have rt: "derotate_position (fst (rotate_position x y th)) (snd (rotate_position x y th)) th = (x, y)"
    for x y
    using derotate_rotate_scalar [where x = x and y = y and th = th]
    by (simp add: case_prod_unfold)
  have "map (\<lambda>(a, b). fst (rotate_position a b (- th))) (zip ?xr ?yr) = xs"
    using assms rt
    by (auto intro!: nth_equalityI simp: derotate_position_def case_prod_unfold)
  moreover have "map (\<lambda>(a, b). snd (rotate_position a b (- th))) (zip ?xr ?yr) = ys"
    using assms rt
    by (auto intro!: nth_equalityI simp: derotate_position_def case_prod_unfold)
  ultimately show ?thesis
    using rotate_position_arr_eq [OF assms, of th] rotate_position_arr_eq [OF len, of "- th"]
    by (simp add: derotate_position_arr_def)
qed

text \<open>
  C7. De-rotating a rotated position by the same roll angle gives the position back, for a
  single position and for arrays of positions (\<open>x\<close> and \<open>y\<close> of one length); the
  de-rotation is the rotation by the negated angle. The equality is exact over the reals.
\<close>

theorem derotate_rotate_identity:
  "(case rotate_position x y th of (xr, yr) \<Rightarrow> derotate_position xr yr th) = (x, y)
   \<and> derotate_position x y th = rotate_position x y (- th)
   \<and> (length xs = length ys \<longrightarrow>
        (case rotate_position_arr xs ys th of Inl e \<Rightarrow> Inl e
         | Inr (xr, yr) \<Rightarrow> derotate_position_arr xr yr th) = Inr (xs, ys))"
  using derotate_rotate_scalar derotate_rotate_arr
  by (simp add: derotate_position_def)

theorem derotate_rotate_identity_witness:
  "(case rotate_position 3 4 30 of (xr, yr) \<Rightarrow> derotate_position xr yr 30) = (3, 4)
   \<and> length [1, 2 :: real] = length [5, 7 :: real]
   \<and> (case rotate_position_arr [1, 2] [5, 7] 30 of Inl e \<Rightarrow> Inl e
         | Inr (xr, yr) \<Rightarrow> derotate_position_arr xr yr 30) = Inr ([1, 2], [5, 7])"
  using derotate_rotate_identity [where x = 3 and y = 4 and th = 30 and xs = "[1, 2]" and ys = "[5, 7]"]
  by simp

subsection \<open>Catalogue ingestion\<close>

lemma bind_exc_simps [simp]:
  "bind_exc (Inl e) f = Inl e"
  "bind_exc (Inr v) f = f v"
  by (simp_all add: bind_exc_def)

lemma np_select_filter:
  "np_select (map P xs) xs = Inr (filter P xs)"
  by (induction xs) (simp_all add: np_select_def)

lemma np_select_same_length:
  "length sel = length xs \<Longrightarrow> \<exists>ys. np_select sel xs = Inr ys"
  by (simp add: np_select_def)

lemma column_len:
  assumes "table_ok cat" and "column cat name = Inr c"
  shows "length c = table_len cat"
proof -
  from assms(2) have "\<exists>n. (n, c) \<in> set cat"
  proof (cases "map_of cat (py_rstrip name)")
    case (Some c')
    with assms(2) have "c' = c" by (simp add: column_def)
    with Some show ?thesis by (auto dest: map_of_SomeD)
  next
    case None
    with assms(2) obtain n where
      "filter (\<lambda>(n, c). py_rstrip (py_lower n) = py_rstrip (py_lower name)) cat = [(n, c)]"
      by (auto simp: column_def split: list.splits)
    then have "(n, c) \<in> set (filter (\<lambda>(n, c). py_rstrip (py_lower n) = py_rstrip (py_lower name)) cat)"
      by simp
    then show ?thesis by auto
  qed
  with assms(1) show ?thesis
    by (auto simp: table_ok_def list_all_iff)
qed

text \<open>A key without trailing whitespace that names a column exactly finds that column.\<close>

lemma py_rstrip_id:
  assumes "s = [] \<or> \<not> py_isspace (last s)"
  shows "py_rstrip s = s"
proof (cases s rule: rev_cases)
  case Nil
  then show ?thesis by (simp add: py_rstrip_def)
next
  case (snoc ys y)
  with assms show ?thesis by (simp add: py_rstrip_def)
qed

lemma column_exact:
  assumes "map_of cat name = Some c" and "name = [] \<or> \<not> py_isspace (last name)"
  shows "column cat name = Inr c"
  using assms by (simp add: column_def py_rstrip_id)

lemma py_isspace_upper:
  "\<not> py_isspace CHR ''A''" "\<not> py_isspace CHR ''C''" "\<not> py_isspace CHR ''D''"
  "\<not> py_isspace CHR ''F''" "\<not> py_isspace CHR ''S''" "\<not> py_isspace CHR ''e''"
  by (simp_all add: py_isspace_def)

text \<open>
  The rows that pass a selection, by their indices: \<^verbatim>\<open>xs[sel]\<close> are the entries of
  \<open>xs\<close> at the indices where \<open>sel\<close> holds, in increasing order.
\<close>

lemma select_indices:
  assumes "length bs = length xs"
  shows "map snd (filter fst (zip bs xs)) = map ((!) xs) (filter ((!) bs) [0..<length xs])"
  using assms
proof (induction bs xs rule: list_induct2)
  case Nil
  then show ?case by simp
next
  case (Cons b bs x xs)
  have up: "[0..<length (x # xs)] = 0 # map Suc [0..<length xs]"
    by (simp add: upt_conv_Cons map_Suc_upt del: upt_Suc)
  have f: "filter ((!) (c # bs)) (map Suc ns) = map Suc (filter ((!) bs) ns)" for c ns
    by (induction ns) simp_all
  have m: "map ((!) (x # xs)) (map Suc ms) = map ((!) xs) ms" for ms
    by (induction ms) simp_all
  show ?case
    unfolding up by (simp add: f m Cons.IH)
qed

lemma select_rows:
  assumes "length xs = n" and "length fs = n"
  shows "map snd (filter fst (zip (map P fs) xs)) = map ((!) xs) (filter (\<lambda>k. P (fs ! k)) [0..<n])"
proof -
  have "filter ((!) (map P fs)) [0..<n] = filter (\<lambda>k. P (fs ! k)) [0..<n]"
    using assms(2) by (intro filter_cong) simp_all
  with select_indices [of "map P fs" xs] assms show ?thesis by simp
qed

lemma read_starcat_no_magnitude:
  assumes "''MAG_CHEOPS'' \<notin> set (column_names cat)" and "''MAG_GAIA'' \<notin> set (column_names cat)"
  shows "\<exists>e. read_starcat pxl_scl cat maxrad fscalemin = Inl e"
    and "catalog_N cat maxrad = Inr N \<Longrightarrow>
         read_starcat pxl_scl cat maxrad fscalemin =
           Inl (Exception ''[read_starcat] Error: magnitude column not defined'')"
  using assms
  by (auto simp: read_starcat_def catalog_N_def bind_exc_def split: option.splits sum.splits)

lemma mag_fscale_eq:
  assumes "column cat name = Inr mag" and "mag \<noteq> []"
  shows "mag_fscale cat name N = Inr (map (\<lambda>m. 10 powr (- 0.4 * (m - mag ! 0))) (take N mag))"
  using assms by (simp add: mag_fscale_def nth_exc_def)

lemma read_starcat_fscale:
  assumes ok: "table_ok cat"
    and name: "name = (if ''MAG_CHEOPS'' \<in> set (column_names cat) then ''MAG_CHEOPS'' else ''MAG_GAIA'')"
    and pres: "name \<in> set (column_names cat)"
    and mag: "column cat name = Inr mag" and ne: "mag \<noteq> []"
    and N: "catalog_N cat maxrad = Inr N"
    and cols: "column cat ''RA'' = Inr ra" "column cat ''DEC'' = Inr dec"
              "column cat ''T_EFF'' = Inr te" "column cat ''ID'' = Inr ids"
  shows "\<exists>r. read_starcat pxl_scl cat maxrad fscalemin = Inr r \<and>
             starcat_fscale r =
               filter (\<lambda>f. f > fscalemin) (map (\<lambda>m. 10 powr (- 0.4 * (m - mag ! 0))) (take N mag))"
proof -
  define fs where "fs = map (\<lambda>m. 10 powr (- 0.4 * (m - mag ! 0))) (take N mag)"
  define sel where "sel = map (\<lambda>f. f > fscalemin) fs"
  have lens: "length ra = length mag" "length dec = length mag" "length te = length mag"
    "length ids = length mag"
    using column_len [OF ok] mag cols by simp_all
  have lsel: "length sel = min (length mag) N"
    by (simp add: sel_def fs_def)
  have step1: "(case maxrad of None \<Rightarrow> Inr (table_len cat)
               | Some m \<Rightarrow> bind_exc (column cat ''distance'') (\<lambda>d. Inr (searchsorted d m))) = Inr N"
    using N by (simp add: catalog_N_def)
  have step2: "(if ''MAG_CHEOPS'' \<in> set (column_names cat) then mag_fscale cat ''MAG_CHEOPS'' N
               else if ''MAG_GAIA'' \<in> set (column_names cat) then mag_fscale cat ''MAG_GAIA'' N
               else Inl (Exception ''[read_starcat] Error: magnitude column not defined'')) = Inr fs"
  proof (cases "''MAG_CHEOPS'' \<in> set (column_names cat)")
    case True
    with name mag have "column cat ''MAG_CHEOPS'' = Inr mag" by simp
    from mag_fscale_eq [OF this ne] True show ?thesis by (simp add: fs_def)
  next
    case False
    with name pres mag have "''MAG_GAIA'' \<in> set (column_names cat)" "column cat ''MAG_GAIA'' = Inr mag"
      by simp_all
    with mag_fscale_eq [OF this(2) ne] False show ?thesis by (simp add: fs_def)
  qed
  have r0: "nth_exc ra 0 = Inr (ra ! 0)" "nth_exc dec 0 = Inr (dec ! 0)"
    using lens ne by (simp_all add: nth_exc_def)
  have selI: "np_select sel xs = Inr (map snd (filter fst (zip sel xs)))"
    if "length xs = min (length mag) N" for xs :: "real list"
    using that lsel by (simp add: np_select_def)
  have s1: "np_select sel (map (\<lambda>v. (ra ! 0 - v) * cos (deg2rad (dec ! 0)) * 3600 / pxl_scl) (take N ra))
      = Inr (map snd (filter fst (zip sel (map (\<lambda>v. (ra ! 0 - v) * cos (deg2rad (dec ! 0)) * 3600 / pxl_scl) (take N ra)))))"
    by (rule selI) (simp add: lens)
  have s2: "np_select sel (map (\<lambda>v. (v - dec ! 0) * 3600 / pxl_scl) (take N dec))
      = Inr (map snd (filter fst (zip sel (map (\<lambda>v. (v - dec ! 0) * 3600 / pxl_scl) (take N dec)))))"
    by (rule selI) (simp add: lens)
  have s3: "np_select sel fs = Inr (filter (\<lambda>f. f > fscalemin) fs)"
    unfolding sel_def by (rule np_select_filter)
  have s4: "np_select sel (take N te) = Inr (map snd (filter fst (zip sel (take N te))))"
    by (rule selI) (simp add: lens)
  have s5: "np_select sel (take N ids) = Inr (map snd (filter fst (zip sel (take N ids))))"
    by (rule selI) (simp add: lens)
  have "read_starcat pxl_scl cat maxrad fscalemin =
      Inr (map snd (filter fst (zip sel (map (\<lambda>v. (ra ! 0 - v) * cos (deg2rad (dec ! 0)) * 3600 / pxl_scl) (take N ra)))),
           map snd (filter fst (zip sel (map (\<lambda>v. (v - dec ! 0) * 3600 / pxl_scl) (take N dec)))),
           filter (\<lambda>f. f > fscalemin) fs,
           map snd (filter fst (zip sel (take N te))),
           map snd (filter fst (zip sel (take N ids))))"
    unfolding read_starcat_def step1 step2 bind_exc_simps cols r0 Let_def sel_def [symmetric]
      s1 s2 s3 s4 s5
    by (rule refl)
  then show ?thesis by (simp add: starcat_fscale_def fs_def)
qed


text \<open>
  The whole result, row by row: with \<open>K\<close> the indices below \<open>N\<close> whose flux scale is
  above \<open>fscalemin\<close>, in increasing order, each of the five arrays holds the values of
  the rows of \<open>K\<close>.
\<close>

lemma read_starcat_rows:
  fixes fscalemin :: real and mag :: "real list" and N :: nat
  assumes ok: "table_ok cat"
    and name: "name = (if ''MAG_CHEOPS'' \<in> set (column_names cat) then ''MAG_CHEOPS'' else ''MAG_GAIA'')"
    and pres: "name \<in> set (column_names cat)"
    and mag: "column cat name = Inr mag" and ne: "mag \<noteq> []"
    and N: "catalog_N cat maxrad = Inr N"
    and cols: "column cat ''RA'' = Inr ra" "column cat ''DEC'' = Inr dec"
              "column cat ''T_EFF'' = Inr te" "column cat ''ID'' = Inr ids"
  defines "f \<equiv> (\<lambda>k. 10 powr (- 0.4 * (mag ! k - mag ! 0)))"
  defines "K \<equiv> filter (\<lambda>k. f k > fscalemin) [0..<min N (length mag)]"
  shows "read_starcat pxl_scl cat maxrad fscalemin =
           Inr (map (\<lambda>k. (ra ! 0 - ra ! k) * cos (deg2rad (dec ! 0)) * 3600 / pxl_scl) K,
                map (\<lambda>k. (dec ! k - dec ! 0) * 3600 / pxl_scl) K,
                map f K, map ((!) te) K, map ((!) ids) K)"
proof -
  define n where "n = min N (length mag)"
  define fs where "fs = map (\<lambda>m. 10 powr (- 0.4 * (m - mag ! 0))) (take N mag)"
  define sel where "sel = map (\<lambda>f. f > fscalemin) fs"
  define dx where "dx = map (\<lambda>v. (ra ! 0 - v) * cos (deg2rad (dec ! 0)) * 3600 / pxl_scl) (take N ra)"
  define dy where "dy = map (\<lambda>v. (v - dec ! 0) * 3600 / pxl_scl) (take N dec)"
  have lens: "length ra = length mag" "length dec = length mag" "length te = length mag"
    "length ids = length mag"
    using column_len [OF ok] mag cols by simp_all
  have ln: "length fs = n" "length dx = n" "length dy = n" "length (take N te) = n"
    "length (take N ids) = n"
    by (simp_all add: fs_def dx_def dy_def n_def lens min.commute)
  have fk: "fs ! k = f k" if "k < n" for k
    using that by (simp add: fs_def f_def n_def)
  have Kn: "k < n" if "k \<in> set K" for k
    using that by (simp add: K_def n_def)
  have Kn': "k < N \<and> k < length mag" if "k \<in> set K" for k
    using that by (simp add: K_def)
  have Kf: "filter (\<lambda>k. fs ! k > fscalemin) [0..<n] = K"
    unfolding K_def n_def [symmetric] by (intro filter_cong) (simp_all add: fk)
  have step1: "(case maxrad of None \<Rightarrow> Inr (table_len cat)
               | Some m \<Rightarrow> bind_exc (column cat ''distance'') (\<lambda>d. Inr (searchsorted d m))) = Inr N"
    using N by (simp add: catalog_N_def)
  have step2: "(if ''MAG_CHEOPS'' \<in> set (column_names cat) then mag_fscale cat ''MAG_CHEOPS'' N
               else if ''MAG_GAIA'' \<in> set (column_names cat) then mag_fscale cat ''MAG_GAIA'' N
               else Inl (Exception ''[read_starcat] Error: magnitude column not defined'')) = Inr fs"
  proof (cases "''MAG_CHEOPS'' \<in> set (column_names cat)")
    case True
    with name mag have "column cat ''MAG_CHEOPS'' = Inr mag" by simp
    from mag_fscale_eq [OF this ne] True show ?thesis by (simp add: fs_def)
  next
    case False
    with name pres mag have "''MAG_GAIA'' \<in> set (column_names cat)" "column cat ''MAG_GAIA'' = Inr mag"
      by simp_all
    with mag_fscale_eq [OF this(2) ne] False show ?thesis by (simp add: fs_def)
  qed
  have r0: "nth_exc ra 0 = Inr (ra ! 0)" "nth_exc dec 0 = Inr (dec ! 0)"
    using lens ne by (simp_all add: nth_exc_def)
  have selI: "np_select sel xs = Inr (map ((!) xs) K)" if "length xs = n" for xs :: "real list"
  proof -
    have "np_select sel xs = Inr (map snd (filter fst (zip sel xs)))"
      using that ln(1) by (simp add: np_select_def sel_def)
    also have "map snd (filter fst (zip sel xs)) = map ((!) xs) K"
      unfolding sel_def select_rows [OF that ln(1)] Kf by (rule refl)
    finally show ?thesis .
  qed
  have m1: "map ((!) dx) K = map (\<lambda>k. (ra ! 0 - ra ! k) * cos (deg2rad (dec ! 0)) * 3600 / pxl_scl) K"
    by (rule map_cong [OF refl]) (auto dest!: Kn' simp: dx_def lens)
  have m2: "map ((!) dy) K = map (\<lambda>k. (dec ! k - dec ! 0) * 3600 / pxl_scl) K"
    by (rule map_cong [OF refl]) (auto dest!: Kn' simp: dy_def lens)
  have m3: "map ((!) fs) K = map f K"
    by (rule map_cong [OF refl]) (auto dest!: Kn simp: fk)
  have m4: "map ((!) (take N te)) K = map ((!) te) K"
    by (rule map_cong [OF refl]) (auto dest!: Kn')
  have m5: "map ((!) (take N ids)) K = map ((!) ids) K"
    by (rule map_cong [OF refl]) (auto dest!: Kn')
  have "read_starcat pxl_scl cat maxrad fscalemin =
      Inr (map ((!) dx) K, map ((!) dy) K, map ((!) fs) K,
           map ((!) (take N te)) K, map ((!) (take N ids)) K)"
    unfolding read_starcat_def step1 step2 bind_exc_simps cols r0 Let_def
      sel_def [symmetric] dx_def [symmetric] dy_def [symmetric]
      selI [OF ln(2)] selI [OF ln(3)] selI [OF ln(1)] selI [OF ln(4)] selI [OF ln(5)]
    by (rule refl)
  then show ?thesis
    unfolding m1 m2 m3 m4 m5 .
qed

text \<open>
  C9. With neither \<^verbatim>\<open>MAG_CHEOPS\<close> nor \<^verbatim>\<open>MAG_GAIA\<close> among the columns,
  \<^verbatim>\<open>read_starcat\<close> raises and returns nothing (the magnitude exception itself once
  the number of rows is found). With one of them present, in a well-formed non-empty
  table, the flux scales are \<open>10 powr (-0.4 (m - m\<^sub>0))\<close> for the magnitudes \<open>m\<close> of the
  first \<open>N\<close> rows, \<open>m\<^sub>0\<close> that of the first row, and exactly those above
  \<open>fscalemin\<close> are returned. The rows \<open>K\<close> that survive are the same in all five
  returned arrays: flux scales, temperatures and identifiers are those of the rows of
  \<open>K\<close>, in order, and so are the offsets in pixels when the pixel scale is not zero.
\<close>

theorem read_starcat_magnitude:
  "((''MAG_CHEOPS'' \<notin> set (column_names cat) \<and> ''MAG_GAIA'' \<notin> set (column_names cat)) \<longrightarrow>
      (\<exists>e. read_starcat pxl_scl cat maxrad fscalemin = Inl e) \<and>
      (catalog_N cat maxrad = Inr N \<longrightarrow>
         read_starcat pxl_scl cat maxrad fscalemin =
           Inl (Exception ''[read_starcat] Error: magnitude column not defined'')))
   \<and> (table_ok cat \<and>
        name = (if ''MAG_CHEOPS'' \<in> set (column_names cat) then ''MAG_CHEOPS'' else ''MAG_GAIA'') \<and>
        name \<in> set (column_names cat) \<and> column cat name = Inr mag \<and> mag \<noteq> [] \<and>
        catalog_N cat maxrad = Inr N \<and>
        column cat ''RA'' = Inr ra \<and> column cat ''DEC'' = Inr dec \<and>
        column cat ''T_EFF'' = Inr te \<and> column cat ''ID'' = Inr ids \<longrightarrow>
        (\<exists>r. read_starcat pxl_scl cat maxrad fscalemin = Inr r \<and>
             starcat_fscale r =
               filter (\<lambda>f. f > fscalemin) (map (\<lambda>m. 10 powr (- 0.4 * (m - mag ! 0))) (take N mag)) \<and>
             (\<forall>f \<in> set (starcat_fscale r). f > fscalemin) \<and>
             (let f = (\<lambda>k. 10 powr (- 0.4 * (mag ! k - mag ! 0)));
                  K = filter (\<lambda>k. f k > fscalemin) [0..<min N (length mag)]
              in case r of (dx, dy, fscale, Teff, gaiaID) \<Rightarrow>
                   fscale = map f K \<and> Teff = map ((!) te) K \<and> gaiaID = map ((!) ids) K \<and>
                   (pxl_scl \<noteq> 0 \<longrightarrow>
                      dx = map (\<lambda>k. (ra ! 0 - ra ! k) * cos (deg2rad (dec ! 0)) * 3600 / pxl_scl) K \<and>
                      dy = map (\<lambda>k. (dec ! k - dec ! 0) * 3600 / pxl_scl) K))))"
proof (intro conjI impI)
  assume a: "''MAG_CHEOPS'' \<notin> set (column_names cat) \<and> ''MAG_GAIA'' \<notin> set (column_names cat)"
  then show "\<exists>e. read_starcat pxl_scl cat maxrad fscalemin = Inl e"
    using read_starcat_no_magnitude(1) by blast
  assume "catalog_N cat maxrad = Inr N"
  with a show "read_starcat pxl_scl cat maxrad fscalemin =
           Inl (Exception ''[read_starcat] Error: magnitude column not defined'')"
    using read_starcat_no_magnitude(2) by blast
next
  assume h: "table_ok cat \<and>
        name = (if ''MAG_CHEOPS'' \<in> set (column_names cat) then ''MAG_CHEOPS'' else ''MAG_GAIA'') \<and>
        name \<in> set (column_names cat) \<and> column cat name = Inr mag \<and> mag \<noteq> [] \<and>
        catalog_N cat maxrad = Inr N \<and>
        column cat ''RA'' = Inr ra \<and> column cat ''DEC'' = Inr dec \<and>
        column cat ''T_EFF'' = Inr te \<and> column cat ''ID'' = Inr ids"
  then obtain r where r: "read_starcat pxl_scl cat maxrad fscalemin = Inr r"
    "starcat_fscale r =
       filter (\<lambda>f. f > fscalemin) (map (\<lambda>m. 10 powr (- 0.4 * (m - mag ! 0))) (take N mag))"
    using read_starcat_fscale [of cat name mag maxrad N ra dec te ids pxl_scl fscalemin] by blast
  from r(2) have gt: "\<forall>f \<in> set (starcat_fscale r). f > fscalemin" by simp
  from h have rows: "read_starcat pxl_scl cat maxrad fscalemin =
           Inr (map (\<lambda>k. (ra ! 0 - ra ! k) * cos (deg2rad (dec ! 0)) * 3600 / pxl_scl)
                  (filter (\<lambda>k. 10 powr (- 0.4 * (mag ! k - mag ! 0)) > fscalemin) [0..<min N (length mag)]),
                map (\<lambda>k. (dec ! k - dec ! 0) * 3600 / pxl_scl)
                  (filter (\<lambda>k. 10 powr (- 0.4 * (mag ! k - mag ! 0)) > fscalemin) [0..<min N (length mag)]),
                map (\<lambda>k. 10 powr (- 0.4 * (mag ! k - mag ! 0)))
                  (filter (\<lambda>k. 10 powr (- 0.4 * (mag ! k - mag ! 0)) > fscalemin) [0..<min N (length mag)]),
                map ((!) te)
                  (filter (\<lambda>k. 10 powr (- 0.4 * (mag ! k - mag ! 0)) > fscalemin) [0..<min N (length mag)]),
                map ((!) ids)
                  (filter (\<lambda>k. 10 powr (- 0.4 * (mag ! k - mag ! 0)) > fscalemin) [0..<min N (length mag)]))"
    using read_starcat_rows [of cat name mag maxrad N ra dec te ids pxl_scl fscalemin] by blast
  with r(1) have "let f = (\<lambda>k. 10 powr (- 0.4 * (mag ! k - mag ! 0)));
                  K = filter (\<lambda>k. f k > fscalemin) [0..<min N (length mag)]
              in case r of (dx, dy, fscale, Teff, gaiaID) \<Rightarrow>
                   fscale = map f K \<and> Teff = map ((!) te) K \<and> gaiaID = map ((!) ids) K \<and>
                   (pxl_scl \<noteq> 0 \<longrightarrow>
                      dx = map (\<lambda>k. (ra ! 0 - ra ! k) * cos (deg2rad (dec ! 0)) * 3600 / pxl_scl) K \<and>
                      dy = map (\<lambda>k. (dec ! k - dec ! 0) * 3600 / pxl_scl) K)"
    by (auto simp: Let_def)
  with r gt show "\<exists>r. read_starcat pxl_scl cat maxrad fscalemin = Inr r \<and>
             starcat_fscale r =
               filter (\<lambda>f. f > fscalemin) (map (\<lambda>m. 10 powr (- 0.4 * (m - mag ! 0))) (take N mag)) \<and>
             (\<forall>f \<in> set (starcat_fscale r). f > fscalemin) \<and>
             (let f = (\<lambda>k. 10 powr (- 0.4 * (mag ! k - mag ! 0)));
                  K = filter (\<lambda>k. f k > fscalemin) [0..<min N (length mag)]
              in case r of (dx, dy, fscale, Teff, gaiaID) \<Rightarrow>
                   fscale = map f K \<and> Teff = map ((!) te) K \<and> gaiaID = map ((!) ids) K \<and>
                   (pxl_scl \<noteq> 0 \<longrightarrow>
                      dx = map (\<lambda>k. (ra ! 0 - ra ! k) * cos (deg2rad (dec ! 0)) * 3600 / pxl_scl) K \<and>
                      dy = map (\<lambda>k. (dec ! k - dec ! 0) * 3600 / pxl_scl) K))"
    by blast
qed

text \<open>
  A table without magnitudes raises. In a table of two rows with magnitudes 8 and 23 the
  second row has the flux scale \<open>10 powr (-6)\<close>, below the minimum \<open>1 / 100000\<close>: only
  the first row is returned, in each of the five arrays. The key \<^verbatim>\<open>distance\<close> finds
  the column \<^verbatim>\<open>DISTANCE\<close>.
\<close>

theorem read_starcat_magnitude_witness:
  "''MAG_CHEOPS'' \<notin> set (column_names [(''RA'', [10, 11]), (''DEC'', [20, 21])])
   \<and> ''MAG_GAIA'' \<notin> set (column_names [(''RA'', [10, 11]), (''DEC'', [20, 21])])
   \<and> catalog_N [(''RA'', [10, 11]), (''DEC'', [20, 21])] None = Inr 2
   \<and> read_starcat 1 [(''RA'', [10, 11]), (''DEC'', [20, 21])] None (1 / 100000) =
       Inl (Exception ''[read_starcat] Error: magnitude column not defined'')
   \<and> table_ok [(''RA'', [10, 11]), (''DEC'', [20, 21]), (''MAG_GAIA'', [8, 23]),
                (''T_EFF'', [5000, 6000]), (''ID'', [1, 2]), (''DISTANCE'', [0, 40])]
   \<and> column [(''RA'', [10, 11]), (''DEC'', [20, 21]), (''MAG_GAIA'', [8, 23]),
                (''T_EFF'', [5000, 6000]), (''ID'', [1, 2]), (''DISTANCE'', [0, 40])] ''MAG_GAIA'' = Inr [8, 23]
   \<and> column [(''RA'', [10, 11]), (''DEC'', [20, 21]), (''MAG_GAIA'', [8, 23]),
                (''T_EFF'', [5000, 6000]), (''ID'', [1, 2]), (''DISTANCE'', [0, 40])] ''distance'' = Inr [0, 40]
   \<and> read_starcat 1 [(''RA'', [10, 11]), (''DEC'', [20, 21]), (''MAG_GAIA'', [8, 23]),
                (''T_EFF'', [5000, 6000]), (''ID'', [1, 2]), (''DISTANCE'', [0, 40])] None (1 / 100000)
       = Inr ([0], [0], [1], [5000], [1])"
proof -
  let ?t1 = "[(''RA'', [10, 11 :: real]), (''DEC'', [20, 21])]"
  let ?t2 = "[(''RA'', [10, 11 :: real]), (''DEC'', [20, 21]), (''MAG_GAIA'', [8, 23]),
                (''T_EFF'', [5000, 6000]), (''ID'', [1, 2]), (''DISTANCE'', [0, 40])]"
  have n1: "''MAG_CHEOPS'' \<notin> set (column_names ?t1) \<and> ''MAG_GAIA'' \<notin> set (column_names ?t1)"
    by (simp add: column_names_def)
  have c1: "catalog_N ?t1 None = Inr 2"
    by (simp add: catalog_N_def table_len_def)
  have cols: "column ?t2 ''MAG_GAIA'' = Inr [8, 23]" "column ?t2 ''RA'' = Inr [10, 11]"
    "column ?t2 ''DEC'' = Inr [20, 21]" "column ?t2 ''T_EFF'' = Inr [5000, 6000]"
    "column ?t2 ''ID'' = Inr [1, 2]"
    by (rule column_exact; simp add: py_isspace_upper)+
  have norm: "py_rstrip (py_lower ''RA'') = ''ra''" "py_rstrip (py_lower ''DEC'') = ''dec''"
    "py_rstrip (py_lower ''MAG_GAIA'') = ''mag_gaia''" "py_rstrip (py_lower ''T_EFF'') = ''t_eff''"
    "py_rstrip (py_lower ''ID'') = ''id''" "py_rstrip (py_lower ''DISTANCE'') = ''distance''"
    "py_rstrip (py_lower ''distance'') = ''distance''" "py_rstrip ''distance'' = ''distance''"
    by code_simp+
  have dist: "column ?t2 ''distance'' = Inr [0, 40]"
    by (simp add: column_def norm)
  have h2: "table_ok ?t2 \<and>
        ''MAG_GAIA'' = (if ''MAG_CHEOPS'' \<in> set (column_names ?t2) then ''MAG_CHEOPS'' else ''MAG_GAIA'') \<and>
        ''MAG_GAIA'' \<in> set (column_names ?t2) \<and> column ?t2 ''MAG_GAIA'' = Inr [8, 23] \<and> [8, 23 :: real] \<noteq> [] \<and>
        catalog_N ?t2 None = Inr 2 \<and>
        column ?t2 ''RA'' = Inr [10, 11] \<and> column ?t2 ''DEC'' = Inr [20, 21] \<and>
        column ?t2 ''T_EFF'' = Inr [5000, 6000] \<and> column ?t2 ''ID'' = Inr [1, 2]"
    using cols by (simp add: table_ok_def table_len_def column_names_def catalog_N_def)
  have r1: "read_starcat 1 ?t1 None (1 / 100000) =
       Inl (Exception ''[read_starcat] Error: magnitude column not defined'')"
    using read_starcat_magnitude [where cat = ?t1 and maxrad = None and N = 2 and pxl_scl = 1
        and fscalemin = "1 / 100000"] n1 c1
    by blast
  have p0: "(10 :: real) powr (- 0.4 * (8 - 8)) = 1" by simp
  have p1: "(10 :: real) powr (- 0.4 * (23 - 8)) = 1 / 1000000"
  proof -
    have "(10 :: real) powr (- 0.4 * (23 - 8)) = 10 powr (- 6)" by simp
    also have "\<dots> = 1 / 10 powr 6" by (simp add: powr_minus_divide)
    also have "(10 :: real) powr 6 = 10 ^ 6" by (rule powr_numeral) simp
    finally show ?thesis by simp
  qed
  have K: "filter (\<lambda>k. 10 powr (- 0.4 * ([8, 23 :: real] ! k - [8, 23] ! 0)) > (1 / 100000 :: real))
             [0..<min 2 (length [8, 23 :: real])] = [0]"
    using p0 p1 by (simp add: upt_rec [of 0] upt_rec [of 1] upt_rec [of "Suc 0"])
  from read_starcat_magnitude [where cat = ?t2 and maxrad = None and N = 2 and pxl_scl = 1
        and fscalemin = "1 / 100000" and name = "''MAG_GAIA''" and mag = "[8, 23]"
        and ra = "[10, 11]" and dec = "[20, 21]" and te = "[5000, 6000]" and ids = "[1, 2]"] h2
  have r2: "read_starcat 1 ?t2 None (1 / 100000) = Inr ([0], [0], [1], [5000], [1])"
    unfolding Let_def K by (auto simp: p0)
  from n1 c1 r1 h2 dist r2 show ?thesis
    by blast
qed

subsection \<open>Working catalogue\<close>

lemma rotate_position_arr_length:
  "rotate_position_arr xs ys th = Inr (x, y) \<Longrightarrow> length x = length y"
  by (auto simp: rotate_position_arr_def np_binop_def Let_def split: if_splits sum.splits)

lemma rotate_cat_length:
  "rotate_cat self rolldeg maxrad = Inr (x, y) \<Longrightarrow> length x = length y"
  by (auto simp: rotate_cat_def bind_exc_def Let_def split: option.splits sum.splits
      dest: rotate_position_arr_length)

lemma image_cat_loop_nth:
  "image_cat_loop b res ps = Inr (dxs, dys) \<Longrightarrow>
   length dxs = length ps \<and> length dys = length ps \<and>
   (\<forall>n < length ps. image_cat_offsets b res (fst (ps ! n)) (snd (ps ! n)) = Inr (dxs ! n, dys ! n))"
proof (induction ps arbitrary: dxs dys)
  case Nil
  then show ?case by simp
next
  case (Cons p ps)
  obtain xn yn where p: "p = (xn, yn)" by (cases p)
  from Cons.prems p obtain dx dy dxs' dys' where
    o: "image_cat_offsets b res xn yn = Inr (dx, dy)"
    and l: "image_cat_loop b res ps = Inr (dxs', dys')"
    and e: "dxs = dx # dxs'" "dys = dy # dys'"
    by (auto simp: bind_exc_def split: sum.splits)
  from Cons.IH [OF l] o e p show ?case
    by (auto simp: nth_Cons split: nat.splits)
qed

lemma image_cat_loop_total:
  "res \<noteq> 0 \<Longrightarrow> \<exists>r. image_cat_loop b res ps = Inr r"
proof (induction ps)
  case Nil
  then show ?case by simp
next
  case (Cons p ps)
  obtain xn yn where p: "p = (xn, yn)" by (cases p)
  have "\<exists>d. image_cat_offsets b res xn yn = Inr d"
    using Cons.prems
    by (auto simp: image_cat_offsets_def blur_samples_def linspace_def Let_def
        rotate_position_angles_def)
  with Cons p show ?case by (auto simp: bind_exc_def)
qed

lemma image_cat_offsets_eq:
  assumes "image_cat_offsets b res xn yn = Inr (dx, dy)"
  shows "res \<noteq> 0"
    and "(dx, dy) =
      (let N = 2 * py_int (0.5 * deg2rad b * sqrt (xn\<^sup>2 + yn\<^sup>2) / res) + 1
       in if N \<le> 2 then ([0], [0])
          else (map (\<lambda>a. fst (rotate_position xn yn a) - xn) (blur_angles b N),
                map (\<lambda>a. snd (rotate_position xn yn a) - yn) (blur_angles b N)))"
proof -
  show r: "res \<noteq> 0"
    using assms by (auto simp: image_cat_offsets_def blur_samples_def Let_def split: if_splits)
  define N where "N = 2 * py_int (0.5 * deg2rad b * sqrt (xn\<^sup>2 + yn\<^sup>2) / res) + 1"
  have bs: "blur_samples b res (sqrt (xn\<^sup>2 + yn\<^sup>2)) = Inr N"
    using r by (simp add: blur_samples_def N_def Let_def)
  show "(dx, dy) =
      (let N = 2 * py_int (0.5 * deg2rad b * sqrt (xn\<^sup>2 + yn\<^sup>2) / res) + 1
       in if N \<le> 2 then ([0], [0])
          else (map (\<lambda>a. fst (rotate_position xn yn a) - xn) (blur_angles b N),
                map (\<lambda>a. snd (rotate_position xn yn a) - yn) (blur_angles b N)))"
  proof (cases "N \<le> 2")
    case True
    with assms bs show ?thesis
      unfolding Let_def N_def [symmetric] by (auto simp: image_cat_offsets_def)
  next
    case False
    then have ls: "linspace (- 1) 1 N = Inr (map (\<lambda>k. - 1 + real k * (2 / real_of_int (N - 1))) [0..<nat N])"
      by (simp add: linspace_def)
    from False assms bs ls show ?thesis
      unfolding Let_def N_def [symmetric]
      by (auto simp: image_cat_offsets_def rotate_position_angles_def blur_angles_def Let_def o_def)
  qed
qed


lemma image_cat_Inr:
  assumes "image_cat self x0 y0 rolldeg blurdeg maxrad resolution = Inr wc"
  obtains x y dxs dys where "rotate_cat self rolldeg maxrad = Inr (x, y)"
    and "image_cat_loop blurdeg resolution (zip x y) = Inr (dxs, dys)"
    and "wc = WorkCat_init (map (\<lambda>v. v + x0) x) (map (\<lambda>v. v + y0) y)
                (take (length x) (sb_fscale self)) dxs dys"
  using assms
  by (auto simp: image_cat_def bind_exc_def Let_def split: sum.splits prod.splits)

lemma py_int_odd: "odd (2 * py_int v + 1)"
  by simp

lemma py_int_nonneg: "0 \<le> v \<Longrightarrow> py_int v = \<lfloor>v\<rfloor> \<and> 0 \<le> py_int v"
  by (simp add: py_int_def)

lemma blur_angles_ends:
  assumes "2 < N"
  shows "length (blur_angles b N) = nat N"
    and "hd (blur_angles b N) = - b / 2"
    and "last (blur_angles b N) = b / 2"
proof -
  show "length (blur_angles b N) = nat N"
    by (simp add: blur_angles_def)
  have ne: "[0..<nat N] \<noteq> []" using assms by simp
  show "hd (blur_angles b N) = - b / 2"
    using assms ne by (simp add: blur_angles_def hd_map upt_conv_Cons)
  have l: "last [0..<nat N] = nat N - 1"
    using assms by simp
  have r: "real (nat N - 1) = real_of_int (N - 1)"
    using assms by simp
  have nz: "real_of_int (N - 1) \<noteq> 0" using assms by simp
  have "last (blur_angles b N) = (b / 2) * (- 1 + real_of_int (N - 1) * (2 / real_of_int (N - 1)))"
    unfolding blur_angles_def last_map [OF ne] l r by (rule refl)
  also have "real_of_int (N - 1) * (2 / real_of_int (N - 1)) = 2"
  proof -
    have "c * (2 / c) = 2" if "c \<noteq> 0" for c :: real
      using that by simp
    from this [OF nz] show ?thesis .
  qed
  finally show "last (blur_angles b N) = b / 2" by simp
qed

lemma image_cat_star:
  assumes ic: "image_cat self x0 y0 rolldeg blurdeg maxrad resolution = Inr wc"
    and n: "n < wc_catsize wc"
  shows "image_cat_offsets blurdeg resolution (wc_x wc ! n - x0) (wc_y wc ! n - y0)
           = Inr (wc_dxs wc ! n, wc_dys wc ! n)"
proof -
  from ic obtain x y dxs dys where rc: "rotate_cat self rolldeg maxrad = Inr (x, y)"
    and lp: "image_cat_loop blurdeg resolution (zip x y) = Inr (dxs, dys)"
    and wc: "wc = WorkCat_init (map (\<lambda>v. v + x0) x) (map (\<lambda>v. v + y0) y)
                (take (length x) (sb_fscale self)) dxs dys"
    by (rule image_cat_Inr)
  have len: "length x = length y" using rc by (rule rotate_cat_length)
  have nx: "n < length x" using n wc by (simp add: WorkCat_init_def)
  from image_cat_loop_nth [OF lp] nx len
  have "image_cat_offsets blurdeg resolution (x ! n) (y ! n) = Inr (dxs ! n, dys ! n)"
    by simp
  with nx len wc show ?thesis by (simp add: WorkCat_init_def)
qed

lemma image_cat_total:
  assumes "length (sb_xpos self) = length (sb_ypos self)" and "resolution \<noteq> 0"
  shows "\<exists>wc. image_cat self x0 y0 rolldeg blurdeg maxrad resolution = Inr wc"
proof -
  have "\<exists>x y. rotate_cat self rolldeg maxrad = Inr (x, y)"
    using assms(1)
    by (cases maxrad) (simp_all add: rotate_cat_def np_binop_def Let_def rotate_position_arr_eq)
  then obtain x y where rc: "rotate_cat self rolldeg maxrad = Inr (x, y)" by blast
  obtain r where "image_cat_loop blurdeg resolution (zip x y) = Inr r"
    using image_cat_loop_total [OF assms(2)] by blast
  with rc show ?thesis
    by (cases r) (simp add: image_cat_def Let_def)
qed

text \<open>
  C4, as amended. For every star \<open>n\<close> of the working catalogue that \<^verbatim>\<open>image_cat\<close>
  returns, the sample count is \<open>N = 2 trunc(num_res) + 1\<close>, with truncation toward zero
  and \<open>num_res\<close> proportional to the blur span times the star's distance from the target.
  \<open>N\<close> is odd; when \<open>num_res \<ge> 0\<close> it is \<open>2 floor(num_res) + 1\<close> and at least 1.
  When \<open>N \<le> 2\<close> the offsets are the single zero offset; otherwise they are the \<open>N\<close>
  offsets of the star's position rotated by \<open>N\<close> evenly spaced angles from
  \<open>-blurdeg/2\<close> to \<open>+blurdeg/2\<close>, minus the position itself. A catalogue with as many
  \<open>x\<close> as \<open>y\<close> positions and a non-zero resolution always gives a working catalogue.
\<close>

theorem image_cat_blur_offsets:
  "(image_cat self x0 y0 rolldeg blurdeg maxrad resolution = Inr wc \<and> n < wc_catsize wc \<longrightarrow>
      (let xn = wc_x wc ! n - x0;
           yn = wc_y wc ! n - y0;
           num_res = 0.5 * deg2rad blurdeg * sqrt (xn\<^sup>2 + yn\<^sup>2) / resolution;
           N = 2 * py_int num_res + 1
       in odd N
          \<and> (0 \<le> num_res \<longrightarrow> N = 2 * \<lfloor>num_res\<rfloor> + 1 \<and> 1 \<le> N)
          \<and> (N \<le> 2 \<longrightarrow> wc_dxs wc ! n = [0] \<and> wc_dys wc ! n = [0])
          \<and> (2 < N \<longrightarrow>
                length (blur_angles blurdeg N) = nat N
              \<and> hd (blur_angles blurdeg N) = - blurdeg / 2
              \<and> last (blur_angles blurdeg N) = blurdeg / 2
              \<and> wc_dxs wc ! n = map (\<lambda>a. fst (rotate_position xn yn a) - xn) (blur_angles blurdeg N)
              \<and> wc_dys wc ! n = map (\<lambda>a. snd (rotate_position xn yn a) - yn) (blur_angles blurdeg N))))
   \<and> (length (sb_xpos self) = length (sb_ypos self) \<and> resolution \<noteq> 0 \<longrightarrow>
        (\<exists>w. image_cat self x0 y0 rolldeg blurdeg maxrad resolution = Inr w))"
proof (intro conjI impI)
  assume "length (sb_xpos self) = length (sb_ypos self) \<and> resolution \<noteq> 0"
  then show "\<exists>w. image_cat self x0 y0 rolldeg blurdeg maxrad resolution = Inr w"
    using image_cat_total by blast
next
  assume h: "image_cat self x0 y0 rolldeg blurdeg maxrad resolution = Inr wc \<and> n < wc_catsize wc"
  define xn where "xn = wc_x wc ! n - x0"
  define yn where "yn = wc_y wc ! n - y0"
  define num_res where "num_res = 0.5 * deg2rad blurdeg * sqrt (xn\<^sup>2 + yn\<^sup>2) / resolution"
  define N where "N = 2 * py_int num_res + 1"
  from h have off: "image_cat_offsets blurdeg resolution xn yn = Inr (wc_dxs wc ! n, wc_dys wc ! n)"
    unfolding xn_def yn_def using image_cat_star by blast
  from image_cat_offsets_eq(2) [OF off]
  have eq: "(wc_dxs wc ! n, wc_dys wc ! n) =
      (if N \<le> 2 then ([0], [0])
       else (map (\<lambda>a. fst (rotate_position xn yn a) - xn) (blur_angles blurdeg N),
             map (\<lambda>a. snd (rotate_position xn yn a) - yn) (blur_angles blurdeg N)))"
    unfolding Let_def N_def num_res_def .
  have a: "odd N" unfolding N_def by simp
  have b: "0 \<le> num_res \<longrightarrow> N = 2 * \<lfloor>num_res\<rfloor> + 1 \<and> 1 \<le> N"
    unfolding N_def using py_int_nonneg [of num_res] by auto
  have c: "N \<le> 2 \<longrightarrow> wc_dxs wc ! n = [0] \<and> wc_dys wc ! n = [0]"
    using eq by auto
  have d: "2 < N \<longrightarrow>
                length (blur_angles blurdeg N) = nat N
              \<and> hd (blur_angles blurdeg N) = - blurdeg / 2
              \<and> last (blur_angles blurdeg N) = blurdeg / 2
              \<and> wc_dxs wc ! n = map (\<lambda>a. fst (rotate_position xn yn a) - xn) (blur_angles blurdeg N)
              \<and> wc_dys wc ! n = map (\<lambda>a. snd (rotate_position xn yn a) - yn) (blur_angles blurdeg N)"
    using eq blur_angles_ends [of N blurdeg] by auto
  from a b c d show "let xn = wc_x wc ! n - x0;
           yn = wc_y wc ! n - y0;
           num_res = 0.5 * deg2rad blurdeg * sqrt (xn\<^sup>2 + yn\<^sup>2) / resolution;
           N = 2 * py_int num_res + 1
       in odd N
          \<and> (0 \<le> num_res \<longrightarrow> N = 2 * \<lfloor>num_res\<rfloor> + 1 \<and> 1 \<le> N)
          \<and> (N \<le> 2 \<longrightarrow> wc_dxs wc ! n = [0] \<and> wc_dys wc ! n = [0])
          \<and> (2 < N \<longrightarrow>
                length (blur_angles blurdeg N) = nat N
              \<and> hd (blur_angles blurdeg N) = - blurdeg / 2
              \<and> last (blur_angles blurdeg N) = blurdeg / 2
              \<and> wc_dxs wc ! n = map (\<lambda>a. fst (rotate_position xn yn a) - xn) (blur_angles blurdeg N)
              \<and> wc_dys wc ! n = map (\<lambda>a. snd (rotate_position xn yn a) - yn) (blur_angles blurdeg N))"
    unfolding Let_def xn_def [symmetric] yn_def [symmetric] num_res_def [symmetric] N_def [symmetric]
    by blast
qed


lemma pi_ge_three: "3 \<le> pi"
proof -
  have "sin (pi / 6) \<le> pi / 6"
    by (rule sin_x_le_x) simp
  then show ?thesis by (simp add: sin_30)
qed

lemma py_int_pi:
  "py_int pi = 3" "py_int (- pi) = - 3" "py_int (- (pi / 8)) = 0" "\<lfloor>- (pi / 8)\<rfloor> = - 1"
proof -
  have b: "3 \<le> pi" "pi < 4" using pi_ge_three pi_less_4 by simp_all
  have "\<lfloor>pi\<rfloor> = 3" using b by (intro floor_unique) simp_all
  then show "py_int pi = 3" using b by (simp add: py_int_def)
  have "\<lceil>- pi\<rceil> = - 3" using b by (intro ceiling_unique) simp_all
  then show "py_int (- pi) = - 3" using b by (simp add: py_int_def)
  have "\<lceil>- (pi / 8)\<rceil> = 0" using b by (intro ceiling_unique) simp_all
  moreover have "\<not> 0 \<le> - (pi / 8)" using b by simp
  ultimately show "py_int (- (pi / 8)) = 0" by (simp only: py_int_def if_False)
  show "\<lfloor>- (pi / 8)\<rfloor> = - 1" using b by (intro floor_unique) simp_all
qed

lemma rotate_cat_single:
  "rotate_cat \<lparr>sb_xpos = [1], sb_ypos = [0], sb_fscale = [1], sb_catsize = 1,
                sb_psf_ids = [], sb_psfs = []\<rparr> 0 None = Inr ([1], [0])"
  by (simp add: rotate_cat_def rotate_position_arr_def np_binop_def deg2rad_def)

lemma rotate_cat_pair:
  "rotate_cat \<lparr>sb_xpos = [1 / 8, 1], sb_ypos = [0, 0], sb_fscale = [1, 1 / 2], sb_catsize = 2,
                sb_psf_ids = [], sb_psfs = []\<rparr> 0 None = Inr ([1 / 8, 1], [0, 0])"
  by (simp add: rotate_cat_def rotate_position_arr_def np_binop_def deg2rad_def)

text \<open>
  C4 as stated fails for a negative blur span: with \<open>blurdeg = -180\<close> and resolution
  \<open>1/2\<close>, the star at distance \<open>1/8\<close> has \<open>num_res = -pi/8\<close> and \<open>N = 1\<close> where
  \<open>2 floor(num_res) + 1 = -1\<close>, and the star at distance \<open>1\<close> has \<open>num_res = -pi\<close>
  and \<open>N = -5\<close>, below 1.
\<close>

theorem image_cat_negative_blur:
  "image_cat \<lparr>sb_xpos = [1 / 8, 1], sb_ypos = [0, 0], sb_fscale = [1, 1 / 2], sb_catsize = 2,
              sb_psf_ids = [], sb_psfs = []\<rparr> 0 0 0 (- 180) None (1 / 2)
     = Inr \<lparr>wc_catsize = 2, wc_x = [1 / 8, 1], wc_y = [0, 0], wc_fscale = [1, 1 / 2],
            wc_dxs = [[0], [0]], wc_dys = [[0], [0]], wc_coeff = [None, None]\<rparr>
   \<and> 2 * py_int (0.5 * deg2rad (- 180) * sqrt ((1 / 8)\<^sup>2 + 0\<^sup>2) / (1 / 2)) + 1 = 1
   \<and> 2 * \<lfloor>0.5 * deg2rad (- 180) * sqrt ((1 / 8)\<^sup>2 + 0\<^sup>2) / (1 / 2)\<rfloor> + 1 = (- 1 :: int)
   \<and> 2 * py_int (0.5 * deg2rad (- 180) * sqrt (1\<^sup>2 + 0\<^sup>2) / (1 / 2)) + 1 = - 5
   \<and> \<not> 1 \<le> 2 * py_int (0.5 * deg2rad (- 180) * sqrt (1\<^sup>2 + 0\<^sup>2) / (1 / 2)) + 1"
proof -
  have nr0: "0.5 * deg2rad (- 180) * sqrt ((1 / 8)\<^sup>2 + 0\<^sup>2) / (1 / 2) = - (pi / 8)"
    by (simp add: deg2rad_def real_sqrt_divide)
  have nr1: "0.5 * deg2rad (- 180) * sqrt (1\<^sup>2 + 0\<^sup>2) / (1 / 2) = - pi"
    by (simp add: deg2rad_def)
  have bs0: "blur_samples (- 180) (1 / 2) (sqrt ((1 / 8)\<^sup>2 + 0\<^sup>2)) = Inr 1"
    unfolding blur_samples_def Let_def nr0 by (simp add: py_int_pi)
  have bs1: "blur_samples (- 180) (1 / 2) (sqrt (1\<^sup>2 + 0\<^sup>2)) = Inr (- 5)"
    unfolding blur_samples_def Let_def nr1 by (simp add: py_int_pi)
  have off0: "image_cat_offsets (- 180) (1 / 2) (1 / 8) 0 = Inr ([0], [0])"
    unfolding image_cat_offsets_def bs0 by simp
  have off1: "image_cat_offsets (- 180) (1 / 2) 1 0 = Inr ([0], [0])"
    unfolding image_cat_offsets_def bs1 by simp
  have "image_cat \<lparr>sb_xpos = [1 / 8, 1], sb_ypos = [0, 0], sb_fscale = [1, 1 / 2], sb_catsize = 2,
              sb_psf_ids = [], sb_psfs = []\<rparr> 0 0 0 (- 180) None (1 / 2)
     = Inr \<lparr>wc_catsize = 2, wc_x = [1 / 8, 1], wc_y = [0, 0], wc_fscale = [1, 1 / 2],
            wc_dxs = [[0], [0]], wc_dys = [[0], [0]], wc_coeff = [None, None]\<rparr>"
    unfolding image_cat_def rotate_cat_pair
    by (simp add: off0 off1 WorkCat_init_def)
  then show ?thesis
    unfolding nr0 nr1 by (simp add: py_int_pi)
qed

theorem image_cat_blur_offsets_witness:
  "image_cat \<lparr>sb_xpos = [1], sb_ypos = [0], sb_fscale = [1], sb_catsize = 1,
              sb_psf_ids = [], sb_psfs = []\<rparr> 0 0 0 0 None (1 / 2)
     = Inr \<lparr>wc_catsize = 1, wc_x = [1], wc_y = [0], wc_fscale = [1],
            wc_dxs = [[0]], wc_dys = [[0]], wc_coeff = [None]\<rparr>
   \<and> (\<exists>w. image_cat \<lparr>sb_xpos = [1], sb_ypos = [0], sb_fscale = [1], sb_catsize = 1,
              sb_psf_ids = [], sb_psfs = []\<rparr> 0 0 0 180 None (1 / 2) = Inr w
          \<and> 0 < wc_catsize w
          \<and> 2 * py_int (0.5 * deg2rad 180 * sqrt ((wc_x w ! 0 - 0)\<^sup>2 + (wc_y w ! 0 - 0)\<^sup>2) / (1 / 2)) + 1 = 7
          \<and> length (wc_dxs w ! 0) = 7
          \<and> wc_dxs w ! 0 = map (\<lambda>a. fst (rotate_position 1 0 a) - 1) (blur_angles 180 7))"
proof -
  let ?sb = "\<lparr>sb_xpos = [1], sb_ypos = [0], sb_fscale = [1], sb_catsize = 1,
              sb_psf_ids = [], sb_psfs = []\<rparr>"
  have off: "image_cat_offsets 0 (1 / 2) 1 0 = Inr ([0], [0])"
    by (simp add: image_cat_offsets_def blur_samples_def deg2rad_def py_int_def)
  have first: "image_cat ?sb 0 0 0 0 None (1 / 2)
     = Inr \<lparr>wc_catsize = 1, wc_x = [1], wc_y = [0], wc_fscale = [1],
            wc_dxs = [[0]], wc_dys = [[0]], wc_coeff = [None]\<rparr>"
    unfolding image_cat_def rotate_cat_single
    by (simp add: off WorkCat_init_def)
  have "length (sb_xpos ?sb) = length (sb_ypos ?sb) \<and> (1 / 2 :: real) \<noteq> 0" by simp
  with image_cat_blur_offsets [where self = ?sb and ?x0.0 = 0 and ?y0.0 = 0 and rolldeg = 0
      and blurdeg = 180 and maxrad = None and resolution = "1 / 2"]
  obtain w where w: "image_cat ?sb 0 0 0 180 None (1 / 2) = Inr w" by blast
  from w obtain dxs dys where
    wc: "w = WorkCat_init (map (\<lambda>v. v + 0) [1]) (map (\<lambda>v. v + 0) [0])
                (take (length [1 :: real]) (sb_fscale ?sb)) dxs dys"
    using rotate_cat_single by (auto elim!: image_cat_Inr)
  then have c: "0 < wc_catsize w" and x: "wc_x w ! 0 - 0 = 1" and y: "wc_y w ! 0 - 0 = 0"
    by (simp_all add: WorkCat_init_def)
  have nr: "0.5 * deg2rad 180 * sqrt (1\<^sup>2 + 0\<^sup>2) / (1 / 2) = pi"
    by (simp add: deg2rad_def)
  have N': "2 * py_int (0.5 * deg2rad 180 * sqrt (1\<^sup>2 + 0\<^sup>2) / (1 / 2)) + 1 = 7"
    unfolding nr by (simp add: py_int_pi)
  have N: "2 * py_int (0.5 * deg2rad 180 * sqrt ((wc_x w ! 0 - 0)\<^sup>2 + (wc_y w ! 0 - 0)\<^sup>2) / (1 / 2)) + 1 = 7"
    unfolding x y by (rule N')
  have "image_cat ?sb 0 0 0 180 None (1 / 2) = Inr w \<and> 0 < wc_catsize w"
    using w c by simp
  with image_cat_blur_offsets [where self = ?sb and ?x0.0 = 0 and ?y0.0 = 0 and rolldeg = 0
      and blurdeg = 180 and maxrad = None and resolution = "1 / 2" and wc = w and n = 0]
  have "let xn = wc_x w ! 0 - 0;
           yn = wc_y w ! 0 - 0;
           num_res = 0.5 * deg2rad 180 * sqrt (xn\<^sup>2 + yn\<^sup>2) / (1 / 2);
           N = 2 * py_int num_res + 1
       in odd N
          \<and> (0 \<le> num_res \<longrightarrow> N = 2 * \<lfloor>num_res\<rfloor> + 1 \<and> 1 \<le> N)
          \<and> (N \<le> 2 \<longrightarrow> wc_dxs w ! 0 = [0] \<and> wc_dys w ! 0 = [0])
          \<and> (2 < N \<longrightarrow>
                length (blur_angles 180 N) = nat N
              \<and> hd (blur_angles 180 N) = - 180 / 2
              \<and> last (blur_angles 180 N) = 180 / 2
              \<and> wc_dxs w ! 0 = map (\<lambda>a. fst (rotate_position xn yn a) - xn) (blur_angles 180 N)
              \<and> wc_dys w ! 0 = map (\<lambda>a. snd (rotate_position xn yn a) - yn) (blur_angles 180 N))"
    by blast
  then have "(2 :: int) < 7 \<longrightarrow>
                length (blur_angles 180 7) = nat 7
              \<and> hd (blur_angles 180 7) = - 180 / 2
              \<and> last (blur_angles 180 7) = 180 / 2
              \<and> wc_dxs w ! 0 = map (\<lambda>a. fst (rotate_position 1 0 a) - 1) (blur_angles 180 7)
              \<and> wc_dys w ! 0 = map (\<lambda>a. snd (rotate_position 1 0 a) - 0) (blur_angles 180 7)"
    unfolding Let_def x y N' by blast
  then have "length (wc_dxs w ! 0) = 7
      \<and> wc_dxs w ! 0 = map (\<lambda>a. fst (rotate_position 1 0 a) - 1) (blur_angles 180 7)"
    by simp
  with first w c N show ?thesis by blast
qed

subsection \<open>MultiPSF\<close>

lemma bidx_in_bounds: "k < d \<Longrightarrow> bidx d k = k"
  by (auto simp: bidx_def)

lemma iadd_same_shape:
  assumes "shape2 b = shape2 a"
  shows "\<exists>r. iadd a b = Inr r \<and> shape2 r = shape2 a \<and>
           (\<forall>j i. j < nrows a \<and> i < ncols a \<longrightarrow> cell r j i = cell a j i + cell b j i)"
  using assms
  by (auto simp: iadd_def iop_def broadcastable_def shape2_def bidx_in_bounds)

lemma MultiPSF_loop_sum:
  assumes "shape2 ret = shp"
    and "\<forall>n \<in> set ns. n < length dxs \<and> n < length dys \<and>
           shape2 (psf_sample psf_mod dxs dys x y g c n) = shp"
  shows "\<exists>r. MultiPSF_loop (MultiPSF_init psf_mod dxs dys) x y g c ret ns = Inr r \<and> shape2 r = shp \<and>
           (\<forall>j i. j < fst shp \<and> i < snd shp \<longrightarrow>
              cell r j i = cell ret j i + (\<Sum>n\<leftarrow>ns. cell (psf_sample psf_mod dxs dys x y g c n) j i))"
  using assms
proof (induction ns arbitrary: ret)
  case Nil
  then show ?case by simp
next
  case (Cons n ns)
  let ?E = "psf_sample psf_mod dxs dys x y g c n"
  from Cons.prems have n: "n < length dxs" "n < length dys" and sh: "shape2 ?E = shape2 ret"
    by simp_all
  from iadd_same_shape [OF sh] obtain r1 where
    r1: "iadd ret ?E = Inr r1" "shape2 r1 = shape2 ret"
    "\<forall>j i. j < nrows ret \<and> i < ncols ret \<longrightarrow> cell r1 j i = cell ret j i + cell ?E j i"
    by blast
  have s1: "shape2 r1 = shp" using r1(2) Cons.prems(1) by simp
  from Cons.IH [OF s1] Cons.prems(2) obtain r where
    r: "MultiPSF_loop (MultiPSF_init psf_mod dxs dys) x y g c r1 ns = Inr r" "shape2 r = shp"
    "\<forall>j i. j < fst shp \<and> i < snd shp \<longrightarrow>
        cell r j i = cell r1 j i + (\<Sum>n\<leftarrow>ns. cell (psf_sample psf_mod dxs dys x y g c n) j i)"
    by auto
  have step: "MultiPSF_loop (MultiPSF_init psf_mod dxs dys) x y g c ret (n # ns) = Inr r"
    using n r1(1) r(1)
    by (simp add: nth_exc_def MultiPSF_init_def psf_sample_def)
  have "\<forall>j i. j < fst shp \<and> i < snd shp \<longrightarrow>
        cell r j i = cell ret j i + (\<Sum>n\<leftarrow>n # ns. cell (psf_sample psf_mod dxs dys x y g c n) j i)"
    using r(3) r1(3) Cons.prems(1) by (auto simp: shape2_def)
  with step r(2) show ?case by blast
qed

lemma MultiPSF_mean_aux:
  assumes ne: "dxs \<noteq> []" and len: "length dys = length dxs"
    and sh: "\<forall>n < length dxs. shape2 (psf_sample psf_mod dxs dys x y g c n) = shp"
  shows "\<exists>r. MultiPSF_call (MultiPSF_init psf_mod dxs dys) x y g c = Inr r \<and> shape2 r = shp \<and>
           (\<forall>j i. j < fst shp \<and> i < snd shp \<longrightarrow>
              cell r j i = (\<Sum>n < length dxs. cell (psf_sample psf_mod dxs dys x y g c n) j i)
                             / real (length dxs))"
proof -
  let ?N = "length dxs"
  let ?E = "psf_sample psf_mod dxs dys x y g c"
  have pos: "0 < ?N" using ne by simp
  have s0: "shape2 (?E 0) = shp" using sh pos by simp
  have all: "\<forall>n \<in> set [1..<?N]. n < length dxs \<and> n < length dys \<and> shape2 (?E n) = shp"
    using sh len by simp
  from MultiPSF_loop_sum [OF s0 all] obtain r where
    r: "MultiPSF_loop (MultiPSF_init psf_mod dxs dys) x y g c (?E 0) [1..<?N] = Inr r" "shape2 r = shp"
    "\<forall>j i. j < fst shp \<and> i < snd shp \<longrightarrow>
        cell r j i = cell (?E 0) j i + (\<Sum>n\<leftarrow>[1..<?N]. cell (?E n) j i)"
    by blast
  have call: "MultiPSF_call (MultiPSF_init psf_mod dxs dys) x y g c = Inr (divide_by r (real ?N))"
    using pos len r(1)
    by (simp add: MultiPSF_call_def nth_exc_def MultiPSF_init_def psf_sample_def Let_def)
  have upt: "[0..<?N] = 0 # [1..<?N]" using pos by (simp add: upt_conv_Cons)
  have tot: "cell (?E 0) j i + (\<Sum>n\<leftarrow>[1..<?N]. cell (?E n) j i) = (\<Sum>n < ?N. cell (?E n) j i)" for j i
  proof -
    have "(\<Sum>n < ?N. cell (?E n) j i) = (\<Sum>n\<leftarrow>[0..<?N]. cell (?E n) j i)"
      by (simp add: interv_sum_list_conv_sum_set_nat lessThan_atLeast0)
    also have "\<dots> = cell (?E 0) j i + (\<Sum>n\<leftarrow>[1..<?N]. cell (?E n) j i)"
      unfolding upt by simp
    finally show ?thesis by simp
  qed
  have "shape2 (divide_by r (real ?N)) = shp"
    using r(2) by (simp add: divide_by_def shape2_def)
  moreover have "\<forall>j i. j < fst shp \<and> i < snd shp \<longrightarrow>
      cell (divide_by r (real ?N)) j i = (\<Sum>n < ?N. cell (?E n) j i) / real ?N"
    using r(3) tot by (simp add: divide_by_def)
  ultimately show ?thesis using call by blast
qed

lemma MultiPSF_single_zero:
  "MultiPSF_call (MultiPSF_init psf_mod [0] [0]) x y g c =
     Inr (pm_call psf_mod x y (Some g) (Some c))"
  by (simp add: MultiPSF_call_def MultiPSF_init_def nth_exc_def divide_by_def)


text \<open>
  C5. A MultiPSF with \<open>N \<ge> 1\<close> offsets \<open>(dx\<^sub>n, dy\<^sub>n)\<close>, whose \<open>N\<close> evaluations of
  the PSF model have one shape, returns at every sample point the arithmetic mean of
  \<open>psf_model(x - dx\<^sub>n, y - dy\<^sub>n)\<close>, called with the same \<open>grid\<close> and \<open>circular\<close>
  flags; with the single offset \<open>(0, 0)\<close> it returns the evaluation of the PSF model
  itself.
\<close>

theorem MultiPSF_mean:
  "(dxs \<noteq> [] \<and> length dys = length dxs \<and>
    (\<forall>n < length dxs. shape2 (psf_sample psf_mod dxs dys x y g c n) = shp) \<longrightarrow>
      (\<exists>r. MultiPSF_call (MultiPSF_init psf_mod dxs dys) x y g c = Inr r \<and> shape2 r = shp \<and>
           (\<forall>j i. j < fst shp \<and> i < snd shp \<longrightarrow>
              cell r j i = (\<Sum>n < length dxs. cell (psf_sample psf_mod dxs dys x y g c n) j i)
                             / real (length dxs))))
   \<and> MultiPSF_call (MultiPSF_init psf_mod [0] [0]) x y g c =
       Inr (pm_call psf_mod x y (Some g) (Some c))"
  using MultiPSF_mean_aux [of dxs dys psf_mod x y g c shp] MultiPSF_single_zero [of psf_mod x y g c]
  by blast

theorem MultiPSF_mean_witness:
  "[0, 1 :: real] \<noteq> [] \<and> length [0, 2 :: real] = length [0, 1 :: real]
   \<and> (\<exists>r. MultiPSF_call
             (MultiPSF_init
                \<lparr>pm_call = \<lambda>xs ys g c. \<lparr>nrows = length ys, ncols = length xs,
                                          cell = \<lambda>j i. xs ! i * ys ! j\<rparr>,
                 pm_norm = 1\<rparr> [0, 1] [0, 2]) [1, 2] [3] True True = Inr r
          \<and> shape2 r = (1, 2) \<and> cell r 0 1 = 7 / 2)
   \<and> MultiPSF_call
        (MultiPSF_init
           \<lparr>pm_call = \<lambda>xs ys g c. \<lparr>nrows = length ys, ncols = length xs,
                                     cell = \<lambda>j i. xs ! i * ys ! j\<rparr>,
            pm_norm = 1\<rparr> [0] [0]) [1, 2] [3] True True
      = Inr \<lparr>nrows = 1, ncols = 2, cell = \<lambda>j i. [1, 2] ! i * [3] ! j\<rparr>"
proof -
  let ?psf = "\<lparr>pm_call = \<lambda>xs ys g c. \<lparr>nrows = length ys, ncols = length xs,
                                          cell = \<lambda>j i. xs ! i * ys ! j :: real\<rparr>,
                 pm_norm = 1\<rparr>"
  have sh: "\<forall>n < length [0, 1 :: real].
      shape2 (psf_sample ?psf [0, 1] [0, 2] [1, 2] [3] True True n) = (1, 2)"
    by (simp add: psf_sample_def shape2_def)
  have s2: "(\<Sum>n < length [0, 1 :: real]. cell (psf_sample ?psf [0, 1] [0, 2] [1, 2] [3] True True n) 0 1)
      / real (length [0, 1 :: real]) = 7 / 2"
    by (simp add: psf_sample_def lessThan_Suc eval_nat_numeral)
  from MultiPSF_mean [where dxs = "[0, 1]" and dys = "[0, 2]" and psf_mod = ?psf
      and x = "[1, 2]" and y = "[3]" and g = True and c = True and shp = "(1, 2)"] sh
  obtain r where r: "MultiPSF_call (MultiPSF_init ?psf [0, 1] [0, 2]) [1, 2] [3] True True = Inr r"
    "shape2 r = (1, 2)"
    "\<forall>j i. j < fst (1 :: nat, 2 :: nat) \<and> i < snd (1 :: nat, 2 :: nat) \<longrightarrow>
       cell r j i = (\<Sum>n < length [0, 1 :: real].
          cell (psf_sample ?psf [0, 1] [0, 2] [1, 2] [3] True True n) j i) / real (length [0, 1 :: real])"
    by auto
  from r(3) have "cell r 0 1 = (\<Sum>n < length [0, 1 :: real].
          cell (psf_sample ?psf [0, 1] [0, 2] [1, 2] [3] True True n) 0 1) / real (length [0, 1 :: real])"
    by simp
  with s2 have c: "cell r 0 1 = 7 / 2" by simp
  have z: "MultiPSF_call (MultiPSF_init ?psf [0] [0]) [1, 2] [3] True True
      = Inr \<lparr>nrows = 1, ncols = 2, cell = \<lambda>j i. [1, 2] ! i * [3] ! j\<rparr>"
    using MultiPSF_mean [where psf_mod = ?psf and x = "[1, 2]" and y = "[3]" and g = True and c = True]
    by simp
  from r(1,2) c z show ?thesis by auto
qed

subsection \<open>Image of the background stars\<close>

lemma image_render_no_overlap:
  "find_area_inds (x0 + dx ! n) (y0 + dy ! n) shape (psf_radii (sb_fscale self ! n)) = None \<Longrightarrow>
   image_render self x0 y0 dx dy shape img n = Inr img"
  by (simp add: image_render_def Let_def)

lemma image_step_skipped:
  "n \<in> set skip \<Longrightarrow> image_step self x0 y0 dx dy shape skip limflux img n = Inr img"
  by (simp add: image_step_def)

lemma image_step_faint:
  "n < length (sb_fscale self) \<Longrightarrow> sb_fscale self ! n < limflux \<Longrightarrow>
   image_step self x0 y0 dx dy shape skip limflux img n = Inr img"
  by (simp add: image_step_def nth_exc_def)

lemma image_step_cases:
  assumes "n < length (sb_fscale self)" and "n < length dx" and "n < length dy"
  shows "image_step self x0 y0 dx dy shape skip limflux img n =
           (if image_contributes self x0 y0 dx dy shape skip limflux n
            then image_render self x0 y0 dx dy shape img n else Inr img)"
proof (cases "find_area_inds (x0 + dx ! n) (y0 + dy ! n) shape (psf_radii (sb_fscale self ! n))")
  case None
  with assms image_render_no_overlap [OF None] show ?thesis
    by (simp add: image_step_def nth_exc_def image_contributes_def)
next
  case (Some inds)
  with assms show ?thesis
    by (simp add: image_step_def nth_exc_def image_contributes_def)
qed

lemma fold_exc_filter:
  assumes "\<And>s x. x \<in> set xs \<Longrightarrow> f s x = (if P x then g s x else Inr s)"
  shows "fold_exc f s xs = fold_exc g s (filter P xs)"
  using assms
proof (induction xs arbitrary: s)
  case Nil
  then show ?case by simp
next
  case (Cons x xs)
  have step: "f s x = (if P x then g s x else Inr s)"
    using Cons.prems by simp
  have rest: "fold_exc f s' xs = fold_exc g s' (filter P xs)" for s'
    using Cons.IH Cons.prems by simp
  show ?case
  proof (cases "P x")
    case True
    with step rest show ?thesis
      by (cases "g s x") simp_all
  next
    case False
    with step rest show ?thesis by simp
  qed
qed

lemma rotate_cat_None_length:
  assumes "star_bg_ok self" and "rotate_cat self rolldeg None = Inr (dx, dy)"
  shows "length dx = sb_catsize self" and "length dy = sb_catsize self"
proof -
  have len: "length (sb_xpos self) = length (sb_ypos self)"
    using assms(1) by (simp add: star_bg_ok_def)
  from assms(2) rotate_position_arr_eq [OF len, of rolldeg]
  have "dx = map (\<lambda>(x, y). fst (rotate_position x y rolldeg)) (zip (sb_xpos self) (sb_ypos self))"
    "dy = map (\<lambda>(x, y). snd (rotate_position x y rolldeg)) (zip (sb_xpos self) (sb_ypos self))"
    by (simp_all add: rotate_cat_def)
  then show "length dx = sb_catsize self" and "length dy = sb_catsize self"
    using assms(1) by (simp_all add: star_bg_ok_def)
qed

lemma rotate_cat_None_total:
  assumes "star_bg_ok self"
  shows "\<exists>dx dy. rotate_cat self rolldeg None = Inr (dx, dy)"
proof -
  have len: "length (sb_xpos self) = length (sb_ypos self)"
    using assms(1) by (simp add: star_bg_ok_def)
  from rotate_position_arr_eq [OF len, of rolldeg] show ?thesis
    by (simp add: rotate_cat_def)
qed

lemma image_as_fold:
  assumes ok: "star_bg_ok self" and rc: "rotate_cat self rolldeg None = Inr (dx, dy)"
  shows "image self x0 y0 rolldeg shape skip limflux None =
           fold_exc (image_render self x0 y0 dx dy shape) (zeros shape)
             (filter (image_contributes self x0 y0 dx dy shape skip limflux) [0..<sb_catsize self])"
proof -
  have l: "length dx = sb_catsize self" "length dy = sb_catsize self"
    using rotate_cat_None_length [OF ok rc] by simp_all
  have f: "length (sb_fscale self) = sb_catsize self"
    using ok by (simp add: star_bg_ok_def)
  have "fold_exc (image_step self x0 y0 dx dy shape skip limflux) (zeros shape) [0..<sb_catsize self]
      = fold_exc (image_render self x0 y0 dx dy shape) (zeros shape)
          (filter (image_contributes self x0 y0 dx dy shape skip limflux) [0..<sb_catsize self])"
    by (rule fold_exc_filter) (simp add: image_step_cases l f)
  then show ?thesis
    by (simp add: image_def rc Let_def)
qed


lemma image_example_ids:
  assumes "star_bg_ok self" and "sb_fscale self = [1, 1 / 20, 1 / 1000000]"
  shows "filter (image_contributes self x0 y0 dx dy shape [] (1 / 100000)) [0..<sb_catsize self] =
         filter (\<lambda>n. find_area_inds (x0 + dx ! n) (y0 + dy ! n) shape
                        (psf_radii (sb_fscale self ! n)) \<noteq> None) [0, 1]"
proof -
  have c: "sb_catsize self = 3"
    using assms by (simp add: star_bg_ok_def)
  have u: "[0..<3] = [0, 1, 2]"
    by (simp add: upt_conv_Cons)
  show ?thesis
    unfolding c u using assms(2) by (simp add: image_contributes_def)
qed

lemma psf_radii_values: "psf_radii 1 = 100" "psf_radii (1 / 20) = 63"
proof -
  show "psf_radii 1 = 100"
    by (simp add: psf_radii_def)
  have "25 + 75 * (1 / 20 - 1 / 10000) / (1 / 10 - 1 / 10000) = (2770 / 37 - 1 * 0 :: real) - 0 * 0 - (2770 / 37 - (25 + 75 * (1 / 20 - 1 / 10000) / (1 / 10 - 1 / 10000)))"
    by simp
  have v: "(25 + 75 * (1 / 20 - 1 / 10000) / (1 / 10 - 1 / 10000) :: real) = 20800 / 333"
    by simp
  have "\<lceil>20800 / 333 :: real\<rceil> = 63"
    by (intro ceiling_unique) simp_all
  then show "psf_radii (1 / 20) = 63"
    unfolding psf_radii_def Let_def v by simp
qed


subsection \<open>Refinement of the background model\<close>





lemma linspace_symmetric:
  assumes "0 \<le> r"
  shows "linspace (real_of_int (- r)) (real_of_int r) (2 * r + 1) =
           Inr (map (\<lambda>k. real k - real_of_int r) [0..<nat (2 * r + 1)])"
proof (cases "r = 0")
  case True
  then show ?thesis by (simp add: linspace_def)
next
  case False
  with assms have pos: "0 < r" by simp
  then have "(real_of_int r - real_of_int (- r)) / real_of_int (2 * r + 1 - 1) = 1"
    by simp
  then have "real_of_int (- r) + real k * ((real_of_int r - real_of_int (- r)) / real_of_int (2 * r + 1 - 1))
      = real k - real_of_int r" for k
    by simp
  with pos show ?thesis
    by (simp add: linspace_def)
qed




lemma refine_star_render_raises:
  assumes "refine_render psfs psf_ids (shape2 D) (rs_work_cat s) kx ky k = Inl e"
  shows "refine_star fit D noise vm pn psf_ids psfs ks kr selk kx ky s k = (s, Some e)"
  by (simp add: refine_star_def assms)

lemma refine_star_add_raises:
  assumes rr: "refine_render psfs psf_ids (shape2 D) (rs_work_cat s) kx ky k = Inr (psf_mod, star_img)"
    and sub: "isub (rs_model s) (scale pn star_img) = Inr model1"
    and ft: "bind_exc (refine_fit_args D noise vm ks kr (rs_work_cat s) psf_mod model1 k) fit
               = Inr (fitstar_img, kmat)"
    and add: "iadd model1 fitstar_img = Inl e"
  shows "refine_star fit D noise vm pn psf_ids psfs ks kr selk kx ky s k
           = (s\<lparr>rs_model := model1\<rparr>, Some e)"
  by (simp add: refine_star_def rr sub ft add Let_def)












subsection \<open>A worked refinement step\<close>

text \<open>
  A frame of 2 by 2 pixels, one star at the origin with flux scale \<open>1 / 10000\<close>, a PSF model
  that is 1 everywhere, and a fit that either returns a 3 by 3 kernel of ones or raises.
  The slices of a window inside the frame first.
\<close>

lemma slice_bounds_inside:
  assumes "0 \<le> lo" and "lo \<le> hi" and "hi \<le> int n"
  shows "slice_bounds n lo hi = (nat lo, nat hi)"
  using assms by (simp add: slice_bounds_def Let_def min_def max_def)

lemma slice2_inside:
  assumes "0 \<le> r0" "r0 \<le> r1" "r1 \<le> int (nrows a)" "0 \<le> c0" "c0 \<le> c1" "c1 \<le> int (ncols a)"
  shows "slice2 a (r0, r1) (c0, c1) =
           \<lparr>nrows = nat r1 - nat r0, ncols = nat c1 - nat c0,
            cell = \<lambda>j i. cell a (nat r0 + j) (nat c0 + i)\<rparr>"
  using assms by (simp add: slice2_def slice_bounds_inside)

lemma slice_iadd_inside:
  assumes "0 \<le> r0" "r0 \<le> r1" "r1 \<le> int (nrows a)" "0 \<le> c0" "c0 \<le> c1" "c1 \<le> int (ncols a)"
    and "shape2 b = (nat r1 - nat r0, nat c1 - nat c0)"
  shows "slice_iadd a (r0, r1) (c0, c1) b =
           Inr (a\<lparr>cell := \<lambda>j i.
                  if nat r0 \<le> j \<and> j < nat r1 \<and> nat c0 \<le> i \<and> i < nat c1
                  then cell a j i + cell b (j - nat r0) (i - nat c0)
                  else cell a j i\<rparr>)"
proof -
  have b: "bidx (nrows b) (j - nat r0) = j - nat r0" if "nat r0 \<le> j" "j < nat r1" for j
    using that assms(7) by (intro bidx_in_bounds) (simp add: shape2_def)
  have c: "bidx (ncols b) (i - nat c0) = i - nat c0" if "nat c0 \<le> i" "i < nat c1" for i
    using that assms(7) by (intro bidx_in_bounds) (simp add: shape2_def)
  have "(\<lambda>j i. if nat r0 \<le> j \<and> j < nat r1 \<and> nat c0 \<le> i \<and> i < nat c1
                then cell a j i + cell b (bidx (nrows b) (j - nat r0)) (bidx (ncols b) (i - nat c0))
                else cell a j i)
      = (\<lambda>j i. if nat r0 \<le> j \<and> j < nat r1 \<and> nat c0 \<le> i \<and> i < nat c1
                then cell a j i + cell b (j - nat r0) (i - nat c0)
                else cell a j i)"
    using b c by (intro ext) simp
  then show ?thesis
    using assms
    by (simp add: slice_iadd_def slice_bounds_inside broadcastable_def)
qed



lemma psf_image_single:
  assumes "0 \<le> r"
  shows "psf_image x0f y0f [0] [0] p r =
           Inr (pm_call p (map (\<lambda>t. t - x0f) (map (\<lambda>k. real k - real_of_int r) [0..<nat (2 * r + 1)]))
                          (map (\<lambda>t. t - y0f) (map (\<lambda>k. real k - real_of_int r) [0..<nat (2 * r + 1)]))
                          (Some True) (Some True))"
  unfolding psf_image_def linspace_symmetric [OF assms]
  by (simp add: MultiPSF_single_zero Let_def)










subsection \<open>Background-star masks\<close>

text \<open>
  Both masks accumulate one 0/1 footprint per star on a frame of zeros and return
  \<^verbatim>\<open>frame == 0\<close>. A footprint added to a frame is the footprint added to an empty
  frame of the same shape, cell by cell; a sum of non-negative footprints is zero exactly
  where each of them is.
\<close>

lemma zeros_shape [simp]:
  "nrows (zeros s) = fst s" "ncols (zeros s) = snd s" "cell (zeros s) j i = 0"
  "shape2 (zeros s) = s"
  by (simp_all add: zeros_def shape2_def)

lemma slice_iadd_zeros:
  "slice_iadd a rows cols b =
     (case slice_iadd (zeros (shape2 a)) rows cols b of
        Inl e \<Rightarrow> Inl e
      | Inr z \<Rightarrow> Inr (a\<lparr>cell := \<lambda>j i. cell a j i + cell z j i\<rparr>))"
  by (auto simp: slice_iadd_def shape2_def Let_def fun_eq_iff split: prod.splits)

lemma slice_iadd_zeros_mask:
  assumes "slice_iadd (zeros s) rows cols (as_real m) = Inr z"
  shows "cell z j i = 0 \<or> cell z j i = 1"
  using assms
  by (auto simp: slice_iadd_def as_real_def Let_def split: prod.splits if_splits)

lemma add_circle_zeros:
  "add_circle a x0 y0 radius =
     (case add_circle (zeros (shape2 a)) x0 y0 radius of
        Inl e \<Rightarrow> Inl e
      | Inr z \<Rightarrow> Inr (a\<lparr>cell := \<lambda>j i. cell a j i + cell z j i\<rparr>))"
proof -
  have "add_circle a x0 y0 radius =
     (let im_rad = py_int (radius + 1);
          x0i = py_int x0; y0i = py_int y0;
          x0f = x0 - real_of_int x0i; y0f = y0 - real_of_int y0i;
          (xi0, xi1, xj0, xj1) = find_inds (int (ncols a)) x0i im_rad;
          (yi0, yi1, yj0, yj1) = find_inds (int (nrows a)) y0i im_rad
      in bind_exc (linspace (real_of_int (- im_rad)) (real_of_int im_rad) (2 * im_rad + 1)) (\<lambda>v.
           let circ_frame = \<lparr>nrows = length v, ncols = length v,
                             cell = \<lambda>j i. (v ! i - x0f)\<^sup>2 + (v ! j - y0f)\<^sup>2 \<le> radius\<^sup>2\<rparr>
           in case slice_iadd (zeros (shape2 a)) (yi0, yi1) (xi0, xi1)
                (as_real (slice2 circ_frame (yj0, yj1) (xj0, xj1))) of
                Inl e \<Rightarrow> Inl e
              | Inr z \<Rightarrow> Inr (a\<lparr>cell := \<lambda>j i. cell a j i + cell z j i\<rparr>)))"
    unfolding add_circle_def by (subst slice_iadd_zeros) (rule refl)
  also have "\<dots> = (case add_circle (zeros (shape2 a)) x0 y0 radius of
        Inl e \<Rightarrow> Inl e
      | Inr z \<Rightarrow> Inr (a\<lparr>cell := \<lambda>j i. cell a j i + cell z j i\<rparr>))"
    by (simp add: add_circle_def Let_def bind_exc_def shape2_def split: prod.splits sum.splits)
  finally show ?thesis .
qed

lemma add_circle_zeros_mask:
  assumes "add_circle (zeros s) x0 y0 radius = Inr z"
  shows "cell z j i = 0 \<or> cell z j i = 1"
  using assms
  by (auto simp: add_circle_def Let_def bind_exc_def split: prod.splits sum.splits
           dest: slice_iadd_zeros_mask)

lemma add_psf_mask_zeros:
  "add_psf_mask a x0 y0 dxs dys psf_mod kmat radius level =
     (case add_psf_mask (zeros (shape2 a)) x0 y0 dxs dys psf_mod kmat radius level of
        Inl e \<Rightarrow> Inl e
      | Inr z \<Rightarrow> Inr (a\<lparr>cell := \<lambda>j i. cell a j i + cell z j i\<rparr>))"
proof -
  have "add_psf_mask a x0 y0 dxs dys psf_mod kmat radius level =
     (let x0i = py_int x0; y0i = py_int y0;
          x0f = x0 - real_of_int x0i; y0f = y0 - real_of_int y0i;
          (xi0, xi1, xj0, xj1) = find_inds (int (ncols a)) x0i radius;
          (yi0, yi1, yj0, yj1) = find_inds (int (nrows a)) y0i radius
      in bind_exc (star_frame_of x0f y0f dxs dys psf_mod kmat radius) (\<lambda>star_frame.
         bind_exc (np_max star_frame) (\<lambda>peak.
           case slice_iadd (zeros (shape2 a)) (yi0, yi1) (xi0, xi1)
             (as_real (gt_scalar (slice2 star_frame (yj0, yj1) (xj0, xj1)) (level * peak))) of
                Inl e \<Rightarrow> Inl e
              | Inr z \<Rightarrow> Inr (a\<lparr>cell := \<lambda>j i. cell a j i + cell z j i\<rparr>))))"
    unfolding add_psf_mask_def by (subst slice_iadd_zeros) (rule refl)
  also have "\<dots> = (case add_psf_mask (zeros (shape2 a)) x0 y0 dxs dys psf_mod kmat radius level of
        Inl e \<Rightarrow> Inl e
      | Inr z \<Rightarrow> Inr (a\<lparr>cell := \<lambda>j i. cell a j i + cell z j i\<rparr>))"
    by (simp add: add_psf_mask_def Let_def bind_exc_def shape2_def split: prod.splits sum.splits)
  finally show ?thesis .
qed

lemma add_psf_mask_zeros_mask:
  assumes "add_psf_mask (zeros s) x0 y0 dxs dys psf_mod kmat radius level = Inr z"
  shows "cell z j i = 0 \<or> cell z j i = 1"
  using assms
  by (auto simp: add_psf_mask_def Let_def bind_exc_def split: prod.splits sum.splits
           dest: slice_iadd_zeros_mask)

lemma mask_fold:
  fixes step :: "real array2 \<Rightarrow> nat \<Rightarrow> py_error + real array2"
    and inc :: "nat \<times> nat \<Rightarrow> nat \<Rightarrow> py_error + real array2"
  assumes step: "\<And>f n. step f n =
            (if n \<in> set skip then Inr f
             else case inc (shape2 f) n of
                    Inl e \<Rightarrow> Inl e
                  | Inr z \<Rightarrow> Inr (f\<lparr>cell := \<lambda>j i. cell f j i + cell z j i\<rparr>))"
    and nonneg: "\<forall>s n z j i. inc s n = Inr z \<longrightarrow> 0 \<le> cell z j i"
    and run: "fold_exc step f0 ns = Inr f"
    and f0: "\<And>j i. 0 \<le> cell f0 j i"
  shows "shape2 f = shape2 f0 \<and>
         (\<forall>n \<in> set ns. n \<notin> set skip \<longrightarrow> (\<exists>z. inc (shape2 f0) n = Inr z)) \<and>
         (\<forall>j i. 0 \<le> cell f j i \<and>
            (cell f j i = 0 \<longleftrightarrow>
               cell f0 j i = 0 \<and>
               (\<forall>n \<in> set ns. n \<notin> set skip \<longrightarrow>
                  (\<forall>z. inc (shape2 f0) n = Inr z \<longrightarrow> cell z j i = 0))))"
  using run f0
proof (induction ns arbitrary: f0)
  case Nil
  then show ?case by simp
next
  case (Cons n ns)
  from Cons.prems(1) obtain f1 where s1: "step f0 n = Inr f1" and rest: "fold_exc step f1 ns = Inr f"
    by (auto simp: bind_exc_def split: sum.splits)
  show ?case
  proof (cases "n \<in> set skip")
    case True
    with s1 have "f1 = f0" by (simp add: step)
    with Cons.IH [OF rest] Cons.prems(2) True show ?thesis by simp
  next
    case False
    with s1 obtain z where z: "inc (shape2 f0) n = Inr z"
      and f1: "f1 = f0\<lparr>cell := \<lambda>j i. cell f0 j i + cell z j i\<rparr>"
      by (auto simp: step split: sum.splits)
    have zn: "0 \<le> cell z j i" for j i using nonneg z by blast
    have sh: "shape2 f1 = shape2 f0" by (simp add: f1 shape2_def)
    have f1n: "0 \<le> cell f1 j i" for j i
      using Cons.prems(2) [of j i] zn [of j i] by (simp add: f1)
    have f1z: "cell f1 j i = 0 \<longleftrightarrow> cell f0 j i = 0 \<and> cell z j i = 0" for j i
      using Cons.prems(2) [of j i] zn [of j i] by (auto simp: f1)
    from Cons.IH [OF rest f1n] show ?thesis
      unfolding sh by (simp add: f1z z False)
  qed
qed


lemma fold_exc_total:
  assumes "\<And>f n. n \<in> set ns \<Longrightarrow> \<exists>f'. step f n = Inr f'"
  shows "\<exists>f. fold_exc step f0 ns = Inr f"
  using assms
proof (induction ns arbitrary: f0)
  case Nil
  then show ?case by simp
next
  case (Cons n ns)
  from Cons.prems [of n f0] obtain f1 where "step f0 n = Inr f1" by auto
  moreover from Cons.IH [of f1] Cons.prems obtain f where "fold_exc step f1 ns = Inr f"
    by auto
  ultimately show ?case by (simp add: bind_exc_def)
qed

lemma find_inds_window:
  assumes "0 \<le> r" and fi: "find_inds (int n) x r = (i0, i1, j0, j1)"
  shows "0 \<le> i0" "i0 \<le> i1" "i1 \<le> int n" "0 \<le> j0" "j0 \<le> j1" "j1 \<le> 2 * r + 1"
    and "j1 - j0 = i1 - i0"
    and "0 \<le> k \<Longrightarrow> k < int n \<Longrightarrow> (i0 \<le> k \<and> k < i1) \<longleftrightarrow> \<bar>k - x\<bar> \<le> r"
    and "i0 \<le> k \<Longrightarrow> k < i1 \<Longrightarrow> j0 + (k - i0) = k - x + r"
  using assms
  by (auto simp: find_inds_def Let_def split: if_splits)


lemma py_int_frac: "\<bar>v - real_of_int (py_int v)\<bar> < 1"
  unfolding py_int_def by (simp; linarith)

lemma py_int_radius:
  assumes "0 \<le> radius"
  shows "1 \<le> py_int (radius + 1)" and "radius < real_of_int (py_int (radius + 1))"
  using assms unfolding py_int_def by (simp; linarith)+

lemma disc_outside:
  fixes a b r :: real
  assumes "0 \<le> r" and "r < \<bar>a\<bar> \<or> r < \<bar>b\<bar>"
  shows "\<not> a\<^sup>2 + b\<^sup>2 \<le> r\<^sup>2"
proof
  assume le: "a\<^sup>2 + b\<^sup>2 \<le> r\<^sup>2"
  have "a\<^sup>2 \<le> r\<^sup>2" "b\<^sup>2 \<le> r\<^sup>2"
    using le zero_le_power2 [of a] zero_le_power2 [of b] by linarith+
  then have "\<bar>a\<bar> \<le> \<bar>r\<bar>" "\<bar>b\<bar> \<le> \<bar>r\<bar>"
    by (simp_all add: abs_le_square_iff)
  with assms show False by simp
qed

text \<open>
  The window of \<^verbatim>\<open>add_circle\<close> for a non-negative radius lies inside the frame and
  inside the disc image, the two slices have one size, and the disc image is read at the
  offset of the pixel from the star's centre.
\<close>

lemma nat_window:
  fixes i0 i1 j0 j1 :: int
  assumes "0 \<le> i0" "i0 \<le> i1" "0 \<le> j0" "j0 \<le> j1" "j1 - j0 = i1 - i0"
  shows "nat j1 - nat j0 = nat i1 - nat i0"
  using assms by arith

lemma nat_window_idx:
  fixes i0 j0 x m :: int
  assumes "0 \<le> i0" "0 \<le> j0" "i0 \<le> int k" "j0 + (int k - i0) = int k - x + m"
  shows "int (nat j0 + (k - nat i0)) = int k - x + m"
  using assms by arith

lemma add_circle_window:
  assumes m0: "0 \<le> py_int (radius + 1)"
    and wxe: "find_inds (int (snd shape)) (py_int x0) (py_int (radius + 1)) = (xi0, xi1, xj0, xj1)"
    and wye: "find_inds (int (fst shape)) (py_int y0) (py_int (radius + 1)) = (yi0, yi1, yj0, yj1)"
  shows "add_circle (zeros shape) x0 y0 radius =
     Inr ((zeros shape)\<lparr>cell := \<lambda>j i.
        if nat yi0 \<le> j \<and> j < nat yi1 \<and> nat xi0 \<le> i \<and> i < nat xi1
        then of_bool
          ((map (\<lambda>k. real k - real_of_int (py_int (radius + 1))) [0..<nat (2 * py_int (radius + 1) + 1)]
               ! (nat xj0 + (i - nat xi0)) - (x0 - real_of_int (py_int x0)))\<^sup>2
           + (map (\<lambda>k. real k - real_of_int (py_int (radius + 1))) [0..<nat (2 * py_int (radius + 1) + 1)]
               ! (nat yj0 + (j - nat yi0)) - (y0 - real_of_int (py_int y0)))\<^sup>2
           \<le> radius\<^sup>2)
        else 0\<rparr>)"
proof -
  define m where "m = py_int (radius + 1)"
  have m0': "0 \<le> m" using m0 by (simp add: m_def)
  note wx = find_inds_window [OF m0' wxe [folded m_def]]
  note wy = find_inds_window [OF m0' wye [folded m_def]]
  define v where "v = map (\<lambda>k. real k - real_of_int m) [0..<nat (2 * m + 1)]"
  have lv: "length v = nat (2 * m + 1)" by (simp add: v_def)
  define circ where "circ = \<lparr>nrows = length v, ncols = length v,
      cell = \<lambda>j i. (v ! i - (x0 - real_of_int (py_int x0)))\<^sup>2
                    + (v ! j - (y0 - real_of_int (py_int y0)))\<^sup>2 \<le> radius\<^sup>2\<rparr>"
  have cn: "int (nrows circ) = 2 * m + 1" "int (ncols circ) = 2 * m + 1"
    using m0' by (simp_all add: circ_def lv)
  have sl: "slice2 circ (yj0, yj1) (xj0, xj1) =
              \<lparr>nrows = nat yj1 - nat yj0, ncols = nat xj1 - nat xj0,
               cell = \<lambda>j i. cell circ (nat yj0 + j) (nat xj0 + i)\<rparr>"
    by (rule slice2_inside) (simp_all only: cn wx(4-6) wy(4-6))
  define B where "B = as_real (slice2 circ (yj0, yj1) (xj0, xj1))"
  have Bsh: "shape2 B = (nat yi1 - nat yi0, nat xi1 - nat xi0)"
    unfolding B_def sl as_real_def shape2_def
    using nat_window [OF wx(1,2,4,5,7)] nat_window [OF wy(1,2,4,5,7)] by simp
  have zs: "int (nrows (zeros shape)) = int (fst shape)" "int (ncols (zeros shape)) = int (snd shape)"
    by simp_all
  have si: "slice_iadd (zeros shape) (yi0, yi1) (xi0, xi1) B =
     Inr ((zeros shape)\<lparr>cell := \<lambda>j i.
                  if nat yi0 \<le> j \<and> j < nat yi1 \<and> nat xi0 \<le> i \<and> i < nat xi1
                  then cell (zeros shape) j i + cell B (j - nat yi0) (i - nat xi0)
                  else cell (zeros shape) j i\<rparr>)"
    by (rule slice_iadd_inside) (simp_all only: zs wx(1-3) wy(1-3) Bsh)
  have ac: "add_circle (zeros shape) x0 y0 radius =
              slice_iadd (zeros shape) (yi0, yi1) (xi0, xi1) B"
    unfolding add_circle_def Let_def zeros_shape wxe wye linspace_symmetric [OF m0] bind_exc_def
      B_def circ_def v_def m_def
    by simp
  have cB: "cell B a b = of_bool (cell circ (nat yj0 + a) (nat xj0 + b))" for a b
    by (simp add: B_def sl as_real_def)
  have fe: "(\<lambda>j i. if nat yi0 \<le> j \<and> j < nat yi1 \<and> nat xi0 \<le> i \<and> i < nat xi1
                  then cell (zeros shape) j i + cell B (j - nat yi0) (i - nat xi0)
                  else cell (zeros shape) j i) =
     (\<lambda>j i. if nat yi0 \<le> j \<and> j < nat yi1 \<and> nat xi0 \<le> i \<and> i < nat xi1
        then of_bool
          ((map (\<lambda>k. real k - real_of_int (py_int (radius + 1))) [0..<nat (2 * py_int (radius + 1) + 1)]
               ! (nat xj0 + (i - nat xi0)) - (x0 - real_of_int (py_int x0)))\<^sup>2
           + (map (\<lambda>k. real k - real_of_int (py_int (radius + 1))) [0..<nat (2 * py_int (radius + 1) + 1)]
               ! (nat yj0 + (j - nat yi0)) - (y0 - real_of_int (py_int y0)))\<^sup>2
           \<le> radius\<^sup>2)
        else 0)"
    unfolding cB zeros_shape by (simp add: circ_def v_def m_def fun_eq_iff)
  show ?thesis
    unfolding ac si fe by (rule refl)
qed


lemma window_index:
  fixes x m :: int
  assumes "0 \<le> i0" "0 \<le> j0" "i0 \<le> int k" "int k < i1" "j0 + (int k - i0) = int k - x + m"
    and "j1 - j0 = i1 - i0" "j1 \<le> 2 * m + 1"
  shows "nat j0 + (k - nat i0) < nat (2 * m + 1)"
    and "real (nat j0 + (k - nat i0)) - real_of_int m = real k - real_of_int x"
proof -
  have e: "int (nat j0 + (k - nat i0)) = int k - x + m"
    using assms(1-3,5) by arith
  show "nat j0 + (k - nat i0) < nat (2 * m + 1)"
    using e assms by arith
  have "real_of_int (int (nat j0 + (k - nat i0))) = real_of_int (int k - x + m)"
    by (simp only: e)
  then show "real (nat j0 + (k - nat i0)) - real_of_int m = real k - real_of_int x"
    by (simp del: of_nat_add)
qed

lemma add_circle_disc:
  assumes r: "0 \<le> radius"
  shows "\<exists>z. add_circle (zeros shape) x0 y0 radius = Inr z \<and>
           (\<forall>j i. j < fst shape \<longrightarrow> i < snd shape \<longrightarrow>
              (cell z j i \<noteq> 0 \<longleftrightarrow> (real i - x0)\<^sup>2 + (real j - y0)\<^sup>2 \<le> radius\<^sup>2))"
proof -
  define m where "m = py_int (radius + 1)"
  define x0i where "x0i = py_int x0"
  define y0i where "y0i = py_int y0"
  have m1: "1 \<le> m" and mr: "radius < real_of_int m"
    using py_int_radius [OF r] by (simp_all add: m_def)
  then have m0: "0 \<le> m" by simp
  have fx: "\<bar>x0 - real_of_int x0i\<bar> < 1" and fy: "\<bar>y0 - real_of_int y0i\<bar> < 1"
    by (simp_all add: x0i_def y0i_def py_int_frac)
  obtain xi0 xi1 xj0 xj1 where wxe: "find_inds (int (snd shape)) x0i m = (xi0, xi1, xj0, xj1)"
    by (cases "find_inds (int (snd shape)) x0i m") auto
  obtain yi0 yi1 yj0 yj1 where wye: "find_inds (int (fst shape)) y0i m = (yi0, yi1, yj0, yj1)"
    by (cases "find_inds (int (fst shape)) y0i m") auto
  note wx = find_inds_window [OF m0 wxe]
  note wy = find_inds_window [OF m0 wye]
  define v where "v = map (\<lambda>k. real k - real_of_int m) [0..<nat (2 * m + 1)]"
  have vk: "v ! k = real k - real_of_int m" if "k < nat (2 * m + 1)" for k
    using that by (simp add: v_def)
  define Z where "Z = (zeros shape)\<lparr>cell := \<lambda>j i.
        if nat yi0 \<le> j \<and> j < nat yi1 \<and> nat xi0 \<le> i \<and> i < nat xi1
        then of_bool
          ((v ! (nat xj0 + (i - nat xi0)) - (x0 - real_of_int x0i))\<^sup>2
           + (v ! (nat yj0 + (j - nat yi0)) - (y0 - real_of_int y0i))\<^sup>2
           \<le> radius\<^sup>2)
        else (0 :: real)\<rparr>"
  have ac: "add_circle (zeros shape) x0 y0 radius = Inr Z"
    unfolding Z_def v_def m_def x0i_def y0i_def
    by (rule add_circle_window [OF m0 [unfolded m_def] wxe [unfolded m_def x0i_def]
          wye [unfolded m_def y0i_def]])
  have cz: "cell Z j i =
        (if nat yi0 \<le> j \<and> j < nat yi1 \<and> nat xi0 \<le> i \<and> i < nat xi1
         then of_bool
          ((v ! (nat xj0 + (i - nat xi0)) - (x0 - real_of_int x0i))\<^sup>2
           + (v ! (nat yj0 + (j - nat yi0)) - (y0 - real_of_int y0i))\<^sup>2
           \<le> radius\<^sup>2)
         else 0)" for j i
    unfolding Z_def by simp
  have cells: "cell Z j i \<noteq> 0 \<longleftrightarrow> (real i - x0)\<^sup>2 + (real j - y0)\<^sup>2 \<le> radius\<^sup>2"
    if j: "j < fst shape" and i: "i < snd shape" for j i
  proof (cases "(yi0 \<le> int j \<and> int j < yi1) \<and> (xi0 \<le> int i \<and> int i < xi1)")
    case True
    then have inw: "nat yi0 \<le> j \<and> j < nat yi1 \<and> nat xi0 \<le> i \<and> i < nat xi1"
      using wx(1) wy(1) by linarith
    have tx: "xi0 \<le> int i" "int i < xi1" and ty: "yi0 \<le> int j" "int j < yi1"
      using True by simp_all
    note ix = window_index [OF wx(1) wx(4) tx wx(9) [OF tx] wx(7) wx(6)]
    note iy = window_index [OF wy(1) wy(4) ty wy(9) [OF ty] wy(7) wy(6)]
    have vx: "v ! (nat xj0 + (i - nat xi0)) - (x0 - real_of_int x0i) = real i - x0"
      unfolding vk [OF ix(1)] ix(2) by simp
    have vy: "v ! (nat yj0 + (j - nat yi0)) - (y0 - real_of_int y0i) = real j - y0"
      unfolding vk [OF iy(1)] iy(2) by simp
    have "cell Z j i = of_bool ((real i - x0)\<^sup>2 + (real j - y0)\<^sup>2 \<le> radius\<^sup>2)"
      unfolding cz vx vy by (rule if_P) (rule inw)
    then show ?thesis by simp
  next
    case False
    then have out: "\<not> (nat yi0 \<le> j \<and> j < nat yi1 \<and> nat xi0 \<le> i \<and> i < nat xi1)"
      using wx(1) wy(1) by linarith
    have z0: "cell Z j i = 0" unfolding cz by (rule if_not_P) (rule out)
    have ki: "0 \<le> int i" "int i < int (snd shape)" and kj: "0 \<le> int j" "int j < int (fst shape)"
      using i j by simp_all
    from False wx(8) [OF ki] wy(8) [OF kj]
    have "m < \<bar>int i - x0i\<bar> \<or> m < \<bar>int j - y0i\<bar>" by linarith
    then have "m + 1 \<le> \<bar>int i - x0i\<bar> \<or> m + 1 \<le> \<bar>int j - y0i\<bar>" by linarith
    then have "real_of_int (m + 1) \<le> real_of_int \<bar>int i - x0i\<bar>
             \<or> real_of_int (m + 1) \<le> real_of_int \<bar>int j - y0i\<bar>"
      by (simp only: of_int_le_iff)
    then have "real_of_int m + 1 \<le> \<bar>real i - real_of_int x0i\<bar>
             \<or> real_of_int m + 1 \<le> \<bar>real j - real_of_int y0i\<bar>"
      by simp
    with fx fy mr have "radius < \<bar>real i - x0\<bar> \<or> radius < \<bar>real j - y0\<bar>"
      by linarith
    from disc_outside [OF r this] z0 show ?thesis by simp
  qed
  show ?thesis using ac cells by blast
qed

lemma circ_step_zeros:
  "(if n \<in> set skip then Inr f
    else bind_exc (nth_exc xs n) (\<lambda>xn. bind_exc (nth_exc ys n) (\<lambda>yn. add_circle f xn yn radius))) =
   (if n \<in> set skip then Inr f
    else case bind_exc (nth_exc xs n) (\<lambda>xn. bind_exc (nth_exc ys n) (\<lambda>yn.
                add_circle (zeros (shape2 f)) xn yn radius)) of
           Inl e \<Rightarrow> Inl e
         | Inr z \<Rightarrow> Inr (f\<lparr>cell := \<lambda>j i. cell f j i + cell z j i\<rparr>))"
  using add_circle_zeros [of f "xs ! n" "ys ! n" radius]
  by (simp add: bind_exc_def nth_exc_def)

lemma circ_inc_nonneg:
  assumes "bind_exc (nth_exc xs n) (\<lambda>xn. bind_exc (nth_exc ys n) (\<lambda>yn.
             add_circle (zeros s) xn yn radius)) = Inr z"
  shows "0 \<le> cell z j i"
proof -
  from assms have "add_circle (zeros s) (xs ! n) (ys ! n) radius = Inr z"
    by (auto simp: bind_exc_def nth_exc_def split: if_splits)
  from add_circle_zeros_mask [OF this, of j i] show ?thesis by auto
qed

lemma make_bg_circ_mask_footprint:
  assumes "make_bg_circ_mask shape work_cat skip radius = Inr m"
  shows "shape2 m = shape"
    and "cell m j i \<longleftrightarrow>
           \<not> (\<exists>n < wc_catsize work_cat. n \<notin> set skip \<and>
                 circle_footprint shape (wc_x work_cat ! n) (wc_y work_cat ! n) radius j i)"
proof -
  define step where "step = (\<lambda>frame n.
       if n \<in> set skip then Inr frame
       else bind_exc (nth_exc (wc_x work_cat) n) (\<lambda>xn.
            bind_exc (nth_exc (wc_y work_cat) n) (\<lambda>yn. add_circle frame xn yn radius)))"
  define inc where "inc = (\<lambda>s n.
       bind_exc (nth_exc (wc_x work_cat) n) (\<lambda>xn.
       bind_exc (nth_exc (wc_y work_cat) n) (\<lambda>yn. add_circle (zeros s) xn yn radius)))"
  from assms obtain f where run: "fold_exc step (zeros shape) [0..<wc_catsize work_cat] = Inr f"
    and m: "m = eq_zero f"
    unfolding make_bg_circ_mask_def step_def by (auto simp: bind_exc_def split: sum.splits)
  have st: "step f n =
            (if n \<in> set skip then Inr f
             else case inc (shape2 f) n of
                    Inl e \<Rightarrow> Inl e
                  | Inr z \<Rightarrow> Inr (f\<lparr>cell := \<lambda>j i. cell f j i + cell z j i\<rparr>))" for f n
    unfolding step_def inc_def by (rule circ_step_zeros)
  have nn: "\<forall>s n z j i. inc s n = Inr z \<longrightarrow> 0 \<le> cell z j i"
    unfolding inc_def by (blast intro: circ_inc_nonneg)
  have z0: "0 \<le> cell (zeros shape) j i" for j i by simp
  note mf = mask_fold [of step skip inc, OF st nn run z0, unfolded zeros_shape]
  show "shape2 m = shape"
    using mf by (simp add: m eq_zero_def shape2_def)
  have hit: "circle_footprint shape (wc_x work_cat ! n) (wc_y work_cat ! n) radius j i
               \<longleftrightarrow> \<not> (\<forall>z. inc shape n = Inr z \<longrightarrow> cell z j i = 0)"
    if n: "n < wc_catsize work_cat" "n \<notin> set skip" for n
  proof -
    from mf n obtain z where z: "inc shape n = Inr z" by auto
    then have "add_circle (zeros shape) (wc_x work_cat ! n) (wc_y work_cat ! n) radius = Inr z"
      unfolding inc_def by (auto simp: bind_exc_def nth_exc_def split: if_splits)
    then show ?thesis by (simp add: circle_footprint_def z)
  qed
  have "cell m j i \<longleftrightarrow> cell f j i = 0" by (simp add: m eq_zero_def)
  also have "\<dots> \<longleftrightarrow> (\<forall>n \<in> set [0..<wc_catsize work_cat]. n \<notin> set skip \<longrightarrow>
                           (\<forall>z. inc shape n = Inr z \<longrightarrow> cell z j i = 0))"
    using mf by simp
  also have "\<dots> \<longleftrightarrow> \<not> (\<exists>n < wc_catsize work_cat. n \<notin> set skip \<and>
                 circle_footprint shape (wc_x work_cat ! n) (wc_y work_cat ! n) radius j i)"
    using hit by auto
  finally show "cell m j i \<longleftrightarrow>
           \<not> (\<exists>n < wc_catsize work_cat. n \<notin> set skip \<and>
                 circle_footprint shape (wc_x work_cat ! n) (wc_y work_cat ! n) radius j i)" .
qed

lemma circle_footprint_disc:
  assumes "0 \<le> radius" and "j < fst shape" and "i < snd shape"
  shows "circle_footprint shape x0 y0 radius j i \<longleftrightarrow>
           (real i - x0)\<^sup>2 + (real j - y0)\<^sup>2 \<le> radius\<^sup>2"
proof -
  from add_circle_disc [OF assms(1), of shape x0 y0] obtain z
    where "add_circle (zeros shape) x0 y0 radius = Inr z"
      and "cell z j i \<noteq> 0 \<longleftrightarrow> (real i - x0)\<^sup>2 + (real j - y0)\<^sup>2 \<le> radius\<^sup>2"
    using assms(2,3) by blast
  then show ?thesis by (simp add: circle_footprint_def)
qed

lemma make_bg_circ_mask_total:
  assumes r: "0 \<le> radius"
    and len: "\<And>n. n < wc_catsize work_cat \<Longrightarrow> n \<notin> set skip \<Longrightarrow>
                n < length (wc_x work_cat) \<and> n < length (wc_y work_cat)"
  shows "\<exists>m. make_bg_circ_mask shape work_cat skip radius = Inr m"
proof -
  define step where "step = (\<lambda>frame n.
       if n \<in> set skip then Inr frame
       else bind_exc (nth_exc (wc_x work_cat) n) (\<lambda>xn.
            bind_exc (nth_exc (wc_y work_cat) n) (\<lambda>yn. add_circle frame xn yn radius)))"
  have "\<exists>f'. step f n = Inr f'" if "n \<in> set [0..<wc_catsize work_cat]" for f n
  proof (cases "n \<in> set skip")
    case True
    then show ?thesis by (simp add: step_def)
  next
    case False
    from that have "n < wc_catsize work_cat" by simp
    from len [OF this False] have l: "n < length (wc_x work_cat)" "n < length (wc_y work_cat)"
      by simp_all
    from add_circle_disc [OF r, of "shape2 f" "wc_x work_cat ! n" "wc_y work_cat ! n"]
    obtain z where "add_circle (zeros (shape2 f)) (wc_x work_cat ! n) (wc_y work_cat ! n) radius = Inr z"
      by blast
    then have "\<exists>f'. add_circle f (wc_x work_cat ! n) (wc_y work_cat ! n) radius = Inr f'"
      by (subst add_circle_zeros) simp
    then show ?thesis using False l by (simp add: step_def bind_exc_def nth_exc_def)
  qed
  from fold_exc_total [of "[0..<wc_catsize work_cat]" step "zeros shape", OF this]
  obtain f where "fold_exc step (zeros shape) [0..<wc_catsize work_cat] = Inr f" by blast
  then show ?thesis
    unfolding make_bg_circ_mask_def step_def by (simp add: bind_exc_def)
qed

lemma psf_step_zeros:
  "psf_mask_step work_cat psf_ids psfs skip kxy radius level f n =
     (if n \<in> set skip then Inr f
      else case psf_mask_step work_cat psf_ids psfs [] kxy radius level (zeros (shape2 f)) n of
             Inl e \<Rightarrow> Inl e
           | Inr z \<Rightarrow> Inr (f\<lparr>cell := \<lambda>j i. cell f j i + cell z j i\<rparr>))"
proof (cases "n \<in> set skip")
  case True
  then show ?thesis by (simp add: psf_mask_step_def)
next
  case False
  have a: "add_psf_mask f x0 y0 dxs dys psf_mod kmat radius level =
     (case add_psf_mask (zeros (shape2 f)) x0 y0 dxs dys psf_mod kmat radius level of
        Inl e \<Rightarrow> Inl e
      | Inr z \<Rightarrow> Inr (f\<lparr>cell := \<lambda>j i. cell f j i + cell z j i\<rparr>))" for x0 y0 dxs dys psf_mod kmat
    by (rule add_psf_mask_zeros)
  show ?thesis
    using False by (simp add: psf_mask_step_def bind_exc_def a split: sum.splits)
qed

lemma psf_inc_nonneg:
  assumes "psf_mask_step work_cat psf_ids psfs [] kxy radius level (zeros s) n = Inr z"
  shows "0 \<le> cell z j i"
proof -
  from assms obtain x0 y0 dxs dys psf_mod kmat
    where "add_psf_mask (zeros s) x0 y0 dxs dys psf_mod kmat radius level = Inr z"
    by (auto simp: psf_mask_step_def bind_exc_def split: sum.splits)
  from add_psf_mask_zeros_mask [OF this, of j i] show ?thesis by auto
qed

lemma make_bg_psf_mask_footprint:
  assumes "make_bg_psf_mask shape work_cat psf_ids psfs skip kxy radius level = Inr m"
  shows "shape2 m = shape"
    and "cell m j i \<longleftrightarrow>
           \<not> (\<exists>n < wc_catsize work_cat. n \<notin> set skip \<and>
                 psf_mask_footprint shape work_cat psf_ids psfs kxy radius level n j i)"
proof -
  define step where "step = psf_mask_step work_cat psf_ids psfs skip kxy radius level"
  define inc where "inc = (\<lambda>s n. psf_mask_step work_cat psf_ids psfs [] kxy radius level (zeros s) n)"
  from assms obtain f where run: "fold_exc step (zeros shape) [0..<wc_catsize work_cat] = Inr f"
    and m: "m = eq_zero f"
    unfolding make_bg_psf_mask_def step_def by (auto simp: bind_exc_def split: sum.splits)
  have st: "step f n =
            (if n \<in> set skip then Inr f
             else case inc (shape2 f) n of
                    Inl e \<Rightarrow> Inl e
                  | Inr z \<Rightarrow> Inr (f\<lparr>cell := \<lambda>j i. cell f j i + cell z j i\<rparr>))" for f n
    unfolding step_def inc_def by (rule psf_step_zeros)
  have nn: "\<forall>s n z j i. inc s n = Inr z \<longrightarrow> 0 \<le> cell z j i"
    unfolding inc_def by (blast intro: psf_inc_nonneg)
  have z0: "0 \<le> cell (zeros shape) j i" for j i by simp
  note mf = mask_fold [of step skip inc, OF st nn run z0, unfolded zeros_shape]
  show "shape2 m = shape"
    using mf by (simp add: m eq_zero_def shape2_def)
  have hit: "psf_mask_footprint shape work_cat psf_ids psfs kxy radius level n j i
               \<longleftrightarrow> \<not> (\<forall>z. inc shape n = Inr z \<longrightarrow> cell z j i = 0)"
    if n: "n < wc_catsize work_cat" "n \<notin> set skip" for n
  proof -
    from mf n obtain z where z: "inc shape n = Inr z" by auto
    then show ?thesis by (simp add: psf_mask_footprint_def z [unfolded inc_def])
  qed
  have "cell m j i \<longleftrightarrow> cell f j i = 0" by (simp add: m eq_zero_def)
  also have "\<dots> \<longleftrightarrow> (\<forall>n \<in> set [0..<wc_catsize work_cat]. n \<notin> set skip \<longrightarrow>
                           (\<forall>z. inc shape n = Inr z \<longrightarrow> cell z j i = 0))"
    using mf by simp
  also have "\<dots> \<longleftrightarrow> \<not> (\<exists>n < wc_catsize work_cat. n \<notin> set skip \<and>
                 psf_mask_footprint shape work_cat psf_ids psfs kxy radius level n j i)"
    using hit by auto
  finally show "cell m j i \<longleftrightarrow>
           \<not> (\<exists>n < wc_catsize work_cat. n \<notin> set skip \<and>
                 psf_mask_footprint shape work_cat psf_ids psfs kxy radius level n j i)" .
qed

text \<open>
  The footprint of \<^verbatim>\<open>add_psf_mask\<close> when the star frame has the size
  \<open>2 * radius + 1\<close> that \<^verbatim>\<open>psf_image\<close> asks of the PSF model: a pixel is marked when
  it lies in the window of the star and the star frame there exceeds \<open>level\<close> times the
  peak of the star frame.
\<close>

lemma window_index_nat:
  fixes x m :: int
  assumes "0 \<le> i0" "0 \<le> j0" "i0 \<le> int k" "int k < i1" "j0 + (int k - i0) = int k - x + m"
  shows "nat j0 + (k - nat i0) = nat (int k - x + m)"
  using assms by arith

lemma add_psf_mask_window:
  assumes r: "0 \<le> radius"
    and sf: "star_frame_of (x0 - real_of_int (py_int x0)) (y0 - real_of_int (py_int y0))
               dxs dys psf_mod kmat radius = Inr sf"
    and sh: "shape2 sf = (nat (2 * radius + 1), nat (2 * radius + 1))"
    and pk: "np_max sf = Inr peak"
  shows "\<exists>z. add_psf_mask (zeros shape) x0 y0 dxs dys psf_mod kmat radius level = Inr z \<and>
           (\<forall>j i. j < fst shape \<longrightarrow> i < snd shape \<longrightarrow>
              (cell z j i \<noteq> 0 \<longleftrightarrow>
                 \<bar>int i - py_int x0\<bar> \<le> radius \<and> \<bar>int j - py_int y0\<bar> \<le> radius \<and>
                 level * peak < cell sf (nat (int j - py_int y0 + radius))
                                        (nat (int i - py_int x0 + radius))))"
proof -
  obtain xi0 xi1 xj0 xj1 where wxe: "find_inds (int (snd shape)) (py_int x0) radius = (xi0, xi1, xj0, xj1)"
    by (cases "find_inds (int (snd shape)) (py_int x0) radius") auto
  obtain yi0 yi1 yj0 yj1 where wye: "find_inds (int (fst shape)) (py_int y0) radius = (yi0, yi1, yj0, yj1)"
    by (cases "find_inds (int (fst shape)) (py_int y0) radius") auto
  note wx = find_inds_window [OF r wxe]
  note wy = find_inds_window [OF r wye]
  have sn: "int (nrows sf) = 2 * radius + 1" "int (ncols sf) = 2 * radius + 1"
    using sh r by (simp_all add: shape2_def)
  have sl: "slice2 sf (yj0, yj1) (xj0, xj1) =
              \<lparr>nrows = nat yj1 - nat yj0, ncols = nat xj1 - nat xj0,
               cell = \<lambda>j i. cell sf (nat yj0 + j) (nat xj0 + i)\<rparr>"
    by (rule slice2_inside) (simp_all only: sn wx(4-6) wy(4-6))
  define B where "B = as_real (gt_scalar (slice2 sf (yj0, yj1) (xj0, xj1)) (level * peak))"
  have Bsh: "shape2 B = (nat yi1 - nat yi0, nat xi1 - nat xi0)"
    unfolding B_def sl as_real_def gt_scalar_def shape2_def
    using nat_window [OF wx(1,2,4,5,7)] nat_window [OF wy(1,2,4,5,7)] by simp
  have cB: "cell B a b = of_bool (level * peak < cell sf (nat yj0 + a) (nat xj0 + b))" for a b
    by (simp add: B_def sl as_real_def gt_scalar_def)
  have zs: "int (nrows (zeros shape)) = int (fst shape)" "int (ncols (zeros shape)) = int (snd shape)"
    by simp_all
  define Z where "Z = (zeros shape)\<lparr>cell := \<lambda>j i.
                  if nat yi0 \<le> j \<and> j < nat yi1 \<and> nat xi0 \<le> i \<and> i < nat xi1
                  then cell (zeros shape) j i + cell B (j - nat yi0) (i - nat xi0)
                  else cell (zeros shape) j i\<rparr>"
  have si: "slice_iadd (zeros shape) (yi0, yi1) (xi0, xi1) B = Inr Z"
    unfolding Z_def by (rule slice_iadd_inside) (simp_all only: zs wx(1-3) wy(1-3) Bsh)
  have ac: "add_psf_mask (zeros shape) x0 y0 dxs dys psf_mod kmat radius level = Inr Z"
    unfolding add_psf_mask_def Let_def zeros_shape wxe wye prod.case sf bind_exc_simps pk
      B_def [symmetric] si
    by (rule refl)
  have cz: "cell Z j i =
        (if nat yi0 \<le> j \<and> j < nat yi1 \<and> nat xi0 \<le> i \<and> i < nat xi1
         then of_bool (level * peak < cell sf (nat yj0 + (j - nat yi0)) (nat xj0 + (i - nat xi0)))
         else 0)" for j i
    unfolding Z_def by (simp add: cB)
  have cells: "cell Z j i \<noteq> 0 \<longleftrightarrow>
                 \<bar>int i - py_int x0\<bar> \<le> radius \<and> \<bar>int j - py_int y0\<bar> \<le> radius \<and>
                 level * peak < cell sf (nat (int j - py_int y0 + radius))
                                        (nat (int i - py_int x0 + radius))"
    if j: "j < fst shape" and i: "i < snd shape" for j i
  proof -
    have ki: "0 \<le> int i" "int i < int (snd shape)" and kj: "0 \<le> int j" "int j < int (fst shape)"
      using i j by simp_all
    note inx = wx(8) [OF ki] and iny = wy(8) [OF kj]
    show ?thesis
    proof (cases "(yi0 \<le> int j \<and> int j < yi1) \<and> (xi0 \<le> int i \<and> int i < xi1)")
      case True
      then have inw: "nat yi0 \<le> j \<and> j < nat yi1 \<and> nat xi0 \<le> i \<and> i < nat xi1"
        using wx(1) wy(1) by linarith
      have tx: "xi0 \<le> int i" "int i < xi1" and ty: "yi0 \<le> int j" "int j < yi1"
        using True by simp_all
      have ix: "nat xj0 + (i - nat xi0) = nat (int i - py_int x0 + radius)"
        by (rule window_index_nat [OF wx(1) wx(4) tx wx(9) [OF tx]])
      have iy: "nat yj0 + (j - nat yi0) = nat (int j - py_int y0 + radius)"
        by (rule window_index_nat [OF wy(1) wy(4) ty wy(9) [OF ty]])
      have "cell Z j i = of_bool (level * peak < cell sf (nat (int j - py_int y0 + radius))
                                        (nat (int i - py_int x0 + radius)))"
        unfolding cz ix iy by (rule if_P) (rule inw)
      with True inx iny show ?thesis by simp
    next
      case False
      then have out: "\<not> (nat yi0 \<le> j \<and> j < nat yi1 \<and> nat xi0 \<le> i \<and> i < nat xi1)"
        using wx(1) wy(1) by linarith
      have z0: "cell Z j i = 0" unfolding cz by (rule if_not_P) (rule out)
      from False inx iny have "\<not> (\<bar>int i - py_int x0\<bar> \<le> radius \<and> \<bar>int j - py_int y0\<bar> \<le> radius)"
        by blast
      with z0 show ?thesis by auto
    qed
  qed
  show ?thesis using ac cells by blast
qed


lemma psf_mask_footprint_exceeds:
  assumes r: "0 \<le> radius"
    and km: "star_kmat work_cat n kxy = Inr kmat"
    and len: "n < length (wc_x work_cat)" "n < length (wc_y work_cat)"
        "n < length (wc_dxs work_cat)" "n < length (wc_dys work_cat)"
        "n < length psf_ids" "psf_ids ! n < length psfs"
    and sf: "star_frame_of (wc_x work_cat ! n - real_of_int (py_int (wc_x work_cat ! n)))
               (wc_y work_cat ! n - real_of_int (py_int (wc_y work_cat ! n)))
               (wc_dxs work_cat ! n) (wc_dys work_cat ! n) (psfs ! (psf_ids ! n)) kmat radius = Inr sf"
    and sh: "shape2 sf = (nat (2 * radius + 1), nat (2 * radius + 1))"
    and pk: "np_max sf = Inr peak"
    and ji: "j < fst shape" "i < snd shape"
  shows "psf_mask_footprint shape work_cat psf_ids psfs kxy radius level n j i \<longleftrightarrow>
           \<bar>int i - py_int (wc_x work_cat ! n)\<bar> \<le> radius \<and>
           \<bar>int j - py_int (wc_y work_cat ! n)\<bar> \<le> radius \<and>
           level * peak < cell sf (nat (int j - py_int (wc_y work_cat ! n) + radius))
                                  (nat (int i - py_int (wc_x work_cat ! n) + radius))"
proof -
  from add_psf_mask_window [OF r sf sh pk, of shape level] ji obtain z
    where z: "add_psf_mask (zeros shape) (wc_x work_cat ! n) (wc_y work_cat ! n)
                (wc_dxs work_cat ! n) (wc_dys work_cat ! n) (psfs ! (psf_ids ! n)) kmat radius level = Inr z"
      and c: "cell z j i \<noteq> 0 \<longleftrightarrow>
           \<bar>int i - py_int (wc_x work_cat ! n)\<bar> \<le> radius \<and>
           \<bar>int j - py_int (wc_y work_cat ! n)\<bar> \<le> radius \<and>
           level * peak < cell sf (nat (int j - py_int (wc_y work_cat ! n) + radius))
                                  (nat (int i - py_int (wc_x work_cat ! n) + radius))"
    by blast
  have "psf_mask_step work_cat psf_ids psfs [] kxy radius level (zeros shape) n = Inr z"
    unfolding psf_mask_step_def using len by (simp add: km nth_exc_def z)
  then show ?thesis
    unfolding psf_mask_footprint_def using c by simp
qed

text \<open>
  \<^verbatim>\<open>np.max\<close> of a non-empty array is its greatest entry.
\<close>

lemma flatten_set:
  "set (flatten a) = {cell a j i | j i. j < nrows a \<and> i < ncols a}"
  by (auto simp: flatten_def) blast

lemma np_max_greatest:
  assumes "np_max a = Inr p"
  shows "\<forall>j < nrows a. \<forall>i < ncols a. cell a j i \<le> p"
    and "\<exists>j < nrows a. \<exists>i < ncols a. cell a j i = p"
proof -
  from assms obtain v vs where fl: "flatten a = v # vs" and p: "p = fold max vs v"
    by (auto simp: np_max_def split: list.splits)
  have pm: "p = Max (set (flatten a))"
    using Max.set_eq_fold [of v vs] by (simp add: fl p)
  have ne: "set (flatten a) \<noteq> {}" using fl by simp
  show "\<forall>j < nrows a. \<forall>i < ncols a. cell a j i \<le> p"
  proof (intro allI impI)
    fix j i assume "j < nrows a" "i < ncols a"
    then have "cell a j i \<in> set (flatten a)" unfolding flatten_set by blast
    then show "cell a j i \<le> p" unfolding pm by (intro Max_ge) simp_all
  qed
  have "Max (set (flatten a)) \<in> set (flatten a)"
    using ne by (intro Max_in) simp_all
  then have "p \<in> set (flatten a)" by (simp only: pm)
  then have "p \<in> {cell a j i | j i. j < nrows a \<and> i < ncols a}" by (simp only: flatten_set)
  then show "\<exists>j < nrows a. \<exists>i < ncols a. cell a j i = p"
    by blast
qed

text \<open>
  \<^verbatim>\<open>make_bg_psf_mask\<close> in closed form. Let every star outside \<open>skip\<close> be in the
  catalogue and have a star frame \<open>sf n\<close> of the size \<open>2 * radius + 1\<close> with peak
  \<open>peak n\<close>. Then the call returns, and a pixel is \<open>False\<close> exactly when it lies in the
  window of such a star and the star frame there exceeds \<open>level\<close> times the peak.
\<close>

lemma make_bg_psf_mask_exceeds:
  assumes r: "0 \<le> radius"
    and stars: "\<And>n. n < wc_catsize work_cat \<Longrightarrow> n \<notin> set skip \<Longrightarrow>
        n < length (wc_x work_cat) \<and> n < length (wc_y work_cat) \<and>
        n < length (wc_dxs work_cat) \<and> n < length (wc_dys work_cat) \<and>
        n < length psf_ids \<and> psf_ids ! n < length psfs \<and>
        star_kmat work_cat n kxy = Inr (km n) \<and>
        star_frame_of (wc_x work_cat ! n - real_of_int (py_int (wc_x work_cat ! n)))
               (wc_y work_cat ! n - real_of_int (py_int (wc_y work_cat ! n)))
               (wc_dxs work_cat ! n) (wc_dys work_cat ! n) (psfs ! (psf_ids ! n)) (km n) radius
          = Inr (sf n) \<and>
        shape2 (sf n) = (nat (2 * radius + 1), nat (2 * radius + 1)) \<and>
        np_max (sf n) = Inr (peak n)"
  shows "\<exists>pm. make_bg_psf_mask shape work_cat psf_ids psfs skip kxy radius level = Inr pm \<and>
           shape2 pm = shape \<and>
           (\<forall>j i. j < fst shape \<and> i < snd shape \<longrightarrow>
              (cell pm j i \<longleftrightarrow>
                 \<not> (\<exists>n < wc_catsize work_cat. n \<notin> set skip \<and>
                       \<bar>int i - py_int (wc_x work_cat ! n)\<bar> \<le> radius \<and>
                       \<bar>int j - py_int (wc_y work_cat ! n)\<bar> \<le> radius \<and>
                       level * peak n <
                         cell (sf n) (nat (int j - py_int (wc_y work_cat ! n) + radius))
                                     (nat (int i - py_int (wc_x work_cat ! n) + radius)))))"
proof -
  define step where "step = psf_mask_step work_cat psf_ids psfs skip kxy radius level"
  have "\<exists>f'. step f n = Inr f'" if "n \<in> set [0..<wc_catsize work_cat]" for f n
  proof (cases "n \<in> set skip")
    case True
    then show ?thesis by (simp add: step_def psf_mask_step_def)
  next
    case False
    from that have n: "n < wc_catsize work_cat" by simp
    note st = stars [OF n False]
    from st have sfn: "star_frame_of (wc_x work_cat ! n - real_of_int (py_int (wc_x work_cat ! n)))
               (wc_y work_cat ! n - real_of_int (py_int (wc_y work_cat ! n)))
               (wc_dxs work_cat ! n) (wc_dys work_cat ! n) (psfs ! (psf_ids ! n)) (km n) radius
          = Inr (sf n)"
      and shn: "shape2 (sf n) = (nat (2 * radius + 1), nat (2 * radius + 1))"
      and pkn: "np_max (sf n) = Inr (peak n)"
      by simp_all
    from add_psf_mask_window [OF r sfn shn pkn, of "shape2 f" level]
    obtain z where "add_psf_mask (zeros (shape2 f)) (wc_x work_cat ! n) (wc_y work_cat ! n)
        (wc_dxs work_cat ! n) (wc_dys work_cat ! n) (psfs ! (psf_ids ! n)) (km n) radius level = Inr z"
      by blast
    then have "psf_mask_step work_cat psf_ids psfs [] kxy radius level (zeros (shape2 f)) n = Inr z"
      unfolding psf_mask_step_def using st by (simp add: nth_exc_def)
    then show ?thesis
      unfolding step_def psf_step_zeros [of work_cat psf_ids psfs skip] using False by simp
  qed
  from fold_exc_total [of "[0..<wc_catsize work_cat]" step "zeros shape", OF this]
  obtain f where "fold_exc step (zeros shape) [0..<wc_catsize work_cat] = Inr f" by blast
  then obtain pm where pm: "make_bg_psf_mask shape work_cat psf_ids psfs skip kxy radius level = Inr pm"
    unfolding make_bg_psf_mask_def step_def by (simp add: bind_exc_def)
  note fp = make_bg_psf_mask_footprint [OF pm]
  have "cell pm j i \<longleftrightarrow>
                 \<not> (\<exists>n < wc_catsize work_cat. n \<notin> set skip \<and>
                       \<bar>int i - py_int (wc_x work_cat ! n)\<bar> \<le> radius \<and>
                       \<bar>int j - py_int (wc_y work_cat ! n)\<bar> \<le> radius \<and>
                       level * peak n <
                         cell (sf n) (nat (int j - py_int (wc_y work_cat ! n) + radius))
                                     (nat (int i - py_int (wc_x work_cat ! n) + radius)))"
    if ji: "j < fst shape \<and> i < snd shape" for j i
  proof -
    have "psf_mask_footprint shape work_cat psf_ids psfs kxy radius level n j i \<longleftrightarrow>
           \<bar>int i - py_int (wc_x work_cat ! n)\<bar> \<le> radius \<and>
           \<bar>int j - py_int (wc_y work_cat ! n)\<bar> \<le> radius \<and>
           level * peak n < cell (sf n) (nat (int j - py_int (wc_y work_cat ! n) + radius))
                                  (nat (int i - py_int (wc_x work_cat ! n) + radius))"
      if n: "n < wc_catsize work_cat" "n \<notin> set skip" for n
      using stars [OF n] ji
      by (intro psf_mask_footprint_exceeds [OF r, where kmat = "km n"]) simp_all
    then show ?thesis unfolding fp(2) [of j i] by blast
  qed
  with pm fp(1) show ?thesis by blast
qed

text \<open>
  A PSF model that is 1 at the sample with offset \<open>(0, 0)\<close> and \<open>1 / 20\<close> elsewhere: the
  star frame of radius 1 for a star at the origin, and its peak.
\<close>

lemma example_peaked_frame:
  "star_frame_of 0 0 [0] [0] \<lparr>pm_call = \<lambda>xs ys g c. \<lparr>nrows = length ys, ncols = length xs,
                   cell = \<lambda>j i. if xs ! i = 0 \<and> ys ! j = 0 then 1 else 1 / 20\<rparr>,
               pm_norm = 1\<rparr> None 1 = Inr \<lparr>nrows = 3, ncols = 3, cell = \<lambda>j i. if [- 1, 0, 1 :: real] ! i = 0 \<and> [- 1, 0, 1 :: real] ! j = 0 then 1 else (1 / 20 :: real)\<rparr>"
  "np_max \<lparr>nrows = 3, ncols = 3, cell = \<lambda>j i. if [- 1, 0, 1 :: real] ! i = 0 \<and> [- 1, 0, 1 :: real] ! j = 0 then 1 else (1 / 20 :: real)\<rparr> = Inr 1"
proof -
  show "star_frame_of 0 0 [0] [0] \<lparr>pm_call = \<lambda>xs ys g c. \<lparr>nrows = length ys, ncols = length xs,
                   cell = \<lambda>j i. if xs ! i = 0 \<and> ys ! j = 0 then 1 else 1 / 20\<rparr>,
               pm_norm = 1\<rparr> None 1 = Inr \<lparr>nrows = 3, ncols = 3, cell = \<lambda>j i. if [- 1, 0, 1 :: real] ! i = 0 \<and> [- 1, 0, 1 :: real] ! j = 0 then 1 else (1 / 20 :: real)\<rparr>"
    unfolding star_frame_of_def by (simp add: psf_image_single numeral_3_eq_3)
  have "flatten \<lparr>nrows = 3, ncols = 3, cell = \<lambda>j i. if [- 1, 0, 1 :: real] ! i = 0 \<and> [- 1, 0, 1 :: real] ! j = 0 then 1 else (1 / 20 :: real)\<rparr> = [1 / 20, 1 / 20, 1 / 20, 1 / 20, 1, 1 / 20, 1 / 20, 1 / 20, 1 / 20]"
    by (simp add: flatten_def numeral_3_eq_3)
  then show "np_max \<lparr>nrows = 3, ncols = 3, cell = \<lambda>j i. if [- 1, 0, 1 :: real] ! i = 0 \<and> [- 1, 0, 1 :: real] ! j = 0 then 1 else (1 / 20 :: real)\<rparr> = Inr 1"
    by (simp add: np_max_def)
qed

text \<open>
  C10. The masks of background stars are \<open>True\<close> on clean pixels. For a non-negative
  radius and a catalogue that holds the positions of its stars, \<^verbatim>\<open>make_bg_circ_mask\<close>
  returns a mask of the requested shape that is \<open>True\<close> at a pixel exactly when no star
  outside \<open>skip\<close> has the pixel in the disc that \<^verbatim>\<open>add_circle\<close> renders for it, which
  is exactly when no such star has the pixel \<open>(i, j)\<close> within \<open>radius\<close> of its centre.
  Whenever \<^verbatim>\<open>make_bg_psf_mask\<close> returns, its mask has the requested shape and is
  \<open>True\<close> at a pixel exactly when no star outside \<open>skip\<close> marks it on an empty frame.
  When every star outside \<open>skip\<close> has a star frame \<open>sf n\<close> of the size
  \<open>2 * radius + 1\<close>, whose greatest entry is \<open>peak n\<close>, the call returns and the mask is
  \<open>True\<close> at a pixel exactly when there is no such star with the pixel in its window and
  with \<open>sf n\<close> at the pixel above \<open>level * peak n\<close>.
\<close>

theorem bg_masks_clean_is_true:
  "(0 \<le> radius \<and>
    (\<forall>n < wc_catsize work_cat. n \<notin> set skip \<longrightarrow>
        n < length (wc_x work_cat) \<and> n < length (wc_y work_cat)) \<longrightarrow>
      (\<exists>m. make_bg_circ_mask shape work_cat skip radius = Inr m \<and> shape2 m = shape \<and>
           (\<forall>j i. j < fst shape \<and> i < snd shape \<longrightarrow>
              (cell m j i \<longleftrightarrow>
                 \<not> (\<exists>n < wc_catsize work_cat. n \<notin> set skip \<and>
                       circle_footprint shape (wc_x work_cat ! n) (wc_y work_cat ! n) radius j i)) \<and>
              (cell m j i \<longleftrightarrow>
                 \<not> (\<exists>n < wc_catsize work_cat. n \<notin> set skip \<and>
                       (real i - wc_x work_cat ! n)\<^sup>2 + (real j - wc_y work_cat ! n)\<^sup>2 \<le> radius\<^sup>2)))))
   \<and> (make_bg_psf_mask shape work_cat psf_ids psfs skip kxy psf_radius level = Inr pm \<longrightarrow>
        shape2 pm = shape \<and>
        (\<forall>j i. cell pm j i \<longleftrightarrow>
           \<not> (\<exists>n < wc_catsize work_cat. n \<notin> set skip \<and>
                 psf_mask_footprint shape work_cat psf_ids psfs kxy psf_radius level n j i)))
   \<and> (0 \<le> psf_radius \<and>
       (\<forall>n < wc_catsize work_cat. n \<notin> set skip \<longrightarrow>
          n < length (wc_x work_cat) \<and> n < length (wc_y work_cat) \<and>
          n < length (wc_dxs work_cat) \<and> n < length (wc_dys work_cat) \<and>
          n < length psf_ids \<and> psf_ids ! n < length psfs \<and>
          star_kmat work_cat n kxy = Inr (km n) \<and>
          star_frame_of (wc_x work_cat ! n - real_of_int (py_int (wc_x work_cat ! n)))
                 (wc_y work_cat ! n - real_of_int (py_int (wc_y work_cat ! n)))
                 (wc_dxs work_cat ! n) (wc_dys work_cat ! n) (psfs ! (psf_ids ! n)) (km n) psf_radius
            = Inr (sf n) \<and>
          shape2 (sf n) = (nat (2 * psf_radius + 1), nat (2 * psf_radius + 1)) \<and>
          np_max (sf n) = Inr (peak n)) \<longrightarrow>
        (\<forall>n < wc_catsize work_cat. n \<notin> set skip \<longrightarrow>
           (\<forall>a < nrows (sf n). \<forall>b < ncols (sf n). cell (sf n) a b \<le> peak n) \<and>
           (\<exists>a < nrows (sf n). \<exists>b < ncols (sf n). cell (sf n) a b = peak n)) \<and>
        (\<exists>qm. make_bg_psf_mask shape work_cat psf_ids psfs skip kxy psf_radius level = Inr qm \<and>
           shape2 qm = shape \<and>
           (\<forall>j i. j < fst shape \<and> i < snd shape \<longrightarrow>
              (cell qm j i \<longleftrightarrow>
                 \<not> (\<exists>n < wc_catsize work_cat. n \<notin> set skip \<and>
                       \<bar>int i - py_int (wc_x work_cat ! n)\<bar> \<le> psf_radius \<and>
                       \<bar>int j - py_int (wc_y work_cat ! n)\<bar> \<le> psf_radius \<and>
                       level * peak n <
                         cell (sf n) (nat (int j - py_int (wc_y work_cat ! n) + psf_radius))
                                     (nat (int i - py_int (wc_x work_cat ! n) + psf_radius)))))))"
proof (intro conjI impI)
  assume a: "0 \<le> radius \<and>
    (\<forall>n < wc_catsize work_cat. n \<notin> set skip \<longrightarrow>
        n < length (wc_x work_cat) \<and> n < length (wc_y work_cat))"
  then have r: "0 \<le> radius" by simp
  from a obtain m where m: "make_bg_circ_mask shape work_cat skip radius = Inr m"
    using make_bg_circ_mask_total [of radius work_cat skip shape] by blast
  note fp = make_bg_circ_mask_footprint [OF m]
  have "(cell m j i \<longleftrightarrow>
           \<not> (\<exists>n < wc_catsize work_cat. n \<notin> set skip \<and>
                 circle_footprint shape (wc_x work_cat ! n) (wc_y work_cat ! n) radius j i)) \<and>
        (cell m j i \<longleftrightarrow>
           \<not> (\<exists>n < wc_catsize work_cat. n \<notin> set skip \<and>
                 (real i - wc_x work_cat ! n)\<^sup>2 + (real j - wc_y work_cat ! n)\<^sup>2 \<le> radius\<^sup>2))"
    if "j < fst shape \<and> i < snd shape" for j i
  proof -
    from that have ji: "j < fst shape" "i < snd shape" by simp_all
    show ?thesis
      unfolding fp(2) [of j i] circle_footprint_disc [OF r ji] by simp
  qed
  with m fp(1) show "\<exists>m. make_bg_circ_mask shape work_cat skip radius = Inr m \<and> shape2 m = shape \<and>
           (\<forall>j i. j < fst shape \<and> i < snd shape \<longrightarrow>
              (cell m j i \<longleftrightarrow>
                 \<not> (\<exists>n < wc_catsize work_cat. n \<notin> set skip \<and>
                       circle_footprint shape (wc_x work_cat ! n) (wc_y work_cat ! n) radius j i)) \<and>
              (cell m j i \<longleftrightarrow>
                 \<not> (\<exists>n < wc_catsize work_cat. n \<notin> set skip \<and>
                       (real i - wc_x work_cat ! n)\<^sup>2 + (real j - wc_y work_cat ! n)\<^sup>2 \<le> radius\<^sup>2)))"
    by blast
next
  assume pm: "make_bg_psf_mask shape work_cat psf_ids psfs skip kxy psf_radius level = Inr pm"
  show "shape2 pm = shape" by (rule make_bg_psf_mask_footprint(1) [OF pm])
  show "\<forall>j i. cell pm j i \<longleftrightarrow>
           \<not> (\<exists>n < wc_catsize work_cat. n \<notin> set skip \<and>
                 psf_mask_footprint shape work_cat psf_ids psfs kxy psf_radius level n j i)"
    using make_bg_psf_mask_footprint(2) [OF pm] by blast
next
  assume h: "0 \<le> psf_radius \<and>
       (\<forall>n < wc_catsize work_cat. n \<notin> set skip \<longrightarrow>
          n < length (wc_x work_cat) \<and> n < length (wc_y work_cat) \<and>
          n < length (wc_dxs work_cat) \<and> n < length (wc_dys work_cat) \<and>
          n < length psf_ids \<and> psf_ids ! n < length psfs \<and>
          star_kmat work_cat n kxy = Inr (km n) \<and>
          star_frame_of (wc_x work_cat ! n - real_of_int (py_int (wc_x work_cat ! n)))
                 (wc_y work_cat ! n - real_of_int (py_int (wc_y work_cat ! n)))
                 (wc_dxs work_cat ! n) (wc_dys work_cat ! n) (psfs ! (psf_ids ! n)) (km n) psf_radius
            = Inr (sf n) \<and>
          shape2 (sf n) = (nat (2 * psf_radius + 1), nat (2 * psf_radius + 1)) \<and>
          np_max (sf n) = Inr (peak n))"
  then show "\<forall>n < wc_catsize work_cat. n \<notin> set skip \<longrightarrow>
           (\<forall>a < nrows (sf n). \<forall>b < ncols (sf n). cell (sf n) a b \<le> peak n) \<and>
           (\<exists>a < nrows (sf n). \<exists>b < ncols (sf n). cell (sf n) a b = peak n)"
    using np_max_greatest by blast
  show "\<exists>qm. make_bg_psf_mask shape work_cat psf_ids psfs skip kxy psf_radius level = Inr qm \<and>
           shape2 qm = shape \<and>
           (\<forall>j i. j < fst shape \<and> i < snd shape \<longrightarrow>
              (cell qm j i \<longleftrightarrow>
                 \<not> (\<exists>n < wc_catsize work_cat. n \<notin> set skip \<and>
                       \<bar>int i - py_int (wc_x work_cat ! n)\<bar> \<le> psf_radius \<and>
                       \<bar>int j - py_int (wc_y work_cat ! n)\<bar> \<le> psf_radius \<and>
                       level * peak n <
                         cell (sf n) (nat (int j - py_int (wc_y work_cat ! n) + psf_radius))
                                     (nat (int i - py_int (wc_x work_cat ! n) + psf_radius)))))"
  proof (rule make_bg_psf_mask_exceeds [where km = km and sf = sf and peak = peak])
    from h show "0 \<le> psf_radius" by simp
  next
    fix n assume "n < wc_catsize work_cat" "n \<notin> set skip"
    with h show "n < length (wc_x work_cat) \<and> n < length (wc_y work_cat) \<and>
        n < length (wc_dxs work_cat) \<and> n < length (wc_dys work_cat) \<and>
        n < length psf_ids \<and> psf_ids ! n < length psfs \<and>
        star_kmat work_cat n kxy = Inr (km n) \<and>
        star_frame_of (wc_x work_cat ! n - real_of_int (py_int (wc_x work_cat ! n)))
               (wc_y work_cat ! n - real_of_int (py_int (wc_y work_cat ! n)))
               (wc_dxs work_cat ! n) (wc_dys work_cat ! n) (psfs ! (psf_ids ! n)) (km n) psf_radius
          = Inr (sf n) \<and>
        shape2 (sf n) = (nat (2 * psf_radius + 1), nat (2 * psf_radius + 1)) \<and>
        np_max (sf n) = Inr (peak n)"
      by blast
  qed
qed

text \<open>
  Two stars on a 3 by 3 frame, the first at \<open>(1, 1)\<close> skipped, the second at the origin.
  With radius 1 the circular mask is \<open>False\<close> at \<open>(0, 0)\<close> and \<open>(0, 1)\<close> and \<open>True\<close> at
  \<open>(1, 1)\<close> and \<open>(2, 2)\<close>. With the PSF model that is 1 at the centre of the star and
  \<open>1 / 20\<close> around it, and level \<open>1 / 10\<close>, the PSF mask is \<open>False\<close> at \<open>(0, 0)\<close> only:
  at \<open>(0, 1)\<close> and \<open>(1, 1)\<close> the star frame is below a tenth of its peak, and \<open>(2, 2)\<close>
  is outside the window.
\<close>

theorem bg_masks_clean_is_true_witness:
  "(\<exists>m. make_bg_circ_mask (3, 3) \<lparr>wc_catsize = 2, wc_x = [1, 0], wc_y = [1, 0], wc_fscale = [1, 1 / 2],
               wc_dxs = [[0], [0]], wc_dys = [[0], [0]], wc_coeff = [None, None]\<rparr> [0] 1 = Inr m
        \<and> shape2 m = (3, 3) \<and> \<not> cell m 0 0 \<and> \<not> cell m 0 1 \<and> cell m 1 1 \<and> cell m 2 2)
   \<and> star_frame_of 0 0 [0] [0] \<lparr>pm_call = \<lambda>xs ys g c. \<lparr>nrows = length ys, ncols = length xs,
                   cell = \<lambda>j i. if xs ! i = 0 \<and> ys ! j = 0 then 1 else 1 / 20\<rparr>,
               pm_norm = 1\<rparr> None 1 = Inr \<lparr>nrows = 3, ncols = 3, cell = \<lambda>j i. if [- 1, 0, 1 :: real] ! i = 0 \<and> [- 1, 0, 1 :: real] ! j = 0 then 1 else (1 / 20 :: real)\<rparr>
   \<and> np_max \<lparr>nrows = 3, ncols = 3, cell = \<lambda>j i. if [- 1, 0, 1 :: real] ! i = 0 \<and> [- 1, 0, 1 :: real] ! j = 0 then 1 else (1 / 20 :: real)\<rparr> = Inr 1
   \<and> (\<exists>qm. make_bg_psf_mask (3, 3) \<lparr>wc_catsize = 2, wc_x = [1, 0], wc_y = [1, 0], wc_fscale = [1, 1 / 2],
               wc_dxs = [[0], [0]], wc_dys = [[0], [0]], wc_coeff = [None, None]\<rparr> [0, 0] [\<lparr>pm_call = \<lambda>xs ys g c. \<lparr>nrows = length ys, ncols = length xs,
                   cell = \<lambda>j i. if xs ! i = 0 \<and> ys ! j = 0 then 1 else 1 / 20\<rparr>,
               pm_norm = 1\<rparr>] [0] None 1 (1 / 10) = Inr qm
        \<and> shape2 qm = (3, 3) \<and> \<not> cell qm 0 0 \<and> cell qm 0 1 \<and> cell qm 1 0 \<and> cell qm 1 1
        \<and> cell qm 2 2)"
proof -
  define p :: psf_model where "p = \<lparr>pm_call = \<lambda>xs ys g c. \<lparr>nrows = length ys, ncols = length xs,
                   cell = \<lambda>j i. if xs ! i = 0 \<and> ys ! j = 0 then 1 else 1 / 20\<rparr>,
               pm_norm = 1\<rparr>"
  define wc :: WorkCat where "wc = \<lparr>wc_catsize = 2, wc_x = [1, 0], wc_y = [1, 0], wc_fscale = [1, 1 / 2],
               wc_dxs = [[0], [0]], wc_dys = [[0], [0]], wc_coeff = [None, None]\<rparr>"
  define SF :: "real array2" where "SF = \<lparr>nrows = 3, ncols = 3, cell = \<lambda>j i. if [- 1, 0, 1 :: real] ! i = 0 \<and> [- 1, 0, 1 :: real] ! j = 0 then 1 else (1 / 20 :: real)\<rparr>"
  have wcs: "wc_catsize wc = 2" "wc_x wc = [1, 0]" "wc_y wc = [1, 0]"
      "wc_dxs wc = [[0], [0]]" "wc_dys wc = [[0], [0]]" "wc_coeff wc = [None, None]"
    by (simp_all add: wc_def)
  have sf: "star_frame_of 0 0 [0] [0] p None 1 = Inr SF" and pk: "np_max SF = Inr 1"
    unfolding p_def SF_def by (rule example_peaked_frame)+
  have ex2: "(\<forall>n < 2. n = (0 :: nat) \<or> Q n) \<longleftrightarrow> Q (Suc 0)"
      "(\<forall>n < 2. (0 :: nat) < n \<longrightarrow> Q n) \<longleftrightarrow> Q (Suc 0)" for Q
    by (auto simp: less_2_cases_iff)
  have py0: "py_int 0 = 0" by (simp add: py_int_def)
  have hyp: "0 \<le> (1 :: real) \<and>
    (\<forall>n < wc_catsize wc. n \<notin> set [0] \<longrightarrow> n < length (wc_x wc) \<and> n < length (wc_y wc))"
    by (simp add: wcs)
  have z: "(0 :: real) - real_of_int (py_int 0) = 0" by (simp add: py_int_def)
  have hyp2: "0 \<le> (1 :: int) \<and>
       (\<forall>n < wc_catsize wc. n \<notin> set [0] \<longrightarrow>
          n < length (wc_x wc) \<and> n < length (wc_y wc) \<and>
          n < length (wc_dxs wc) \<and> n < length (wc_dys wc) \<and>
          n < length [0, 0 :: nat] \<and> [0, 0] ! n < length [p] \<and>
          star_kmat wc n None = Inr ((\<lambda>n. None) n) \<and>
          star_frame_of (wc_x wc ! n - real_of_int (py_int (wc_x wc ! n)))
                 (wc_y wc ! n - real_of_int (py_int (wc_y wc ! n)))
                 (wc_dxs wc ! n) (wc_dys wc ! n) ([p] ! ([0, 0] ! n)) ((\<lambda>n. None) n) 1
            = Inr ((\<lambda>n. SF) n) \<and>
          shape2 ((\<lambda>n. SF) n) = (nat (2 * 1 + 1), nat (2 * 1 + 1)) \<and>
          np_max ((\<lambda>n. SF) n) = Inr ((\<lambda>n. 1) n))"
    using sf pk by (simp add: wcs ex2 star_kmat_def py0) (simp add: SF_def shape2_def)
  note T = bg_masks_clean_is_true [where radius = 1 and work_cat = wc and skip = "[0]"
      and shape = "(3, 3)" and psf_ids = "[0, 0]" and psfs = "[p]" and kxy = None
      and psf_radius = 1 and level = "1 / 10" and km = "\<lambda>n. None" and sf = "\<lambda>n. SF"
      and peak = "\<lambda>n. 1"]
  from T [THEN conjunct1, THEN mp, OF hyp]
  have circ: "\<exists>m. make_bg_circ_mask (3, 3) wc [0] 1 = Inr m \<and> shape2 m = (3, 3) \<and>
           (\<forall>j i. j < 3 \<and> i < 3 \<longrightarrow>
              (cell m j i \<longleftrightarrow> \<not> ((real i)\<^sup>2 + (real j)\<^sup>2 \<le> 1)))"
    by (simp add: wcs ex2) blast
  from T [THEN conjunct2, THEN conjunct2, THEN mp, OF hyp2, THEN conjunct2]
  have "\<exists>qm. make_bg_psf_mask (3, 3) wc [0, 0] [p] [0] None 1 (1 / 10) = Inr qm \<and>
           shape2 qm = (3, 3) \<and>
           (\<forall>j i. j < fst (3 :: nat, 3 :: nat) \<and> i < snd (3 :: nat, 3 :: nat) \<longrightarrow>
              (cell qm j i \<longleftrightarrow>
                 \<not> (\<exists>n < wc_catsize wc. n \<notin> set [0] \<and>
                       \<bar>int i - py_int (wc_x wc ! n)\<bar> \<le> 1 \<and>
                       \<bar>int j - py_int (wc_y wc ! n)\<bar> \<le> 1 \<and>
                       1 / 10 * 1 <
                         cell SF (nat (int j - py_int (wc_y wc ! n) + 1))
                                     (nat (int i - py_int (wc_x wc ! n) + 1)))))"
    by blast
  then obtain qm where qm: "make_bg_psf_mask (3, 3) wc [0, 0] [p] [0] None 1 (1 / 10) = Inr qm"
      "shape2 qm = (3, 3)"
    and cq0: "\<And>j i. j < fst (3 :: nat, 3 :: nat) \<and> i < snd (3 :: nat, 3 :: nat) \<Longrightarrow>
              (cell qm j i \<longleftrightarrow>
                 \<not> (\<exists>n < wc_catsize wc. n \<notin> set [0] \<and>
                       \<bar>int i - py_int (wc_x wc ! n)\<bar> \<le> 1 \<and>
                       \<bar>int j - py_int (wc_y wc ! n)\<bar> \<le> 1 \<and>
                       1 / 10 * 1 <
                         cell SF (nat (int j - py_int (wc_y wc ! n) + 1))
                                     (nat (int i - py_int (wc_x wc ! n) + 1))))"
    by blast
  have exn: "(\<exists>n < wc_catsize wc. n \<notin> set [0] \<and> Q n) \<longleftrightarrow> Q 1" for Q
    by (auto simp: wcs less_2_cases_iff)
  have x1: "wc_x wc ! 1 = 0" "wc_y wc ! 1 = 0" by (simp_all add: wcs)
  note cq = cq0 [unfolded exn x1 py0]
  have "\<not> cell qm 0 0" "cell qm 0 1" "cell qm 1 0" "cell qm 1 1" "cell qm 2 2"
    using cq [of 0 0] cq [of 0 1] cq [of 1 0] cq [of 1 1] cq [of 2 2]
    by (simp_all add: SF_def)
  with qm have B: "\<exists>qm. make_bg_psf_mask (3, 3) wc [0, 0] [p] [0] None 1 (1 / 10) = Inr qm
        \<and> shape2 qm = (3, 3) \<and> \<not> cell qm 0 0 \<and> cell qm 0 1 \<and> cell qm 1 0 \<and> cell qm 1 1
        \<and> cell qm 2 2"
    by blast
  from circ obtain m where m: "make_bg_circ_mask (3, 3) wc [0] 1 = Inr m" "shape2 m = (3, 3)"
    and cm: "\<And>j i. j < 3 \<and> i < 3 \<Longrightarrow>
              (cell m j i \<longleftrightarrow> \<not> ((real i)\<^sup>2 + (real j)\<^sup>2 \<le> 1))"
    by blast
  have "\<not> cell m 0 0" "\<not> cell m 0 1" "cell m 1 1" "cell m 2 2"
    using cm [of 0 0] cm [of 0 1] cm [of 1 1] cm [of 2 2] by simp_all
  with m have A: "\<exists>m. make_bg_circ_mask (3, 3) wc [0] 1 = Inr m
        \<and> shape2 m = (3, 3) \<and> \<not> cell m 0 0 \<and> \<not> cell m 0 1 \<and> cell m 1 1 \<and> cell m 2 2"
    by blast
  from A sf pk B show ?thesis
    unfolding p_def wc_def SF_def by blast
qed

subsection \<open>Pixels of the image\<close>

text \<open>
  One pass of the loop of \<^verbatim>\<open>star_bg.image\<close> for a star that contributes adds the
  scaled footprint of the star to the frame, pixel by pixel; the image is the sum of
  these footprints.
\<close>

lemma psf_radii_pos: "0 < psf_radii f"
proof -
  have "(25 :: real) \<le> min (max (25 + 75 * (f - 1 / 10000) / (1 / 10 - 1 / 10000)) 25) 100"
    by simp
  then have "25 \<le> \<lceil>min (max (25 + 75 * (f - 1 / 10000) / (1 / 10 - 1 / 10000)) 25) 100\<rceil>"
    by (simp add: le_ceiling_iff)
  then show ?thesis by (simp add: psf_radii_def Let_def)
qed

lemma find_area_inds_Some:
  assumes "find_area_inds x y shape r = Some (i0, i1, j0, j1)" and "0 < r"
  shows "i0 = max (py_int x - r) 0" "i1 = min (py_int x + r) (int (snd shape))"
    "j0 = max (py_int y - r) 0" "j1 = min (py_int y + r) (int (fst shape))"
    "0 \<le> i0" "i0 \<le> i1" "i1 \<le> int (snd shape)" "0 \<le> j0" "j0 \<le> j1" "j1 \<le> int (fst shape)"
  using assms
  by (auto simp: find_area_inds_def Let_def split: if_splits)

lemma find_area_inds_None:
  assumes "find_area_inds x y shape r = None"
  shows "\<not> (max (py_int x - r) 0 \<le> int i \<and> int i < min (py_int x + r) (int (snd shape)) \<and>
            max (py_int y - r) 0 \<le> int j \<and> int j < min (py_int y + r) (int (fst shape)))"
  using assms
  by (auto simp: find_area_inds_def Let_def split: if_splits)

lemma py_slice_map_upt:
  assumes "0 \<le> lo" "lo \<le> hi" "hi \<le> int n"
  shows "py_slice (map f [0..<n]) lo hi = map f [nat lo..<nat hi]"
proof -
  have sb: "slice_bounds n lo hi = (nat lo, nat hi)"
    using assms by (intro slice_bounds_inside)
  have "take (nat hi - nat lo) (drop (nat lo) (map f [0..<n])) = map f [nat lo..<nat hi]"
    using assms by (simp add: drop_map take_map min_def nat_le_iff)
  then show ?thesis
    by (simp add: py_slice_def sb)
qed


lemma nth_map_upt_window:
  assumes "a \<le> i" and "i < b"
  shows "map f [a..<b] ! (i - a) = f i"
proof -
  from assms have "i - a < b - a" by linarith
  then have "map f [a..<b] ! (i - a) = f (a + (i - a))" by simp
  with assms show ?thesis by simp
qed

lemma image_render_adds:
  assumes sh: "shape2 ret = shape"
    and pid: "image_contributes self x0 y0 dx dy shape skip limflux n \<Longrightarrow>
              n < length (sb_psf_ids self) \<and> sb_psf_ids self ! n < length (sb_psfs self)"
    and con: "image_contributes self x0 y0 dx dy shape skip limflux n"
    and wf: "\<forall>p \<in> set (sb_psfs self). \<forall>xs ys. shape2 (pm_call p xs ys None None) = (length ys, length xs)"
  shows "image_render self x0 y0 dx dy shape ret n =
           Inr (ret\<lparr>cell := \<lambda>j i. cell ret j i + image_footprint self x0 y0 dx dy shape n j i\<rparr>)"
proof -
  define fs where "fs = sb_fscale self ! n"
  define r where "r = psf_radii fs"
  define psf where "psf = sb_psfs self ! (sb_psf_ids self ! n)"
  have r0: "0 < r" by (simp add: r_def psf_radii_pos)
  from con obtain i0 i1 j0 j1 where
    fa: "find_area_inds (x0 + dx ! n) (y0 + dy ! n) shape r = Some (i0, i1, j0, j1)"
    by (auto simp: image_contributes_def r_def fs_def)
  note w = find_area_inds_Some [OF fa r0]
  have nr: "nrows ret = fst shape" "ncols ret = snd shape"
    using sh by (auto simp: shape2_def)
  define ddx where "ddx = map (\<lambda>k. real k - x0 - dx ! n) [nat i0..<nat i1]"
  define ddy where "ddy = map (\<lambda>k. real k - y0 - dy ! n) [nat j0..<nat j1]"
  have sx: "map (\<lambda>v. v - dx ! n) (py_slice (map (\<lambda>k. real k - x0) [0..<snd shape]) i0 i1) = ddx"
    unfolding py_slice_map_upt [OF w(5) w(6) w(7)] ddx_def by simp
  have sy: "map (\<lambda>v. v - dy ! n) (py_slice (map (\<lambda>k. real k - y0) [0..<fst shape]) j0 j1) = ddy"
    unfolding py_slice_map_upt [OF w(8) w(9) w(10)] ddy_def by simp
  have lx: "length ddx = nat i1 - nat i0" and ly: "length ddy = nat j1 - nat j0"
    by (simp_all add: ddx_def ddy_def)
  from pid [OF con] have pv: "nth_exc (sb_psf_ids self) n = Inr (sb_psf_ids self ! n)"
    "nth_exc (sb_psfs self) (sb_psf_ids self ! n) = Inr psf" and pin: "psf \<in> set (sb_psfs self)"
    by (simp_all add: nth_exc_def psf_def)
  define pmat where "pmat = pm_call psf ddx ddy None None"
  have psh: "shape2 pmat = (length ddy, length ddx)"
    using wf pin by (simp add: pmat_def)
  define B where "B = scale fs (pmat\<lparr>cell := \<lambda>j i.
                          if (ddx ! i)\<^sup>2 + (ddy ! j)\<^sup>2 > (real_of_int r)\<^sup>2 then 0
                          else cell pmat j i\<rparr>)"
  have Bsh: "shape2 B = (nat j1 - nat j0, nat i1 - nat i0)"
    using psh by (simp add: B_def scale_def shape2_def lx ly)
  have cB: "cell B a b = fs * (if (ddx ! b)\<^sup>2 + (ddy ! a)\<^sup>2 > (real_of_int r)\<^sup>2 then 0
                               else cell pmat a b)" for a b
    by (simp add: B_def scale_def)
  have si: "slice_iadd ret (j0, j1) (i0, i1) B =
     Inr (ret\<lparr>cell := \<lambda>j i.
                  if nat j0 \<le> j \<and> j < nat j1 \<and> nat i0 \<le> i \<and> i < nat i1
                  then cell ret j i + cell B (j - nat j0) (i - nat i0)
                  else cell ret j i\<rparr>)"
    by (rule slice_iadd_inside) (simp_all only: nr w(5-10) Bsh)
  have ir: "image_render self x0 y0 dx dy shape ret n = slice_iadd ret (j0, j1) (i0, i1) B"
    unfolding image_render_def Let_def fs_def [symmetric] r_def [symmetric] fa option.case prod.case
      sx sy pv bind_exc_simps pmat_def [symmetric] B_def [symmetric]
    using psh by simp
  have fe: "(\<lambda>j i. if nat j0 \<le> j \<and> j < nat j1 \<and> nat i0 \<le> i \<and> i < nat i1
                  then cell ret j i + cell B (j - nat j0) (i - nat i0)
                  else cell ret j i) =
            (\<lambda>j i. cell ret j i + image_footprint self x0 y0 dx dy shape n j i)"
  proof (intro ext)
    fix j i
    have win: "(nat j0 \<le> j \<and> j < nat j1 \<and> nat i0 \<le> i \<and> i < nat i1) \<longleftrightarrow>
               (i0 \<le> int i \<and> int i < i1 \<and> j0 \<le> int j \<and> int j < j1)"
      using w(5) w(8) by auto
    have fp: "image_footprint self x0 y0 dx dy shape n j i =
        (if i0 \<le> int i \<and> int i < i1 \<and> j0 \<le> int j \<and> int j < j1 \<and>
            (real i - x0 - dx ! n)\<^sup>2 + (real j - y0 - dy ! n)\<^sup>2 \<le> (real_of_int r)\<^sup>2
         then fs * cell pmat (j - nat j0) (i - nat i0) else 0)"
      unfolding image_footprint_def Let_def fs_def [symmetric] r_def [symmetric]
        w(1-4) [symmetric] ddx_def [symmetric] ddy_def [symmetric] psf_def [symmetric]
        pmat_def [symmetric]
      by (rule refl)
    show "(if nat j0 \<le> j \<and> j < nat j1 \<and> nat i0 \<le> i \<and> i < nat i1
                  then cell ret j i + cell B (j - nat j0) (i - nat i0)
                  else cell ret j i) = cell ret j i + image_footprint self x0 y0 dx dy shape n j i"
    proof (cases "nat j0 \<le> j \<and> j < nat j1 \<and> nat i0 \<le> i \<and> i < nat i1")
      case True
      then have ix: "ddx ! (i - nat i0) = real i - x0 - dx ! n"
        and iy: "ddy ! (j - nat j0) = real j - y0 - dy ! n"
        unfolding ddx_def ddy_def by (simp_all add: nth_map_upt_window)
      from True win have wi: "i0 \<le> int i \<and> int i < i1 \<and> j0 \<le> int j \<and> int j < j1" by simp
      show ?thesis
        unfolding fp cB ix iy using True wi by (simp add: not_less)
    next
      case False
      with win have "\<not> (i0 \<le> int i \<and> int i < i1 \<and> j0 \<le> int j \<and> int j < j1)" by simp
      with False show ?thesis unfolding fp by auto
    qed
  qed
  show ?thesis unfolding ir si fe by (rule refl)
qed

lemma image_footprint_no_overlap:
  assumes "find_area_inds (x0 + dx ! n) (y0 + dy ! n) shape (psf_radii (sb_fscale self ! n)) = None"
  shows "image_footprint self x0 y0 dx dy shape n j i = 0"
  using find_area_inds_None [OF assms, of i j]
  by (auto simp: image_footprint_def Let_def)


lemma image_fold_sum:
  assumes wf: "\<forall>p \<in> set (sb_psfs self). \<forall>xs ys. shape2 (pm_call p xs ys None None) = (length ys, length xs)"
    and ids: "\<And>n. n \<in> set ns \<Longrightarrow>
                n < length (sb_fscale self) \<and> n < length dx \<and> n < length dy \<and>
                (image_contributes self x0 y0 dx dy shape skip limflux n \<longrightarrow>
                   n < length (sb_psf_ids self) \<and> sb_psf_ids self ! n < length (sb_psfs self))"
    and sh: "shape2 f0 = shape"
  shows "\<exists>f. fold_exc (image_step self x0 y0 dx dy shape skip limflux) f0 ns = Inr f \<and>
             shape2 f = shape \<and>
             (\<forall>j i. cell f j i = cell f0 j i +
                (\<Sum>n\<leftarrow>ns. if image_contributes self x0 y0 dx dy shape skip limflux n
                         then image_footprint self x0 y0 dx dy shape n j i else 0))"
  using ids sh
proof (induction ns arbitrary: f0)
  case Nil
  then show ?case by simp
next
  case (Cons n ns)
  from Cons.prems(1) [of n] have v: "n < length (sb_fscale self)" "n < length dx" "n < length dy"
    and pv: "image_contributes self x0 y0 dx dy shape skip limflux n \<Longrightarrow>
               n < length (sb_psf_ids self) \<and> sb_psf_ids self ! n < length (sb_psfs self)"
    by simp_all
  define f1 where "f1 = (if image_contributes self x0 y0 dx dy shape skip limflux n
        then f0\<lparr>cell := \<lambda>j i. cell f0 j i + image_footprint self x0 y0 dx dy shape n j i\<rparr>
        else f0)"
  have st: "image_step self x0 y0 dx dy shape skip limflux f0 n = Inr f1"
  proof (cases "image_contributes self x0 y0 dx dy shape skip limflux n")
    case True
    from image_render_adds [OF Cons.prems(2) pv True wf] True show ?thesis
      by (simp add: image_step_cases [OF v] f1_def)
  next
    case False
    then show ?thesis by (simp add: image_step_cases [OF v] f1_def)
  qed
  have sh1: "shape2 f1 = shape"
    using Cons.prems(2) by (simp add: f1_def shape2_def)
  have c1: "cell f1 j i = cell f0 j i +
      (if image_contributes self x0 y0 dx dy shape skip limflux n
       then image_footprint self x0 y0 dx dy shape n j i else 0)" for j i
    by (simp add: f1_def)
  have ids': "m < length (sb_fscale self) \<and> m < length dx \<and> m < length dy \<and>
                (image_contributes self x0 y0 dx dy shape skip limflux m \<longrightarrow>
                   m < length (sb_psf_ids self) \<and> sb_psf_ids self ! m < length (sb_psfs self))"
    if "m \<in> set ns" for m
    using Cons.prems(1) [of m] that by simp
  from Cons.IH [OF ids' sh1] obtain f where
    f: "fold_exc (image_step self x0 y0 dx dy shape skip limflux) f1 ns = Inr f" "shape2 f = shape"
    and cf: "\<And>j i. cell f j i = cell f1 j i +
                (\<Sum>n\<leftarrow>ns. if image_contributes self x0 y0 dx dy shape skip limflux n
                         then image_footprint self x0 y0 dx dy shape n j i else 0)"
    by blast
  show ?case
    using f by (simp add: st cf c1)
qed

text \<open>
  C8. The image is the empty frame to which the stars that are not skipped, not below the
  flux floor and overlap the frame have added their scaled footprints, one after the other
  in catalogue order; a star that is skipped or below the floor leaves the frame as it is.
  With PSF models that return an array of the size of their sample grid, the call returns
  and every pixel of the image is the sum of the scaled footprints there of exactly those
  stars; the scaled footprint of a star is its flux scale times its PSF model at the pixel,
  inside its window and radius, and zero elsewhere. For flux scales \<open>[1, 0.05, 1e-6]\<close>,
  an empty skip list and floor \<open>1e-5\<close>, the stars that contribute are those of indices
  0 and 1 whose footprint overlaps the frame.
\<close>

theorem image_excludes_skipped_and_faint:
  "(star_bg_ok self \<and> rotate_cat self rolldeg None = Inr (dx, dy) \<longrightarrow>
      image self x0 y0 rolldeg shape skip limflux None =
        fold_exc (image_render self x0 y0 dx dy shape) (zeros shape)
          (filter (image_contributes self x0 y0 dx dy shape skip limflux) [0..<sb_catsize self])
      \<and> (\<forall>img n. n < sb_catsize self \<and> (n \<in> set skip \<or> sb_fscale self ! n < limflux) \<longrightarrow>
             image_step self x0 y0 dx dy shape skip limflux img n = Inr img))
   \<and> (star_bg_ok self \<and> sb_fscale self = [1, 1 / 20, 1 / 1000000] \<longrightarrow>
        filter (image_contributes self x0 y0 dx dy shape [] (1 / 100000)) [0..<sb_catsize self] =
        filter (\<lambda>n. find_area_inds (x0 + dx ! n) (y0 + dy ! n) shape
                       (psf_radii (sb_fscale self ! n)) \<noteq> None) [0, 1])
   \<and> (star_bg_ok self \<and> rotate_cat self rolldeg None = Inr (dx, dy) \<and>
       (\<forall>n < sb_catsize self. image_contributes self x0 y0 dx dy shape skip limflux n \<longrightarrow>
           n < length (sb_psf_ids self) \<and> sb_psf_ids self ! n < length (sb_psfs self)) \<and>
       (\<forall>p \<in> set (sb_psfs self). \<forall>xs ys.
           shape2 (pm_call p xs ys None None) = (length ys, length xs)) \<longrightarrow>
        (\<exists>img. image self x0 y0 rolldeg shape skip limflux None = Inr img \<and> shape2 img = shape \<and>
           (\<forall>j i. j < fst shape \<and> i < snd shape \<longrightarrow>
              cell img j i =
                (\<Sum>n\<leftarrow>[0..<sb_catsize self].
                    if n \<notin> set skip \<and> \<not> sb_fscale self ! n < limflux \<and>
                       find_area_inds (x0 + dx ! n) (y0 + dy ! n) shape
                         (psf_radii (sb_fscale self ! n)) \<noteq> None
                    then image_footprint self x0 y0 dx dy shape n j i else 0) \<and>
              cell img j i =
                (\<Sum>n\<leftarrow>[0..<sb_catsize self].
                    if n \<in> set skip \<or> sb_fscale self ! n < limflux then 0
                    else image_footprint self x0 y0 dx dy shape n j i))))"
proof (intro conjI impI allI)
  assume h: "star_bg_ok self \<and> rotate_cat self rolldeg None = Inr (dx, dy)"
  then show "image self x0 y0 rolldeg shape skip limflux None =
        fold_exc (image_render self x0 y0 dx dy shape) (zeros shape)
          (filter (image_contributes self x0 y0 dx dy shape skip limflux) [0..<sb_catsize self])"
    using image_as_fold by blast
  fix img n
  assume n: "n < sb_catsize self \<and> (n \<in> set skip \<or> sb_fscale self ! n < limflux)"
  with h have "n < length (sb_fscale self)" by (simp add: star_bg_ok_def)
  with n show "image_step self x0 y0 dx dy shape skip limflux img n = Inr img"
    using image_step_skipped image_step_faint by blast
next
  assume "star_bg_ok self \<and> sb_fscale self = [1, 1 / 20, 1 / 1000000]"
  then show "filter (image_contributes self x0 y0 dx dy shape [] (1 / 100000)) [0..<sb_catsize self] =
        filter (\<lambda>n. find_area_inds (x0 + dx ! n) (y0 + dy ! n) shape
                       (psf_radii (sb_fscale self ! n)) \<noteq> None) [0, 1]"
    using image_example_ids by blast
next
  assume h: "star_bg_ok self \<and> rotate_cat self rolldeg None = Inr (dx, dy) \<and>
       (\<forall>n < sb_catsize self. image_contributes self x0 y0 dx dy shape skip limflux n \<longrightarrow>
           n < length (sb_psf_ids self) \<and> sb_psf_ids self ! n < length (sb_psfs self)) \<and>
       (\<forall>p \<in> set (sb_psfs self). \<forall>xs ys.
           shape2 (pm_call p xs ys None None) = (length ys, length xs))"
  then have ok: "star_bg_ok self" and rc: "rotate_cat self rolldeg None = Inr (dx, dy)"
    and wf: "\<forall>p \<in> set (sb_psfs self). \<forall>xs ys.
           shape2 (pm_call p xs ys None None) = (length ys, length xs)"
    by simp_all
  have l: "length dx = sb_catsize self" "length dy = sb_catsize self"
    using rotate_cat_None_length [OF ok rc] by simp_all
  have f: "length (sb_fscale self) = sb_catsize self"
    using ok by (simp add: star_bg_ok_def)
  have ids: "n < length (sb_fscale self) \<and> n < length dx \<and> n < length dy \<and>
                (image_contributes self x0 y0 dx dy shape skip limflux n \<longrightarrow>
                   n < length (sb_psf_ids self) \<and> sb_psf_ids self ! n < length (sb_psfs self))"
    if "n \<in> set [0..<sb_catsize self]" for n
    using that h by (simp add: l f)
  have z: "shape2 (zeros shape) = shape" by simp
  have "\<exists>f. fold_exc (image_step self x0 y0 dx dy shape skip limflux) (zeros shape)
               [0..<sb_catsize self] = Inr f \<and>
             shape2 f = shape \<and>
             (\<forall>j i. cell f j i = cell (zeros shape) j i +
                (\<Sum>n\<leftarrow>[0..<sb_catsize self]. if image_contributes self x0 y0 dx dy shape skip limflux n
                         then image_footprint self x0 y0 dx dy shape n j i else 0))"
  proof (rule image_fold_sum [OF wf _ z])
    fix n assume "n \<in> set [0..<sb_catsize self]"
    then show "n < length (sb_fscale self) \<and> n < length dx \<and> n < length dy \<and>
                (image_contributes self x0 y0 dx dy shape skip limflux n \<longrightarrow>
                   n < length (sb_psf_ids self) \<and> sb_psf_ids self ! n < length (sb_psfs self))"
      by (rule ids)
  qed
  then obtain img where
    run: "fold_exc (image_step self x0 y0 dx dy shape skip limflux) (zeros shape) [0..<sb_catsize self] = Inr img"
    and sh: "shape2 img = shape"
    and c0: "\<And>j i. cell img j i = cell (zeros shape) j i +
                (\<Sum>n\<leftarrow>[0..<sb_catsize self]. if image_contributes self x0 y0 dx dy shape skip limflux n
                         then image_footprint self x0 y0 dx dy shape n j i else 0)"
    by blast
  have c: "cell img j i =
                (\<Sum>n\<leftarrow>[0..<sb_catsize self]. if image_contributes self x0 y0 dx dy shape skip limflux n
                         then image_footprint self x0 y0 dx dy shape n j i else 0)" for j i
    unfolding c0 [of j i] by simp
  have im: "image self x0 y0 rolldeg shape skip limflux None = Inr img"
    by (simp add: image_def rc Let_def run)
  have e2: "(if n \<in> set skip \<or> sb_fscale self ! n < limflux then 0
             else image_footprint self x0 y0 dx dy shape n j i) =
            (if image_contributes self x0 y0 dx dy shape skip limflux n
             then image_footprint self x0 y0 dx dy shape n j i else 0)" for n j i
  proof (cases "find_area_inds (x0 + dx ! n) (y0 + dy ! n) shape (psf_radii (sb_fscale self ! n))")
    case None
    from image_footprint_no_overlap [OF None] None show ?thesis
      by (simp add: image_contributes_def)
  next
    case (Some w)
    then show ?thesis by (simp add: image_contributes_def)
  qed
  show "\<exists>img. image self x0 y0 rolldeg shape skip limflux None = Inr img \<and> shape2 img = shape \<and>
           (\<forall>j i. j < fst shape \<and> i < snd shape \<longrightarrow>
              cell img j i =
                (\<Sum>n\<leftarrow>[0..<sb_catsize self].
                    if n \<notin> set skip \<and> \<not> sb_fscale self ! n < limflux \<and>
                       find_area_inds (x0 + dx ! n) (y0 + dy ! n) shape
                         (psf_radii (sb_fscale self ! n)) \<noteq> None
                    then image_footprint self x0 y0 dx dy shape n j i else 0) \<and>
              cell img j i =
                (\<Sum>n\<leftarrow>[0..<sb_catsize self].
                    if n \<in> set skip \<or> sb_fscale self ! n < limflux then 0
                    else image_footprint self x0 y0 dx dy shape n j i))"
    using im sh c unfolding e2 by (simp add: image_contributes_def)
qed

text \<open>
  Three stars with flux scales \<open>1\<close>, \<open>1 / 20\<close> and \<open>1 / 1000000\<close> around the target at
  \<open>(10, 10)\<close> of a 20 by 20 frame, and a PSF model whose value \<open>100 + x + 10 y\<close> tells the
  offsets \<open>(x, y)\<close> it is sampled at. With the floor \<open>1 / 100000\<close> the stars 0 and 1
  contribute: the pixel of row 12 and column 11 holds \<open>1 \<times> 121 + 1 / 20 \<times> 78\<close>, and the
  third star adds nothing.
\<close>

theorem image_excludes_skipped_and_faint_witness:
  "star_bg_ok \<lparr>sb_xpos = [0, 3, 5], sb_ypos = [0, 4, - 2], sb_fscale = [1, 1 / 20, 1 / 1000000],
               sb_catsize = 3, sb_psf_ids = [0, 0, 0],
               sb_psfs = [\<lparr>pm_call = \<lambda>xs ys g c. \<lparr>nrows = length ys, ncols = length xs,
                                                        cell = \<lambda>j i. 100 + xs ! i + 10 * ys ! j\<rparr>, pm_norm = 1\<rparr>]\<rparr>
   \<and> rotate_cat \<lparr>sb_xpos = [0, 3, 5], sb_ypos = [0, 4, - 2], sb_fscale = [1, 1 / 20, 1 / 1000000],
               sb_catsize = 3, sb_psf_ids = [0, 0, 0],
               sb_psfs = [\<lparr>pm_call = \<lambda>xs ys g c. \<lparr>nrows = length ys, ncols = length xs,
                                                        cell = \<lambda>j i. 100 + xs ! i + 10 * ys ! j\<rparr>, pm_norm = 1\<rparr>]\<rparr> 0 None
       = Inr ([0, 3, 5], [0, 4, - 2])
   \<and> image \<lparr>sb_xpos = [0, 3, 5], sb_ypos = [0, 4, - 2], sb_fscale = [1, 1 / 20, 1 / 1000000],
               sb_catsize = 3, sb_psf_ids = [0, 0, 0],
               sb_psfs = [\<lparr>pm_call = \<lambda>xs ys g c. \<lparr>nrows = length ys, ncols = length xs,
                                                        cell = \<lambda>j i. 100 + xs ! i + 10 * ys ! j\<rparr>, pm_norm = 1\<rparr>]\<rparr>
         10 10 0 (20, 20) [] (1 / 100000) None
       = fold_exc (image_render
           \<lparr>sb_xpos = [0, 3, 5], sb_ypos = [0, 4, - 2], sb_fscale = [1, 1 / 20, 1 / 1000000],
               sb_catsize = 3, sb_psf_ids = [0, 0, 0],
               sb_psfs = [\<lparr>pm_call = \<lambda>xs ys g c. \<lparr>nrows = length ys, ncols = length xs,
                                                        cell = \<lambda>j i. 100 + xs ! i + 10 * ys ! j\<rparr>, pm_norm = 1\<rparr>]\<rparr>
           10 10 [0, 3, 5] [0, 4, - 2] (20, 20)) (zeros (20, 20)) [0, 1]
   \<and> (\<exists>img. image \<lparr>sb_xpos = [0, 3, 5], sb_ypos = [0, 4, - 2], sb_fscale = [1, 1 / 20, 1 / 1000000],
               sb_catsize = 3, sb_psf_ids = [0, 0, 0],
               sb_psfs = [\<lparr>pm_call = \<lambda>xs ys g c. \<lparr>nrows = length ys, ncols = length xs,
                                                        cell = \<lambda>j i. 100 + xs ! i + 10 * ys ! j\<rparr>, pm_norm = 1\<rparr>]\<rparr>
         10 10 0 (20, 20) [] (1 / 100000) None = Inr img
        \<and> shape2 img = (20, 20) \<and> cell img 12 11 = 1249 / 10 \<and> cell img 10 10 = 2057 / 20)"
proof -
  define sb :: star_bg where "sb = \<lparr>sb_xpos = [0, 3, 5], sb_ypos = [0, 4, - 2], sb_fscale = [1, 1 / 20, 1 / 1000000],
               sb_catsize = 3, sb_psf_ids = [0, 0, 0],
               sb_psfs = [\<lparr>pm_call = \<lambda>xs ys g c. \<lparr>nrows = length ys, ncols = length xs,
                                                        cell = \<lambda>j i. 100 + xs ! i + 10 * ys ! j\<rparr>, pm_norm = 1\<rparr>]\<rparr>"
  have fields: "sb_xpos sb = [0, 3, 5]" "sb_ypos sb = [0, 4, - 2]"
    "sb_fscale sb = [1, 1 / 20, 1 / 1000000]" "sb_catsize sb = 3" "sb_psf_ids sb = [0, 0, 0]"
    "sb_psfs sb = [\<lparr>pm_call = \<lambda>xs ys g c. \<lparr>nrows = length ys, ncols = length xs,
                                                        cell = \<lambda>j i. 100 + xs ! i + 10 * ys ! j\<rparr>, pm_norm = 1\<rparr>]"
    by (simp_all add: sb_def)
  have ok: "star_bg_ok sb"
    by (simp add: star_bg_ok_def fields)
  have rc: "rotate_cat sb 0 None = Inr ([0, 3, 5], [0, 4, - 2])"
    by (simp add: rotate_cat_def rotate_position_arr_def np_binop_def deg2rad_def fields)
  have fs: "sb_fscale sb = [1, 1 / 20, 1 / 1000000]" by (rule fields)
  have o0: "find_area_inds (10 + [0, 3, 5] ! 0) (10 + [0, 4, - 2] ! 0) (20, 20)
      (psf_radii (sb_fscale sb ! 0)) \<noteq> None"
    by (simp add: fields psf_radii_values find_area_inds_def py_int_def Let_def)
  have o1: "find_area_inds (10 + [0, 3, 5] ! 1) (10 + [0, 4, - 2] ! 1) (20, 20)
      (psf_radii (sb_fscale sb ! 1)) \<noteq> None"
    by (simp add: fields psf_radii_values find_area_inds_def py_int_def Let_def)
  have ids: "filter (\<lambda>n. find_area_inds (10 + [0, 3, 5] ! n) (10 + [0, 4, - 2] ! n) (20, 20)
                       (psf_radii (sb_fscale sb ! n)) \<noteq> None) [0, 1] = [0, 1]"
    using o0 o1 by simp
  have pv: "\<forall>n < sb_catsize sb.
        image_contributes sb 10 10 [0, 3, 5] [0, 4, - 2] (20, 20) [] (1 / 100000) n \<longrightarrow>
        n < length (sb_psf_ids sb) \<and> sb_psf_ids sb ! n < length (sb_psfs sb)"
    by (auto simp: fields less_Suc_eq numeral_3_eq_3)
  have wf: "\<forall>p \<in> set (sb_psfs sb). \<forall>xs ys.
           shape2 (pm_call p xs ys None None) = (length ys, length xs)"
    by (simp add: fields shape2_def)
  note T = image_excludes_skipped_and_faint [where self = sb and rolldeg = 0 and dx = "[0, 3, 5]"
      and dy = "[0, 4, - 2]" and ?x0.0 = 10 and ?y0.0 = 10 and shape = "(20, 20)" and skip = "[]"
      and limflux = "1 / 100000"]
  from T [THEN conjunct1] ok rc
  have a: "image sb 10 10 0 (20, 20) [] (1 / 100000) None =
        fold_exc (image_render sb 10 10 [0, 3, 5] [0, 4, - 2] (20, 20)) (zeros (20, 20))
          (filter (image_contributes sb 10 10 [0, 3, 5] [0, 4, - 2] (20, 20) [] (1 / 100000))
             [0..<sb_catsize sb])"
    by blast
  from T [THEN conjunct2, THEN conjunct1] ok fs
  have b: "filter (image_contributes sb 10 10 [0, 3, 5] [0, 4, - 2] (20, 20) [] (1 / 100000))
             [0..<sb_catsize sb] =
        filter (\<lambda>n. find_area_inds (10 + [0, 3, 5] ! n) (10 + [0, 4, - 2] ! n) (20, 20)
                       (psf_radii (sb_fscale sb ! n)) \<noteq> None) [0, 1]"
    by blast
  from a have A: "image sb 10 10 0 (20, 20) [] (1 / 100000) None =
        fold_exc (image_render sb 10 10 [0, 3, 5] [0, 4, - 2] (20, 20)) (zeros (20, 20)) [0, 1]"
    unfolding b ids .
  from T [THEN conjunct2, THEN conjunct2] ok rc pv wf
  obtain img where img: "image sb 10 10 0 (20, 20) [] (1 / 100000) None = Inr img"
      "shape2 img = (20, 20)"
    and px: "\<And>j i. j < fst (20 :: nat, 20 :: nat) \<and> i < snd (20 :: nat, 20 :: nat) \<Longrightarrow>
              cell img j i =
                (\<Sum>n\<leftarrow>[0..<sb_catsize sb].
                    if n \<in> set [] \<or> sb_fscale sb ! n < 1 / 100000 then 0
                    else image_footprint sb 10 10 [0, 3, 5] [0, 4, - 2] (20, 20) n j i)"
    by blast
  have u: "[0..<sb_catsize sb] = [0, 1, 2]"
    by (simp add: fields upt_conv_Cons)
  have py: "py_int 10 = 10" "py_int 13 = 13" "py_int 14 = 14"
    by (simp_all add: py_int_def)
  have f0: "image_footprint sb 10 10 [0, 3, 5] [0, 4, - 2] (20, 20) 0 12 11 = 121"
    "image_footprint sb 10 10 [0, 3, 5] [0, 4, - 2] (20, 20) 0 10 10 = 100"
    by (simp_all add: image_footprint_def fields psf_radii_values py Let_def)
  have f1: "image_footprint sb 10 10 [0, 3, 5] [0, 4, - 2] (20, 20) 1 12 11 = 39 / 10"
    "image_footprint sb 10 10 [0, 3, 5] [0, 4, - 2] (20, 20) 1 10 10 = 57 / 20"
    by (simp_all add: image_footprint_def fields psf_radii_values py Let_def)
  have v: "cell img 12 11 = 1249 / 10" "cell img 10 10 = 2057 / 20"
    using px [of 12 11] px [of 10 10] unfolding u
    by (simp_all add: fields f0 f1 [unfolded One_nat_def])
  from ok rc A img v show ?thesis
    unfolding sb_def by blast
qed

end
